(* ===== verification/Prelude.thy ===== *)
theory Prelude
  imports Main "HOL-Library.Word"
begin

text \<open>
  The vocabulary every component of the model shares: the machine integers of
  the source, the outcome of a fallible operation, byte encodings of integers,
  checked slices and the bounded vectors of the code.

  Integers keep their width: a \<open>u64\<close> is a \<open>64 word\<close> and \<open>+\<close>, \<open>-\<close>, \<open>*\<close> wrap.
  That is the meaning of the operators in the \<open>release\<close> profile, which is what
  the Makefile builds unless told otherwise and which has overflow checks off.
  A \<open>usize\<close> that only indexes or counts elements of a list is a \<open>nat\<close>.
\<close>

unbundle bit_operations_syntax

named_theorems outcome_simps \<open>rewriting of outcomes and their sequencing\<close>
named_theorems byte_simps \<open>rewriting of byte encodings\<close>
named_theorems slice_simps \<open>rewriting of checked slices and splices\<close>

named_theorems safe_intros \<open>introduction of actions that return and keep an invariant\<close>

type_synonym u8 = "8 word"
type_synonym u9 = "9 word"
type_synonym u12 = "12 word"
type_synonym u16 = "16 word"
type_synonym u21 = "21 word"
type_synonym u30 = "30 word"
type_synonym u32 = "32 word"
type_synonym u64 = "64 word"

lemma unat_bound: "unat (w :: 'a::len word) < 2 ^ LENGTH('a)"
  by (rule unsigned_less)

lemma take_bit_less: "(a :: 'a::len word) < 2 ^ n \<Longrightarrow> n < LENGTH('a) \<Longrightarrow> take_bit n a = a"
  by (simp add: take_bit_eq_mod mod_less word_mod_less_divisor word_arith_nat_mod word_less_nat_alt)

section \<open>Outcomes\<close>

text \<open>
  What a call of the source ends with: \<open>Ok\<close> and \<open>Err\<close> of \<open>Result\<close>, a panic
  (failed assertion, \<open>unwrap\<close> of \<open>None\<close>, index out of range, \<open>unreachable!\<close>),
  or undefined behaviour (an \<open>unsafe\<close> dereference of a pointer to no object).
\<close>

datatype ('a, 'e) outcome = Ok 'a | Err 'e | Panic | Undefined

text \<open>The \<open>?\<close> operator: continue with the value of an \<open>Ok\<close>, return anything else.\<close>

fun and_then :: "('a, 'e) outcome \<Rightarrow> ('a \<Rightarrow> ('b, 'e) outcome) \<Rightarrow> ('b, 'e) outcome" where
  "and_then (Ok x) f = f x"
| "and_then (Err e) f = Err e"
| "and_then Panic f = Panic"
| "and_then Undefined f = Undefined"

fun is_ok :: "('a, 'e) outcome \<Rightarrow> bool" where
  "is_ok (Ok x) = True"
| "is_ok _ = False"

fun is_err :: "('a, 'e) outcome \<Rightarrow> bool" where
  "is_err (Err e) = True"
| "is_err _ = False"

text \<open>The call returns to its caller, with a value or with an error.\<close>

fun returns :: "('a, 'e) outcome \<Rightarrow> bool" where
  "returns (Ok x) = True"
| "returns (Err e) = True"
| "returns _ = False"

text \<open>\<open>Option::ok_or\<close>, \<open>Option::unwrap\<close> and \<open>Result::unwrap\<close>.\<close>

fun ok_or :: "'e \<Rightarrow> 'a option \<Rightarrow> ('a, 'e) outcome" where
  "ok_or e None = Err e"
| "ok_or e (Some x) = Ok x"

fun unwrap :: "'a option \<Rightarrow> ('a, 'e) outcome" where
  "unwrap None = Panic"
| "unwrap (Some x) = Ok x"

fun unwrap_ok :: "('a, 'e) outcome \<Rightarrow> ('a, 'e) outcome" where
  "unwrap_ok (Err e) = Panic"
| "unwrap_ok r = r"

definition ensure :: "bool \<Rightarrow> 'e \<Rightarrow> (unit, 'e) outcome" where
  "ensure b e = (if b then Ok () else Err e)"

text \<open>\<open>assert!\<close>\<close>

definition assert_that :: "bool \<Rightarrow> (unit, 'e) outcome" where
  "assert_that b = (if b then Ok () else Panic)"

lemma and_then_Ok_iff [outcome_simps]:
  "and_then r f = Ok y \<longleftrightarrow> (\<exists>x. r = Ok x \<and> f x = Ok y)"
  by (cases r) auto

lemma and_then_assoc [outcome_simps]:
  "and_then (and_then r f) g = and_then r (\<lambda>x. and_then (f x) g)"
  by (cases r) auto

lemma and_then_cong [fundef_cong]:
  "r = r' \<Longrightarrow> (\<And>x. r' = Ok x \<Longrightarrow> f x = g x) \<Longrightarrow> and_then r f = and_then r' g"
  by (cases r') auto

lemma returns_and_then [outcome_simps]:
  "returns (and_then r f) \<longleftrightarrow> is_err r \<or> (\<exists>x. r = Ok x \<and> returns (f x))"
  by (cases r) auto

lemma ensure_eq [outcome_simps]:
  "ensure b e = Ok u \<longleftrightarrow> b" "ensure b e = Err e' \<longleftrightarrow> \<not> b \<and> e' = e"
  "ensure b e \<noteq> Panic" "ensure b e \<noteq> Undefined"
  by (auto simp: ensure_def)

lemma assert_that_eq [outcome_simps]:
  "assert_that b = Ok u \<longleftrightarrow> b" "assert_that b = Panic \<longleftrightarrow> \<not> b"
  "assert_that b \<noteq> Err e" "assert_that b \<noteq> Undefined"
  by (auto simp: assert_that_def)

lemma ensure_simps [simp]: "ensure True e = Ok ()" "ensure False e = Err e"
  by (simp_all add: ensure_def)

lemma assert_that_simps [simp]: "assert_that True = Ok ()" "assert_that False = Panic"
  by (simp_all add: assert_that_def)

lemma returns_cases: "returns r \<Longrightarrow> (\<And>x. r = Ok x \<Longrightarrow> P) \<Longrightarrow> (\<And>e. r = Err e \<Longrightarrow> P) \<Longrightarrow> P"
  by (cases r) auto

section \<open>Operations on a state\<close>

text \<open>
  A method that takes \<open>&mut self\<close>: it ends with an outcome and leaves a state, also
  when the outcome is an error. \<open>bind_state\<close> is the \<open>?\<close> operator between two of them.
\<close>

type_synonym ('s, 'a, 'e) action = "'s \<Rightarrow> ('a, 'e) outcome \<times> 's"

definition return_state :: "'a \<Rightarrow> ('s, 'a, 'e) action" where
  "return_state x s = (Ok x, s)"

definition lift_state :: "('a, 'e) outcome \<Rightarrow> ('s, 'a, 'e) action" where
  "lift_state r s = (r, s)"

definition bind_state ::
  "('s, 'a, 'e) action \<Rightarrow> ('a \<Rightarrow> ('s, 'b, 'e) action) \<Rightarrow> ('s, 'b, 'e) action" where
  "bind_state f g s =
    (case f s of
       (Ok x, s') \<Rightarrow> g x s'
     | (Err e, s') \<Rightarrow> (Err e, s')
     | (Panic, s') \<Rightarrow> (Panic, s')
     | (Undefined, s') \<Rightarrow> (Undefined, s'))"

lemma bind_state_Ok: "f s = (Ok x, s') \<Longrightarrow> bind_state f g s = g x s'"
  by (simp add: bind_state_def)

lemma bind_state_return [outcome_simps]: "bind_state (return_state x) g = g x"
  by (simp add: bind_state_def return_state_def fun_eq_iff)

lemma bind_lift:
  "bind_state (lift_state r) g s =
    (case r of Ok x \<Rightarrow> g x s | Err e \<Rightarrow> (Err e, s) | Panic \<Rightarrow> (Panic, s) | Undefined \<Rightarrow> (Undefined, s))"
  by (simp add: bind_state_def lift_state_def split: outcome.split)

lemma bind_state_Ok_iff:
  "bind_state f g s = (Ok y, t) \<longleftrightarrow> (\<exists>x s'. f s = (Ok x, s') \<and> g x s' = (Ok y, t))"
  by (auto simp: bind_state_def split: prod.splits outcome.splits)

lemma bind_state_cases:
  assumes "bind_state f g s = (r, t)"
  obtains (step) x s' where "f s = (Ok x, s')" "g x s' = (r, t)"
  | (error) e where "f s = (Err e, t)" "r = Err e"
  | (panic) "f s = (Panic, t)" "r = Panic"
  | (undefined) "f s = (Undefined, t)" "r = Undefined"
  using assms by (auto simp: bind_state_def split: prod.splits outcome.splits)

lemma bind_state_cong [fundef_cong]:
  "f s = f' s' \<Longrightarrow> (\<And>x t. f' s' = (Ok x, t) \<Longrightarrow> g x t = g' x t) \<Longrightarrow>
    bind_state f g s = bind_state f' g' s'"
  by (auto simp: bind_state_def split: prod.splits outcome.splits)

text \<open>An invariant that both halves of a sequence keep is kept by the sequence.\<close>

lemma bind_state_invariant:
  assumes "I s" "\<And>s. I s \<Longrightarrow> I (snd (f s))" "\<And>x s. I s \<Longrightarrow> I (snd (g x s))"
  shows "I (snd (bind_state f g s))"
  using assms(1) assms(2) [of s] assms(3)
  by (cases "f s") (auto simp: bind_state_def split: outcome.splits)

text \<open>\<open>for x in xs { f(x)?; }\<close>\<close>

fun for_each :: "('x \<Rightarrow> ('s, unit, 'e) action) \<Rightarrow> 'x list \<Rightarrow> ('s, unit, 'e) action" where
  "for_each f [] = return_state ()"
| "for_each f (x # xs) = bind_state (f x) (\<lambda>_. for_each f xs)"

lemma for_each_invariant:
  assumes "I s" "\<And>x s. x \<in> set xs \<Longrightarrow> I s \<Longrightarrow> I (snd (f x s))"
  shows "I (snd (for_each f xs s))"
  using assms
proof (induction xs arbitrary: s)
  case (Cons x xs)
  then have "I (snd (f x s))" by simp
  then show ?case
    using Cons by (cases "f x s") (auto simp: bind_state_def split: outcome.splits)
qed (simp add: return_state_def)

text \<open>
  A method that returns, with a value or an error, from every state of an invariant
  and keeps the invariant.
\<close>

definition safe :: "('s \<Rightarrow> bool) \<Rightarrow> ('s, 'a, 'e) action \<Rightarrow> bool" where
  "safe I f \<longleftrightarrow> (\<forall>s. I s \<longrightarrow> returns (fst (f s)) \<and> I (snd (f s)))"

lemma safeD: "safe I f \<Longrightarrow> I s \<Longrightarrow> returns (fst (f s)) \<and> I (snd (f s))"
  by (simp add: safe_def)

lemma safe_return [safe_intros]: "safe I (return_state x)"
  by (simp add: safe_def return_state_def)

lemma safe_lift [safe_intros]: "returns r \<Longrightarrow> safe I (lift_state r)"
  by (simp add: safe_def lift_state_def)

lemma safe_bind [safe_intros]: "safe I f \<Longrightarrow> (\<And>x. safe I (g x)) \<Longrightarrow> safe I (bind_state f g)"
  by (fastforce simp: safe_def bind_state_def split: prod.split outcome.split)

lemma safe_if [safe_intros]: "(b \<Longrightarrow> safe I f) \<Longrightarrow> (\<not> b \<Longrightarrow> safe I g) \<Longrightarrow> safe I (if b then f else g)"
  by simp

lemma safe_for_each [safe_intros]: "(\<And>x. x \<in> set xs \<Longrightarrow> safe I (f x)) \<Longrightarrow> safe I (for_each f xs)"
proof (induction xs)
  case (Cons x xs)
  then show ?case by (auto intro!: safe_bind)
qed (simp add: safe_return)

text \<open>A method of one component of a pair.\<close>

definition on_fst :: "('s, 'a, 'e) action \<Rightarrow> ('s \<times> 't, 'a, 'e) action" where
  "on_fst f p = (case f (fst p) of (r, s) \<Rightarrow> (r, (s, snd p)))"

definition on_snd :: "('t, 'a, 'e) action \<Rightarrow> ('s \<times> 't, 'a, 'e) action" where
  "on_snd f p = (case f (snd p) of (r, t) \<Rightarrow> (r, (fst p, t)))"

lemma on_fst_eq [simp]: "fst (on_fst f p) = fst (f (fst p))" "snd (on_fst f p) = (snd (f (fst p)), snd p)"
  by (simp_all add: on_fst_def split: prod.split)

lemma on_snd_eq [simp]: "fst (on_snd f p) = fst (f (snd p))" "snd (on_snd f p) = (fst p, snd (f (snd p)))"
  by (simp_all add: on_snd_def split: prod.split)

section \<open>Increasing lists\<close>

fun increasing :: "'a::linorder list \<Rightarrow> bool" where
  "increasing (x # y # xs) \<longleftrightarrow> x < y \<and> increasing (y # xs)"
| "increasing _ \<longleftrightarrow> True"

lemma increasing_sorted_wrt: "increasing xs \<longleftrightarrow> sorted_wrt (<) xs"
  by (induction xs rule: increasing.induct) (auto dest: less_trans)

lemma increasing_distinct: "increasing xs \<Longrightarrow> distinct xs"
  by (simp add: increasing_sorted_wrt strict_sorted_iff)

section \<open>Integers as bytes\<close>

text \<open>
  \<open>to_le_bytes\<close>, \<open>to_be_bytes\<close> and their inverses, for the \<open>n\<close> low bytes of a
  word of any width.
\<close>

fun le_bytes :: "nat \<Rightarrow> 'a::len word \<Rightarrow> u8 list" where
  "le_bytes 0 w = []"
| "le_bytes (Suc n) w = ucast w # le_bytes n (drop_bit 8 w)"

definition be_bytes :: "nat \<Rightarrow> 'a::len word \<Rightarrow> u8 list" where
  "be_bytes n w = rev (le_bytes n w)"

fun from_le_bytes :: "u8 list \<Rightarrow> 'a::len word" where
  "from_le_bytes [] = 0"
| "from_le_bytes (b # bs) = ucast b OR push_bit 8 (from_le_bytes bs)"

definition from_be_bytes :: "u8 list \<Rightarrow> 'a::len word" where
  "from_be_bytes bs = from_le_bytes (rev bs)"

lemma length_le_bytes [simp, byte_simps]: "length (le_bytes n w) = n"
  by (induction n w rule: le_bytes.induct) auto

lemma length_be_bytes [simp, byte_simps]: "length (be_bytes n w) = n"
  by (simp add: be_bytes_def)

lemma from_le_bytes_le_bytes [byte_simps]:
  fixes w :: "'a::len word"
  shows "from_le_bytes (le_bytes n w) = take_bit (8 * n) w"
proof (induction n arbitrary: w)
  case (Suc n)
  have "ucast (ucast w :: u8) OR push_bit 8 (take_bit (8 * n) (drop_bit 8 w)) = take_bit (8 * Suc n) w"
    by (rule bit_word_eqI) (auto simp: bit_simps)
  then show ?case by (simp add: Suc)
qed simp

lemma from_be_bytes_be_bytes [byte_simps]:
  "from_be_bytes (be_bytes n w) = take_bit (8 * n) w"
  by (simp add: from_be_bytes_def be_bytes_def byte_simps)

lemma drop_bit_from_le_bytes_Cons:
  fixes b :: u8
  assumes "8 * Suc (length bs) \<le> LENGTH('a::len)"
    and "from_le_bytes bs = (take_bit (8 * length bs) (from_le_bytes bs) :: 'a word)"
  shows "drop_bit 8 (from_le_bytes (b # bs) :: 'a word) = from_le_bytes bs"
    and "ucast (from_le_bytes (b # bs) :: 'a word) = b"
proof -
  have bnd: "bit (from_le_bytes bs :: 'a word) n \<Longrightarrow> n < 8 * length bs" for n
    by (subst (asm) assms(2)) (simp add: bit_simps)
  show "drop_bit 8 (from_le_bytes (b # bs) :: 'a word) = from_le_bytes bs"
    using assms(1) by (intro bit_word_eqI) (auto simp: bit_simps dest: bnd bit_imp_le_length)
  show "ucast (from_le_bytes (b # bs) :: 'a word) = b"
    using assms(1) by (intro bit_word_eqI) (auto simp: bit_simps)
qed

lemma from_le_bytes_bound:
  assumes "8 * length bs \<le> LENGTH('a::len)"
  shows "take_bit (8 * length bs) (from_le_bytes bs) = (from_le_bytes bs :: 'a word)"
  using assms
proof (induction bs)
  case (Cons b bs)
  have ih: "take_bit (8 * length bs) (from_le_bytes bs) = (from_le_bytes bs :: 'a word)"
    using Cons by simp
  then have bnd: "bit (from_le_bytes bs :: 'a word) n \<Longrightarrow> n < 8 * length bs" for n
    by (metis bit_take_bit_iff)
  show ?case
    using Cons.prems by (intro bit_word_eqI) (auto simp: bit_simps dest: bnd bit_imp_le_length)
qed simp

lemma le_bytes_from_le_bytes:
  assumes "8 * length bs \<le> LENGTH('a::len)"
  shows "le_bytes (length bs) (from_le_bytes bs :: 'a word) = bs"
  using assms
proof (induction bs)
  case (Cons b bs)
  then have "le_bytes (length bs) (from_le_bytes bs :: 'a word) = bs" by simp
  moreover have "take_bit (8 * length bs) (from_le_bytes bs) = (from_le_bytes bs :: 'a word)"
    using Cons.prems by (intro from_le_bytes_bound) simp
  ultimately show ?case
    using drop_bit_from_le_bytes_Cons [of bs, where ?'a = 'a and b = b] Cons.prems
    by (simp del: from_le_bytes.simps)
qed simp

lemma be_bytes_from_be_bytes:
  assumes "8 * length bs \<le> LENGTH('a::len)"
  shows "be_bytes (length bs) (from_be_bytes bs :: 'a word) = bs"
  using le_bytes_from_le_bytes [of "rev bs", where ?'a = 'a] assms
  by (simp add: be_bytes_def from_be_bytes_def)

section \<open>Slices and bounded vectors\<close>

text \<open>\<open>&xs[i..j]\<close> and \<open>&xs[i..]\<close>, which panic out of range.\<close>

definition slice :: "nat \<Rightarrow> nat \<Rightarrow> 'a list \<Rightarrow> 'a list" where
  "slice i j xs = take (j - i) (drop i xs)"

definition slice_range :: "'a list \<Rightarrow> nat \<Rightarrow> nat \<Rightarrow> ('a list, 'e) outcome" where
  "slice_range xs i j = (if i \<le> j \<and> j \<le> length xs then Ok (slice i j xs) else Panic)"

definition slice_from :: "'a list \<Rightarrow> nat \<Rightarrow> ('a list, 'e) outcome" where
  "slice_from xs i = (if i \<le> length xs then Ok (drop i xs) else Panic)"

text \<open>\<open>xs[i]\<close> and \<open>xs[i] = v\<close>.\<close>

definition index_at :: "'a list \<Rightarrow> nat \<Rightarrow> ('a, 'e) outcome" where
  "index_at xs i = (if i < length xs then Ok (xs ! i) else Panic)"

definition store_at :: "'a list \<Rightarrow> nat \<Rightarrow> 'a \<Rightarrow> ('a list, 'e) outcome" where
  "store_at xs i v = (if i < length xs then Ok (xs[i := v]) else Panic)"

text \<open>\<open>xs[i..i + ys.len()].copy_from_slice(ys)\<close>.\<close>

definition splice :: "nat \<Rightarrow> 'a list \<Rightarrow> 'a list \<Rightarrow> 'a list" where
  "splice i ys xs = take i xs @ ys @ drop (i + length ys) xs"

definition copy_into :: "'a list \<Rightarrow> nat \<Rightarrow> 'a list \<Rightarrow> ('a list, 'e) outcome" where
  "copy_into xs i ys = (if i + length ys \<le> length xs then Ok (splice i ys xs) else Panic)"

text \<open>\<open>dst.copy_from_slice(src)\<close>, which panics unless the lengths agree.\<close>

definition copy_from_slice :: "'a list \<Rightarrow> 'a list \<Rightarrow> ('a list, 'e) outcome" where
  "copy_from_slice dst src = (if length dst = length src then Ok src else Panic)"

text \<open>\<open>ArrayVec::push\<close>, which panics when the vector is at its capacity.\<close>

definition array_push :: "nat \<Rightarrow> 'a list \<Rightarrow> 'a \<Rightarrow> ('a list, 'e) outcome" where
  "array_push cap xs x = (if length xs < cap then Ok (xs @ [x]) else Panic)"

lemma length_slice [simp, slice_simps]:
  "i \<le> j \<Longrightarrow> j \<le> length xs \<Longrightarrow> length (slice i j xs) = j - i"
  by (simp add: slice_def)

lemma length_splice [simp, slice_simps]:
  "i + length ys \<le> length xs \<Longrightarrow> length (splice i ys xs) = length xs"
  by (simp add: splice_def)

lemma slice_splice_same [simp, slice_simps]:
  "i + length ys \<le> length xs \<Longrightarrow> slice i (i + length ys) (splice i ys xs) = ys"
  by (simp add: slice_def splice_def)

lemma nth_splice:
  assumes "i + length ys \<le> length xs" "k < length xs"
  shows "splice i ys xs ! k = (if i \<le> k \<and> k < i + length ys then ys ! (k - i) else xs ! k)"
  using assms by (auto simp: splice_def nth_append)

lemma slice_splice_disjoint [slice_simps]:
  assumes "i + length ys \<le> length xs" "b \<le> length xs" "a \<le> b" "b \<le> i \<or> i + length ys \<le> a"
  shows "slice a b (splice i ys xs) = slice a b xs"
  using assms by (intro nth_equalityI) (auto simp: slice_def nth_splice)

lemma index_at_Ok [outcome_simps]: "index_at xs i = Ok x \<longleftrightarrow> i < length xs \<and> x = xs ! i"
  by (auto simp: index_at_def)

lemma array_push_Ok [outcome_simps]:
  "array_push cap xs x = Ok ys \<longleftrightarrow> length xs < cap \<and> ys = xs @ [x]"
  by (auto simp: array_push_def)

end
