(* ===== verification/Errors.thy ===== *)
theory Errors
  imports Prelude
begin

text \<open>
  The crate's error type and the conversion of a number to an enumeration
  (\<open>src/mythril/src/error.rs\<close>). The message of an error is only ever printed,
  so the constructors of \<open>Error\<close> drop it.
\<close>

section \<open>Enumerations read from a number\<close>

text \<open>
  \<open>TryFromPrimitive\<close>: the variant with the given discriminant, or an error. The
  variants are listed and \<open>disc\<close> is the cast of a variant to its representation.
\<close>

definition try_from_primitive :: "'v list \<Rightarrow> ('v \<Rightarrow> 'n) \<Rightarrow> 'n \<Rightarrow> 'v option" where
  "try_from_primitive variants disc n = List.find (\<lambda>v. disc v = n) variants"

locale primitive_enum =
  fixes variants :: "'v list" and disc :: "'v \<Rightarrow> 'n"
  assumes all_variants: "v \<in> set variants"
    and discs_distinct: "distinct (map disc variants)"
begin

lemma disc_inj: "disc v = disc w \<Longrightarrow> v = w"
  using all_variants discs_distinct by (metis distinct_map inj_onD)

lemma try_from_disc: "try_from_primitive variants disc (disc v) = Some v"
proof -
  obtain w where "List.find (\<lambda>u. disc u = disc v) variants = Some w"
    using all_variants [of v] by (cases "List.find (\<lambda>u. disc u = disc v) variants") (auto simp: find_None_iff)
  then show ?thesis
    using disc_inj by (auto simp: try_from_primitive_def find_Some_iff)
qed

lemma try_from_Some_iff: "try_from_primitive variants disc n = Some v \<longleftrightarrow> n = disc v"
  using try_from_disc by (auto simp: try_from_primitive_def find_Some_iff)

lemma try_from_None_iff: "try_from_primitive variants disc n = None \<longleftrightarrow> n \<notin> range disc"
  using all_variants by (auto simp: try_from_primitive_def find_None_iff)

end

section \<open>Errors\<close>

datatype VmInstructionError =
    UnknownError
  | VmCallInRoot
  | VmClearInvalidAddress
  | VmClearWithVmxOnPtr
  | VmLaunchNonClear
  | VmResumeNonLaunched
  | VmResumeAfterVmxOff
  | VmEntryWithInvalidCtrlFields
  | VmEntryWithInvalidHostFields
  | VmPtrLdWithInvalidPhysAddr
  | VmPtrLdWithVmxOnPtr
  | VmPtrLdWithWrongVmcsRevision
  | VmReadWriteToUnsupportedField
  | VmWriteToReadOnly
  | VmxOnInRootMode
  | VmEntryWithInvalidExecVmcsPtr
  | VmEntryWithNonLaunchExecVmcs
  | VmEntryWithExecVmcsPtr
  | VmCallWithNonClearVmcs
  | VmCallWithInvalidVmExitFields
  | VmCallWithIncorrectMsegRev
  | VmxOffUnderDualMonitor
  | VmCallWithInvalidSmmFeatures
  | VmEntryWithInvalidVmExecFields
  | VmEntryWithEventsBlockedMovSs
  | InvalidOperandToInveptInvvpid

primrec vm_instruction_error_code :: "VmInstructionError \<Rightarrow> u64" where
  "vm_instruction_error_code UnknownError = 0"
| "vm_instruction_error_code VmCallInRoot = 1"
| "vm_instruction_error_code VmClearInvalidAddress = 2"
| "vm_instruction_error_code VmClearWithVmxOnPtr = 3"
| "vm_instruction_error_code VmLaunchNonClear = 4"
| "vm_instruction_error_code VmResumeNonLaunched = 5"
| "vm_instruction_error_code VmResumeAfterVmxOff = 6"
| "vm_instruction_error_code VmEntryWithInvalidCtrlFields = 7"
| "vm_instruction_error_code VmEntryWithInvalidHostFields = 8"
| "vm_instruction_error_code VmPtrLdWithInvalidPhysAddr = 9"
| "vm_instruction_error_code VmPtrLdWithVmxOnPtr = 10"
| "vm_instruction_error_code VmPtrLdWithWrongVmcsRevision = 11"
| "vm_instruction_error_code VmReadWriteToUnsupportedField = 12"
| "vm_instruction_error_code VmWriteToReadOnly = 13"
| "vm_instruction_error_code VmxOnInRootMode = 15"
| "vm_instruction_error_code VmEntryWithInvalidExecVmcsPtr = 16"
| "vm_instruction_error_code VmEntryWithNonLaunchExecVmcs = 17"
| "vm_instruction_error_code VmEntryWithExecVmcsPtr = 18"
| "vm_instruction_error_code VmCallWithNonClearVmcs = 19"
| "vm_instruction_error_code VmCallWithInvalidVmExitFields = 20"
| "vm_instruction_error_code VmCallWithIncorrectMsegRev = 22"
| "vm_instruction_error_code VmxOffUnderDualMonitor = 23"
| "vm_instruction_error_code VmCallWithInvalidSmmFeatures = 24"
| "vm_instruction_error_code VmEntryWithInvalidVmExecFields = 25"
| "vm_instruction_error_code VmEntryWithEventsBlockedMovSs = 26"
| "vm_instruction_error_code InvalidOperandToInveptInvvpid = 28"

definition vm_instruction_errors :: "VmInstructionError list" where
  "vm_instruction_errors =
    [UnknownError, VmCallInRoot, VmClearInvalidAddress, VmClearWithVmxOnPtr, VmLaunchNonClear,
     VmResumeNonLaunched, VmResumeAfterVmxOff, VmEntryWithInvalidCtrlFields,
     VmEntryWithInvalidHostFields, VmPtrLdWithInvalidPhysAddr, VmPtrLdWithVmxOnPtr,
     VmPtrLdWithWrongVmcsRevision, VmReadWriteToUnsupportedField, VmWriteToReadOnly,
     VmxOnInRootMode, VmEntryWithInvalidExecVmcsPtr, VmEntryWithNonLaunchExecVmcs,
     VmEntryWithExecVmcsPtr, VmCallWithNonClearVmcs, VmCallWithInvalidVmExitFields,
     VmCallWithIncorrectMsegRev, VmxOffUnderDualMonitor, VmCallWithInvalidSmmFeatures,
     VmEntryWithInvalidVmExecFields, VmEntryWithEventsBlockedMovSs,
     InvalidOperandToInveptInvvpid]"

datatype Error =
    VmcsError
  | VmFailInvalid
  | VmFailValid VmInstructionError
  | DuplicateMapping
  | AllocError
  | MissingDevice
  | MissingFile
  | NullPtr
  | NotSupported
  | NotFound
  | Exists
  | Exhausted
  | Uefi
  | InvalidValue
  | InvalidDevice
  | NotImplemented
  | DeviceError

type_synonym 'a res = "('a, Error) outcome"

text \<open>
  \<open>check_vm_insruction\<close>: the carry flag reports a failure without a current VMCS,
  the zero flag one whose number is in the VMCS. \<open>errno\<close> is what \<open>vmread\<close> of the
  \<open>VmInstructionError\<close> field gives.
\<close>

definition check_vm_insruction :: "u64 \<Rightarrow> u64 \<Rightarrow> unit res" where
  "check_vm_insruction rflags errno =
    (if bit rflags 0 then Err VmFailInvalid
     else if bit rflags 6 then
       Err (VmFailValid
         (case try_from_primitive vm_instruction_errors vm_instruction_error_code errno of
            Some e \<Rightarrow> e
          | None \<Rightarrow> UnknownError))
     else Ok ())"

text \<open>\<open>num_enum\<close>'s error and \<open>TryFromIntError\<close> become \<open>InvalidValue\<close>.\<close>

definition enum_from :: "'v list \<Rightarrow> ('v \<Rightarrow> 'n) \<Rightarrow> 'n \<Rightarrow> 'v res" where
  "enum_from variants disc n = ok_or InvalidValue (try_from_primitive variants disc n)"

interpretation vm_error: primitive_enum vm_instruction_errors vm_instruction_error_code
proof
  show "v \<in> set vm_instruction_errors" for v
    by (cases v) (simp_all add: vm_instruction_errors_def)
  show "distinct (map vm_instruction_error_code vm_instruction_errors)"
    by (simp add: vm_instruction_errors_def)
qed

lemma check_vm_insruction_Ok: "check_vm_insruction f n = Ok () \<longleftrightarrow> \<not> bit f 0 \<and> \<not> bit f 6"
  by (simp add: check_vm_insruction_def)

lemma check_vm_insruction_returns [simp]:
  "check_vm_insruction f n \<noteq> Panic" "check_vm_insruction f n \<noteq> Undefined"
  by (simp_all add: check_vm_insruction_def)

lemma check_vm_insruction_errno:
  assumes "\<not> bit f 0" "bit f 6"
  shows "check_vm_insruction f (vm_instruction_error_code e) = Err (VmFailValid e)"
  using assms by (simp add: check_vm_insruction_def vm_error.try_from_disc)

end
