(* ===== verification/Vmcs.thy ===== *)
theory Vmcs
  imports Errors
begin

text \<open>
  The virtual machine control structure (\<open>src/mythril/src/vmcs.rs\<close>): the field
  encodings, the reads and writes of the active VMCS and the write that respects
  the capability MSRs.

  A variant of \<open>VmcsField\<close> is only ever used as its encoding (\<open>field as u64\<close>), so a
  field is its number; the tables below list every variant of the enumeration by
  width, and the fields the hypervisor uses are constants of their own.
\<close>

named_theorems vmcs_fields \<open>encodings of the VMCS fields\<close>

section \<open>Field encodings\<close>

definition vmcs_fields_16bit :: "(string \<times> u64) list" where
  "vmcs_fields_16bit =
    [(''VirtualProcessorId'', 0x0), (''PostedIntrNv'', 0x2), (''GuestEsSelector'', 0x800),
     (''GuestCsSelector'', 0x802), (''GuestSsSelector'', 0x804), (''GuestDsSelector'', 0x806),
     (''GuestFsSelector'', 0x808), (''GuestGsSelector'', 0x80a), (''GuestLdtrSelector'', 0x80c),
     (''GuestTrSelector'', 0x80e), (''GuestIntrStatus'', 0x810), (''GuestPmlIndex'', 0x812),
     (''HostEsSelector'', 0xc00), (''HostCsSelector'', 0xc02), (''HostSsSelector'', 0xc04),
     (''HostDsSelector'', 0xc06), (''HostFsSelector'', 0xc08), (''HostGsSelector'', 0xc0a),
     (''HostTrSelector'', 0xc0c)]"

definition vmcs_fields_64bit :: "(string \<times> u64) list" where
  "vmcs_fields_64bit =
    [(''IoBitmapA'', 0x2000), (''IoBitmapAHigh'', 0x2001), (''IoBitmapB'', 0x2002),
     (''IoBitmapBHigh'', 0x2003), (''MsrBitmap'', 0x2004), (''MsrBitmapHigh'', 0x2005),
     (''VmExitMsrStoreAddr'', 0x2006), (''VmExitMsrStoreAddrHigh'', 0x2007),
     (''VmExitMsrLoadAddr'', 0x2008), (''VmExitMsrLoadAddrHigh'', 0x2009),
     (''VmEntryMsrLoadAddr'', 0x200a), (''VmEntryMsrLoadAddrHigh'', 0x200b),
     (''PmlAddress'', 0x200e), (''PmlAddressHigh'', 0x200f), (''TscOffset'', 0x2010),
     (''TscOffsetHigh'', 0x2011), (''VirtualApicPageAddr'', 0x2012),
     (''VirtualApicPageAddrHigh'', 0x2013), (''ApicAccessAddr'', 0x2014),
     (''ApicAccessAddrHigh'', 0x2015), (''PostedIntrDescAddr'', 0x2016),
     (''PostedIntrDescAddrHigh'', 0x2017), (''EptPointer'', 0x201a), (''EptPointerHigh'', 0x201b),
     (''EoiExitBitmap0'', 0x201c), (''EoiExitBitmap0High'', 0x201d), (''EoiExitBitmap1'', 0x201e),
     (''EoiExitBitmap1High'', 0x201f), (''EoiExitBitmap2'', 0x2020),
     (''EoiExitBitmap2High'', 0x2021), (''EoiExitBitmap3'', 0x2022),
     (''EoiExitBitmap3High'', 0x2023), (''VmreadBitmap'', 0x2026), (''VmreadBitmapHigh'', 0x2027),
     (''VmwriteBitmap'', 0x2028), (''VmwriteBitmapHigh'', 0x2029), (''XssExitBitmap'', 0x202c),
     (''XssExitBitmapHigh'', 0x202d), (''TscMultiplier'', 0x2032), (''TscMultiplierHigh'', 0x2033),
     (''GuestPhysicalAddress'', 0x2400), (''GuestPhysicalAddressHigh'', 0x2401),
     (''VmcsLinkPointer'', 0x2800), (''VmcsLinkPointerHigh'', 0x2801),
     (''GuestIa32Debugctl'', 0x2802), (''GuestIa32DebugctlHigh'', 0x2803),
     (''GuestIa32Pat'', 0x2804), (''GuestIa32PatHigh'', 0x2805), (''GuestIa32Efer'', 0x2806),
     (''GuestIa32EferHigh'', 0x2807), (''GuestIa32PerfGlobalCtrl'', 0x2808),
     (''GuestIa32PerfGlobalCtrlHigh'', 0x2809), (''GuestPdptr0'', 0x280a),
     (''GuestPdptr0High'', 0x280b), (''GuestPdptr1'', 0x280c), (''GuestPdptr1High'', 0x280d),
     (''GuestPdptr2'', 0x280e), (''GuestPdptr2High'', 0x280f), (''GuestPdptr3'', 0x2810),
     (''GuestPdptr3High'', 0x2811), (''GuestBndcfgs'', 0x2812), (''GuestBndcfgsHigh'', 0x2813),
     (''HostIa32Pat'', 0x2c00), (''HostIa32PatHigh'', 0x2c01), (''HostIa32Efer'', 0x2c02),
     (''HostIa32EferHigh'', 0x2c03), (''HostIa32PerfGlobalCtrl'', 0x2c04),
     (''HostIa32PerfGlobalCtrlHigh'', 0x2c05)]"

definition vmcs_fields_32bit :: "(string \<times> u64) list" where
  "vmcs_fields_32bit =
    [(''PinBasedVmExecControl'', 0x4000), (''CpuBasedVmExecControl'', 0x4002),
     (''ExceptionBitmap'', 0x4004), (''PageFaultErrorCodeMask'', 0x4006),
     (''PageFaultErrorCodeMatch'', 0x4008), (''Cr3TargetCount'', 0x400a),
     (''VmExitControls'', 0x400c), (''VmExitMsrStoreCount'', 0x400e),
     (''VmExitMsrLoadCount'', 0x4010), (''VmEntryControls'', 0x4012),
     (''VmEntryMsrLoadCount'', 0x4014), (''VmEntryIntrInfoField'', 0x4016),
     (''VmEntryExceptionErrorCode'', 0x4018), (''VmEntryInstructionLen'', 0x401a),
     (''TprThreshold'', 0x401c), (''SecondaryVmExecControl'', 0x401e), (''PleGap'', 0x4020),
     (''PleWindow'', 0x4022), (''VmInstructionError'', 0x4400), (''VmExitReason'', 0x4402),
     (''VmExitIntrInfo'', 0x4404), (''VmExitIntrErrorCode'', 0x4406),
     (''IdtVectoringInfoField'', 0x4408), (''IdtVectoringErrorCode'', 0x440a),
     (''VmExitInstructionLen'', 0x440c), (''VmxInstructionInfo'', 0x440e),
     (''GuestEsLimit'', 0x4800), (''GuestCsLimit'', 0x4802), (''GuestSsLimit'', 0x4804),
     (''GuestDsLimit'', 0x4806), (''GuestFsLimit'', 0x4808), (''GuestGsLimit'', 0x480a),
     (''GuestLdtrLimit'', 0x480c), (''GuestTrLimit'', 0x480e), (''GuestGdtrLimit'', 0x4810),
     (''GuestIdtrLimit'', 0x4812), (''GuestEsArBytes'', 0x4814), (''GuestCsArBytes'', 0x4816),
     (''GuestSsArBytes'', 0x4818), (''GuestDsArBytes'', 0x481a), (''GuestFsArBytes'', 0x481c),
     (''GuestGsArBytes'', 0x481e), (''GuestLdtrArBytes'', 0x4820), (''GuestTrArBytes'', 0x4822),
     (''GuestInterruptibilityInfo'', 0x4824), (''GuestActivityState'', 0x4826),
     (''GuestSysenterCs'', 0x482a), (''VmxPreemptionTimerValue'', 0x482e),
     (''HostIa32SysenterCs'', 0x4c00)]"

definition vmcs_fields_natural :: "(string \<times> u64) list" where
  "vmcs_fields_natural =
    [(''Cr0GuestHostMask'', 0x6000), (''Cr4GuestHostMask'', 0x6002), (''Cr0ReadShadow'', 0x6004),
     (''Cr4ReadShadow'', 0x6006), (''Cr3TargetValue0'', 0x6008), (''Cr3TargetValue1'', 0x600a),
     (''Cr3TargetValue2'', 0x600c), (''Cr3TargetValue3'', 0x600e), (''ExitQualification'', 0x6400),
     (''GuestLinearAddress'', 0x640a), (''GuestCr0'', 0x6800), (''GuestCr3'', 0x6802),
     (''GuestCr4'', 0x6804), (''GuestEsBase'', 0x6806), (''GuestCsBase'', 0x6808),
     (''GuestSsBase'', 0x680a), (''GuestDsBase'', 0x680c), (''GuestFsBase'', 0x680e),
     (''GuestGsBase'', 0x6810), (''GuestLdtrBase'', 0x6812), (''GuestTrBase'', 0x6814),
     (''GuestGdtrBase'', 0x6816), (''GuestIdtrBase'', 0x6818), (''GuestDr7'', 0x681a),
     (''GuestRsp'', 0x681c), (''GuestRip'', 0x681e), (''GuestRflags'', 0x6820),
     (''GuestPendingDbgExceptions'', 0x6822), (''GuestSysenterEsp'', 0x6824),
     (''GuestSysenterEip'', 0x6826), (''HostCr0'', 0x6c00), (''HostCr3'', 0x6c02),
     (''HostCr4'', 0x6c04), (''HostFsBase'', 0x6c06), (''HostGsBase'', 0x6c08),
     (''HostTrBase'', 0x6c0a), (''HostGdtrBase'', 0x6c0c), (''HostIdtrBase'', 0x6c0e),
     (''HostIa32SysenterEsp'', 0x6c10), (''HostIa32SysenterEip'', 0x6c12), (''HostRsp'', 0x6c14),
     (''HostRip'', 0x6c16)]"

definition vmcs_field_table :: "(string \<times> u64) list" where
  "vmcs_field_table =
    vmcs_fields_16bit @ vmcs_fields_64bit @ vmcs_fields_32bit @ vmcs_fields_natural"

definition VirtualProcessorId :: u64 where [vmcs_fields]: "VirtualProcessorId = 0x0"
definition GuestEsSelector :: u64 where [vmcs_fields]: "GuestEsSelector = 0x800"
definition GuestCsSelector :: u64 where [vmcs_fields]: "GuestCsSelector = 0x802"
definition GuestSsSelector :: u64 where [vmcs_fields]: "GuestSsSelector = 0x804"
definition GuestDsSelector :: u64 where [vmcs_fields]: "GuestDsSelector = 0x806"
definition GuestFsSelector :: u64 where [vmcs_fields]: "GuestFsSelector = 0x808"
definition GuestGsSelector :: u64 where [vmcs_fields]: "GuestGsSelector = 0x80a"
definition GuestLdtrSelector :: u64 where [vmcs_fields]: "GuestLdtrSelector = 0x80c"
definition GuestTrSelector :: u64 where [vmcs_fields]: "GuestTrSelector = 0x80e"
definition HostEsSelector :: u64 where [vmcs_fields]: "HostEsSelector = 0xc00"
definition HostCsSelector :: u64 where [vmcs_fields]: "HostCsSelector = 0xc02"
definition HostSsSelector :: u64 where [vmcs_fields]: "HostSsSelector = 0xc04"
definition HostDsSelector :: u64 where [vmcs_fields]: "HostDsSelector = 0xc06"
definition HostFsSelector :: u64 where [vmcs_fields]: "HostFsSelector = 0xc08"
definition HostGsSelector :: u64 where [vmcs_fields]: "HostGsSelector = 0xc0a"
definition HostTrSelector :: u64 where [vmcs_fields]: "HostTrSelector = 0xc0c"
definition MsrBitmap :: u64 where [vmcs_fields]: "MsrBitmap = 0x2004"
definition ApicAccessAddr :: u64 where [vmcs_fields]: "ApicAccessAddr = 0x2014"
definition EptPointer :: u64 where [vmcs_fields]: "EptPointer = 0x201a"
definition GuestPhysicalAddress :: u64 where [vmcs_fields]: "GuestPhysicalAddress = 0x2400"
definition VmcsLinkPointer :: u64 where [vmcs_fields]: "VmcsLinkPointer = 0x2800"
definition VmcsLinkPointerHigh :: u64 where [vmcs_fields]: "VmcsLinkPointerHigh = 0x2801"
definition GuestIa32Efer :: u64 where [vmcs_fields]: "GuestIa32Efer = 0x2806"
definition HostIa32Efer :: u64 where [vmcs_fields]: "HostIa32Efer = 0x2c02"
definition PinBasedVmExecControl :: u64 where [vmcs_fields]: "PinBasedVmExecControl = 0x4000"
definition CpuBasedVmExecControl :: u64 where [vmcs_fields]: "CpuBasedVmExecControl = 0x4002"
definition ExceptionBitmap :: u64 where [vmcs_fields]: "ExceptionBitmap = 0x4004"
definition Cr3TargetCount :: u64 where [vmcs_fields]: "Cr3TargetCount = 0x400a"
definition VmExitControls :: u64 where [vmcs_fields]: "VmExitControls = 0x400c"
definition VmEntryControls :: u64 where [vmcs_fields]: "VmEntryControls = 0x4012"
definition VmEntryIntrInfoField :: u64 where [vmcs_fields]: "VmEntryIntrInfoField = 0x4016"
definition TprThreshold :: u64 where [vmcs_fields]: "TprThreshold = 0x401c"
definition SecondaryVmExecControl :: u64 where [vmcs_fields]: "SecondaryVmExecControl = 0x401e"
definition VmInstructionErrorField :: u64 where [vmcs_fields]: "VmInstructionErrorField = 0x4400"
definition VmExitReason :: u64 where [vmcs_fields]: "VmExitReason = 0x4402"
definition VmExitIntrInfo :: u64 where [vmcs_fields]: "VmExitIntrInfo = 0x4404"
definition VmExitIntrErrorCode :: u64 where [vmcs_fields]: "VmExitIntrErrorCode = 0x4406"
definition VmExitInstructionLen :: u64 where [vmcs_fields]: "VmExitInstructionLen = 0x440c"
definition GuestEsLimit :: u64 where [vmcs_fields]: "GuestEsLimit = 0x4800"
definition GuestCsLimit :: u64 where [vmcs_fields]: "GuestCsLimit = 0x4802"
definition GuestSsLimit :: u64 where [vmcs_fields]: "GuestSsLimit = 0x4804"
definition GuestDsLimit :: u64 where [vmcs_fields]: "GuestDsLimit = 0x4806"
definition GuestFsLimit :: u64 where [vmcs_fields]: "GuestFsLimit = 0x4808"
definition GuestGsLimit :: u64 where [vmcs_fields]: "GuestGsLimit = 0x480a"
definition GuestLdtrLimit :: u64 where [vmcs_fields]: "GuestLdtrLimit = 0x480c"
definition GuestTrLimit :: u64 where [vmcs_fields]: "GuestTrLimit = 0x480e"
definition GuestGdtrLimit :: u64 where [vmcs_fields]: "GuestGdtrLimit = 0x4810"
definition GuestIdtrLimit :: u64 where [vmcs_fields]: "GuestIdtrLimit = 0x4812"
definition GuestEsArBytes :: u64 where [vmcs_fields]: "GuestEsArBytes = 0x4814"
definition GuestCsArBytes :: u64 where [vmcs_fields]: "GuestCsArBytes = 0x4816"
definition GuestSsArBytes :: u64 where [vmcs_fields]: "GuestSsArBytes = 0x4818"
definition GuestDsArBytes :: u64 where [vmcs_fields]: "GuestDsArBytes = 0x481a"
definition GuestFsArBytes :: u64 where [vmcs_fields]: "GuestFsArBytes = 0x481c"
definition GuestGsArBytes :: u64 where [vmcs_fields]: "GuestGsArBytes = 0x481e"
definition GuestLdtrArBytes :: u64 where [vmcs_fields]: "GuestLdtrArBytes = 0x4820"
definition GuestTrArBytes :: u64 where [vmcs_fields]: "GuestTrArBytes = 0x4822"
definition GuestInterruptibilityInfo :: u64 where [vmcs_fields]: "GuestInterruptibilityInfo = 0x4824"
definition GuestActivityState :: u64 where [vmcs_fields]: "GuestActivityState = 0x4826"
definition HostIa32SysenterCs :: u64 where [vmcs_fields]: "HostIa32SysenterCs = 0x4c00"
definition Cr0GuestHostMask :: u64 where [vmcs_fields]: "Cr0GuestHostMask = 0x6000"
definition Cr4GuestHostMask :: u64 where [vmcs_fields]: "Cr4GuestHostMask = 0x6002"
definition Cr0ReadShadow :: u64 where [vmcs_fields]: "Cr0ReadShadow = 0x6004"
definition Cr4ReadShadow :: u64 where [vmcs_fields]: "Cr4ReadShadow = 0x6006"
definition ExitQualification :: u64 where [vmcs_fields]: "ExitQualification = 0x6400"
definition GuestLinearAddress :: u64 where [vmcs_fields]: "GuestLinearAddress = 0x640a"
definition GuestCr0 :: u64 where [vmcs_fields]: "GuestCr0 = 0x6800"
definition GuestCr3 :: u64 where [vmcs_fields]: "GuestCr3 = 0x6802"
definition GuestCr4 :: u64 where [vmcs_fields]: "GuestCr4 = 0x6804"
definition GuestEsBase :: u64 where [vmcs_fields]: "GuestEsBase = 0x6806"
definition GuestCsBase :: u64 where [vmcs_fields]: "GuestCsBase = 0x6808"
definition GuestSsBase :: u64 where [vmcs_fields]: "GuestSsBase = 0x680a"
definition GuestDsBase :: u64 where [vmcs_fields]: "GuestDsBase = 0x680c"
definition GuestFsBase :: u64 where [vmcs_fields]: "GuestFsBase = 0x680e"
definition GuestGsBase :: u64 where [vmcs_fields]: "GuestGsBase = 0x6810"
definition GuestLdtrBase :: u64 where [vmcs_fields]: "GuestLdtrBase = 0x6812"
definition GuestTrBase :: u64 where [vmcs_fields]: "GuestTrBase = 0x6814"
definition GuestGdtrBase :: u64 where [vmcs_fields]: "GuestGdtrBase = 0x6816"
definition GuestIdtrBase :: u64 where [vmcs_fields]: "GuestIdtrBase = 0x6818"
definition GuestDr7 :: u64 where [vmcs_fields]: "GuestDr7 = 0x681a"
definition GuestRsp :: u64 where [vmcs_fields]: "GuestRsp = 0x681c"
definition GuestRip :: u64 where [vmcs_fields]: "GuestRip = 0x681e"
definition GuestRflags :: u64 where [vmcs_fields]: "GuestRflags = 0x6820"
definition HostCr0 :: u64 where [vmcs_fields]: "HostCr0 = 0x6c00"
definition HostCr3 :: u64 where [vmcs_fields]: "HostCr3 = 0x6c02"
definition HostCr4 :: u64 where [vmcs_fields]: "HostCr4 = 0x6c04"
definition HostFsBase :: u64 where [vmcs_fields]: "HostFsBase = 0x6c06"
definition HostGsBase :: u64 where [vmcs_fields]: "HostGsBase = 0x6c08"
definition HostGdtrBase :: u64 where [vmcs_fields]: "HostGdtrBase = 0x6c0c"
definition HostIdtrBase :: u64 where [vmcs_fields]: "HostIdtrBase = 0x6c0e"
definition HostIa32SysenterEsp :: u64 where [vmcs_fields]: "HostIa32SysenterEsp = 0x6c10"
definition HostIa32SysenterEip :: u64 where [vmcs_fields]: "HostIa32SysenterEip = 0x6c12"
definition HostRsp :: u64 where [vmcs_fields]: "HostRsp = 0x6c14"
definition HostRip :: u64 where [vmcs_fields]: "HostRip = 0x6c16"

section \<open>The active VMCS\<close>

text \<open>
  The fields of the active VMCS, and what the processor contributes: the flags
  and error number a \<open>vmwrite\<close> of a value to a field ends with, and the MSRs.
\<close>

record vmcs =
  vmcs_values :: "u64 \<Rightarrow> u64"
  vmwrite_rflags :: "u64 \<Rightarrow> u64 \<Rightarrow> u64"
  vmwrite_errno :: "u64 \<Rightarrow> u64 \<Rightarrow> u64"
  msrs :: "u32 \<Rightarrow> u64"

definition vmcs_read :: "u64 \<Rightarrow> vmcs \<Rightarrow> u64 res" where
  "vmcs_read field v = Ok (vmcs_values v field)"

text \<open>A failing \<open>vmwrite\<close> with a current VMCS leaves its number in the error field.\<close>

definition vmcs_write :: "u64 \<Rightarrow> u64 \<Rightarrow> vmcs \<Rightarrow> unit res \<times> vmcs" where
  "vmcs_write field value v =
    (let rflags = vmwrite_rflags v field value;
         errno = vmwrite_errno v field value;
         v' = (if bit rflags 0 then v
               else if bit rflags 6 then v\<lparr>vmcs_values := (vmcs_values v)(VmInstructionErrorField := errno)\<rparr>
               else v\<lparr>vmcs_values := (vmcs_values v)(field := value)\<rparr>)
     in (check_vm_insruction rflags errno, v'))"

definition vmcs_write_with_fixed :: "u64 \<Rightarrow> u64 \<Rightarrow> u32 \<Rightarrow> vmcs \<Rightarrow> u64 res \<times> vmcs" where
  "vmcs_write_with_fixed field val msr v =
    (let fixed = msrs v msr;
         low = fixed AND 0x00000000ffffffff;
         high = drop_bit 32 fixed;
         required_value = (val AND high) OR low
     in if val AND NOT required_value \<noteq> 0 then (Err VmcsError, v)
        else bind_state (vmcs_write field required_value) (\<lambda>u. return_state required_value) v)"

datatype ActivityState = Active | Hlt | Shutdown | WaitForSipi

primrec activity_state_code :: "ActivityState \<Rightarrow> u32" where
  "activity_state_code Active = 0"
| "activity_state_code Hlt = 1"
| "activity_state_code Shutdown = 2"
| "activity_state_code WaitForSipi = 3"

definition activity_states :: "ActivityState list" where
  "activity_states = [Active, Hlt, Shutdown, WaitForSipi]"

interpretation activity: primitive_enum activity_states activity_state_code
proof
  show "v \<in> set activity_states" for v by (cases v) (simp_all add: activity_states_def)
  show "distinct (map activity_state_code activity_states)" by (simp add: activity_states_def)
qed

text \<open>
  The encodings follow the processor's scheme: bits 14:13 are the width of the
  field, and bit 0 selects the upper half of the 64-bit field before it.
\<close>

definition field_width :: "u64 \<Rightarrow> u64" where
  "field_width e = drop_bit 13 e AND 3"

fun high_halves_follow :: "(string \<times> u64) list \<Rightarrow> bool" where
  "high_halves_follow ((n, e) # (m, f) # t) \<longleftrightarrow>
    (if bit f 0 then m = n @ ''High'' \<and> f = e + 1 else m \<noteq> n @ ''High'') \<and>
    high_halves_follow ((m, f) # t)"
| "high_halves_follow _ \<longleftrightarrow> True"

lemmas vmcs_field_tables = vmcs_field_table_def vmcs_fields_16bit_def vmcs_fields_64bit_def
  vmcs_fields_32bit_def vmcs_fields_natural_def

lemma vmcs_field_widths:
  "list_all (\<lambda>(n, e). field_width e = 0) vmcs_fields_16bit"
  "list_all (\<lambda>(n, e). field_width e = 1) vmcs_fields_64bit"
  "list_all (\<lambda>(n, e). field_width e = 2) vmcs_fields_32bit"
  "list_all (\<lambda>(n, e). field_width e = 3) vmcs_fields_natural"
  by (simp_all add: field_width_def vmcs_field_tables)

lemma vmcs_field_table_increasing: "increasing (map snd vmcs_field_table)"
  by (simp add: vmcs_field_tables)

lemma vmcs_field_table_high_halves: "high_halves_follow vmcs_field_table"
  by (simp add: vmcs_field_tables)

text \<open>The processor accepts every \<open>vmwrite\<close>.\<close>

definition vmwrite_succeeds :: "vmcs \<Rightarrow> bool" where
  "vmwrite_succeeds v \<longleftrightarrow>
    (\<forall>f x. \<not> bit (vmwrite_rflags v f x) 0 \<and> \<not> bit (vmwrite_rflags v f x) 6)"

lemma vmcs_write_succeeds:
  assumes "vmwrite_succeeds v"
  shows "vmcs_write f x v = (Ok (), v\<lparr>vmcs_values := (vmcs_values v)(f := x)\<rparr>)"
  using assms by (simp add: vmcs_write_def vmwrite_succeeds_def check_vm_insruction_def Let_def)

lemma vmwrite_succeeds_fields_update [simp]:
  "vmwrite_succeeds (v\<lparr>vmcs_values := g\<rparr>) = vmwrite_succeeds v"
  by (simp add: vmwrite_succeeds_def)

lemma vmcs_write_Ok:
  assumes "vmcs_write f x v = (Ok (), v')"
  shows "v' = v\<lparr>vmcs_values := (vmcs_values v)(f := x)\<rparr>"
  using assms by (auto simp: vmcs_write_def check_vm_insruction_Ok Let_def)

lemma vmcs_write_returns:
  "fst (vmcs_write f x v) \<noteq> Panic" "fst (vmcs_write f x v) \<noteq> Undefined"
  by (simp_all add: vmcs_write_def Let_def)

lemma vmcs_write_with_fixed_cases:
  fixes v :: vmcs and val :: u64 and msr :: u32
  defines "low \<equiv> msrs v msr AND 0x00000000ffffffff"
    and "high \<equiv> drop_bit 32 (msrs v msr)"
  assumes "vmcs_write_with_fixed field val msr v = (r, v')"
  obtains (rejected) "val AND NOT ((val AND high) OR low) \<noteq> 0" "r = Err VmcsError" "v' = v"
  | (written) "val AND NOT ((val AND high) OR low) = 0" "r = Ok ((val AND high) OR low)"
      "v' = v\<lparr>vmcs_values := (vmcs_values v)(field := (val AND high) OR low)\<rparr>"
  | (failed) e where "r = Err e" "e \<noteq> VmcsError"
proof -
  obtain q w where q: "vmcs_write field ((val AND high) OR low) v = (q, w)" by fastforce
  have "q \<noteq> Panic" "q \<noteq> Undefined" using vmcs_write_returns [of field _ v] q by (metis fst_conv)+
  moreover have "q \<noteq> Err VmcsError"
    using q by (auto simp: vmcs_write_def check_vm_insruction_def Let_def split: if_splits)
  ultimately show thesis
    using assms(3) q rejected written failed
    by (cases q) (auto simp: vmcs_write_with_fixed_def low_def high_def Let_def
        bind_state_def return_state_def dest: vmcs_write_Ok split: if_splits)
qed

end
