(* ===== verification/Memory.thy ===== *)
theory Memory
  imports Vmcs
begin

text \<open>
  Guest memory (\<open>src/mythril/src/memory.rs\<close>): guest and host addresses, the
  entries of the extended page tables (EPT), the mapping of guest frames, the
  translation of guest addresses and the byte-wise access to guest memory.

  The tables live in an explicit store: \<open>tables\<close> gives the 512 entries of the table
  at a host address, \<open>ram\<close> the bytes of the frames, and \<open>live\<close> the 4 KiB blocks the
  allocator has handed out (none is ever returned to it: the code leaks them with
  \<open>Box::into_raw\<close>). Following a pointer to no table is \<open>Undefined\<close>. Tables and bytes
  are two maps: a block is allocated for one of them and the code never casts it to
  the other, so an access to bytes is not seen by the tables. Two parameters
  stand for code outside the repository: \<open>box_new\<close> for the global allocator
  (\<open>None\<close> when memory is exhausted) and \<open>entry_address\<close> for the address field of a
  guest page table entry as the x86 crate reads it.
\<close>

section \<open>Addresses\<close>

definition pml4_index :: "u64 \<Rightarrow> u9" where
  "pml4_index addr = ucast (drop_bit 39 addr AND 0b111111111)"

definition pdpt_index :: "u64 \<Rightarrow> u9" where
  "pdpt_index addr = ucast (drop_bit 30 addr AND 0b111111111)"

definition pd_index :: "u64 \<Rightarrow> u9" where
  "pd_index addr = ucast (drop_bit 21 addr AND 0b111111111)"

definition pt_index :: "u64 \<Rightarrow> u9" where
  "pt_index addr = ucast (drop_bit 12 addr AND 0b111111111)"

definition page_offset :: "u64 \<Rightarrow> u12" where
  "page_offset addr = ucast (addr AND 0b111111111111)"

definition large_page_offset :: "u64 \<Rightarrow> u21" where
  "large_page_offset addr = ucast (addr AND 0x1fffff)"

definition huge_page_offset :: "u64 \<Rightarrow> u30" where
  "huge_page_offset addr = ucast (addr AND 0x3fffffff)"

text \<open>
  \<open>GuestPhysAddr\<close>, \<open>Guest4LevelPagingAddr\<close> and \<open>HostPhysAddr\<close> wrap a \<open>u64\<close>;
  their \<open>p1_index\<close> to \<open>p4_index\<close> are the functions above.
\<close>

type_synonym GuestPhysAddr = u64
type_synonym Guest4LevelPagingAddr = u64
type_synonym HostPhysAddr = u64
type_synonym HostPhysFrame = u64

datatype GuestVirtAddr = NoPaging GuestPhysAddr | Paging4Level Guest4LevelPagingAddr

definition guest_virt_addr_new :: "u64 \<Rightarrow> vmcs \<Rightarrow> GuestVirtAddr res" where
  "guest_virt_addr_new val vmcs =
    and_then (vmcs_read GuestCr0 vmcs)
      (\<lambda>cr0. Ok (if bit cr0 31 then Paging4Level val else NoPaging val))"

primrec guest_virt_addr_as_u64 :: "GuestVirtAddr \<Rightarrow> u64" where
  "guest_virt_addr_as_u64 (NoPaging addr) = addr"
| "guest_virt_addr_as_u64 (Paging4Level addr) = addr"

primrec guest_virt_addr_add :: "GuestVirtAddr \<Rightarrow> u64 \<Rightarrow> GuestVirtAddr" where
  "guest_virt_addr_add (NoPaging addr) rhs = NoPaging (addr + rhs)"
| "guest_virt_addr_add (Paging4Level addr) rhs = Paging4Level (addr + rhs)"

definition is_frame_aligned :: "HostPhysAddr \<Rightarrow> bool" where
  "is_frame_aligned addr \<longleftrightarrow> addr AND 0b111111111111 = 0"

definition frame_from_start_address :: "HostPhysAddr \<Rightarrow> HostPhysFrame res" where
  "frame_from_start_address addr =
    (if \<not> is_frame_aligned addr then Err InvalidValue else Ok addr)"

section \<open>Table entries\<close>

definition READ_ACCESS :: u64 where "READ_ACCESS = push_bit 0 1"
definition WRITE_ACCESS :: u64 where "WRITE_ACCESS = push_bit 1 1"
definition PRIV_EXEC_ACCESS :: u64 where "PRIV_EXEC_ACCESS = push_bit 2 1"
definition IGNORE_PAT :: u64 where "IGNORE_PAT = push_bit 6 1"
definition ACCESSED :: u64 where "ACCESSED = push_bit 8 1"
definition DIRTY :: u64 where "DIRTY = push_bit 9 1"
definition USERMODE_EXEC_ACCESS :: u64 where "USERMODE_EXEC_ACCESS = push_bit 10 1"
definition SUPRESS_VE :: u64 where "SUPRESS_VE = push_bit 63 1"

lemmas ept_flag_defs = READ_ACCESS_def WRITE_ACCESS_def PRIV_EXEC_ACCESS_def IGNORE_PAT_def
  ACCESSED_def DIRTY_def USERMODE_EXEC_ACCESS_def SUPRESS_VE_def

text \<open>\<open>from_bits_truncate\<close> keeps the bits that are flags.\<close>

definition ept_flags :: "u64 \<Rightarrow> u64" where
  "ept_flags e = e AND (READ_ACCESS OR WRITE_ACCESS OR PRIV_EXEC_ACCESS OR IGNORE_PAT OR ACCESSED
     OR DIRTY OR USERMODE_EXEC_ACCESS OR SUPRESS_VE)"

text \<open>\<open>EptTableEntry\<close> and \<open>EptPageTableEntry\<close> are transparent \<open>u64\<close>s.\<close>

definition is_unused :: "u64 \<Rightarrow> bool" where
  "is_unused entry \<longleftrightarrow> entry = 0"

definition entry_addr :: "u64 \<Rightarrow> HostPhysAddr" where
  "entry_addr entry = entry AND 0x000ffffffffff000"

definition table_set_addr :: "HostPhysAddr \<Rightarrow> u64 \<Rightarrow> u64" where
  "table_set_addr addr flags = addr OR flags"

definition table_set_flags :: "u64 \<Rightarrow> u64 \<Rightarrow> u64" where
  "table_set_flags entry flags = entry_addr entry OR flags"

datatype EptMemoryType = Uncacheable | WriteCache | WriteThrough | WriteP | WriteBack

primrec ept_memory_type_code :: "EptMemoryType \<Rightarrow> u8" where
  "ept_memory_type_code Uncacheable = 0"
| "ept_memory_type_code WriteCache = 1"
| "ept_memory_type_code WriteThrough = 4"
| "ept_memory_type_code WriteP = 5"
| "ept_memory_type_code WriteBack = 6"

definition ept_memory_types :: "EptMemoryType list" where
  "ept_memory_types = [Uncacheable, WriteCache, WriteThrough, WriteP, WriteBack]"

definition pte_mem_type :: "u64 \<Rightarrow> EptMemoryType res" where
  "pte_mem_type entry =
    unwrap (try_from_primitive ept_memory_types ept_memory_type_code
      (ucast (drop_bit 5 (entry AND push_bit 5 0b111))))"

definition pte_set_addr :: "HostPhysAddr \<Rightarrow> u64 \<Rightarrow> u64 \<Rightarrow> u64 res" where
  "pte_set_addr addr flags entry =
    and_then (assert_that (is_frame_aligned addr)) (\<lambda>_.
    and_then (pte_mem_type entry) (\<lambda>mem_type.
    Ok (addr OR flags OR push_bit 5 (ucast (ept_memory_type_code mem_type)))))"

definition pte_set_flags :: "u64 \<Rightarrow> u64 \<Rightarrow> u64 res" where
  "pte_set_flags flags entry =
    and_then (pte_mem_type entry) (\<lambda>mem_type.
    Ok (entry_addr entry OR flags OR push_bit 5 (ucast (ept_memory_type_code mem_type))))"

definition pte_set_mem_type :: "EptMemoryType \<Rightarrow> u64 \<Rightarrow> u64" where
  "pte_set_mem_type mem_type entry =
    (entry AND NOT (push_bit 5 0b111)) OR ucast (push_bit 5 (ept_memory_type_code mem_type))"

section \<open>The store\<close>

type_synonym EptTable = "u9 \<Rightarrow> u64"

definition ept_table_default :: EptTable where
  "ept_table_default = (\<lambda>i. 0)"

record host_mem =
  tables :: "u64 \<Rightarrow> EptTable option"
  ram :: "u64 \<Rightarrow> u8"
  live :: "u64 list"

type_synonym allocator = "host_mem \<Rightarrow> u64 option"

definition BASE_PAGE_SIZE :: nat where
  "BASE_PAGE_SIZE = 4096"

definition ram_bytes :: "host_mem \<Rightarrow> u64 \<Rightarrow> nat \<Rightarrow> u8 list" where
  "ram_bytes m a n = map (\<lambda>i. ram m (a + of_nat i)) [0..<n]"

definition ram_write :: "u64 \<Rightarrow> u8 list \<Rightarrow> host_mem \<Rightarrow> host_mem" where
  "ram_write a bs m =
    m\<lparr>ram := (\<lambda>x. if unat (x - a) < length bs then bs ! unat (x - a) else ram m x)\<rparr>"

text \<open>\<open>Box::new\<close> of a zeroed table and of a zeroed page; exhausted memory panics.\<close>

definition alloc_table :: "allocator \<Rightarrow> (host_mem, u64, Error) action" where
  "alloc_table box_new m =
    (case box_new m of
       None \<Rightarrow> (Panic, m)
     | Some a \<Rightarrow> (Ok a, m\<lparr>tables := (tables m)(a \<mapsto> ept_table_default), live := a # live m\<rparr>))"

definition alloc_page :: "allocator \<Rightarrow> (host_mem, u64, Error) action" where
  "alloc_page box_new m =
    (case box_new m of
       None \<Rightarrow> (Panic, m)
     | Some a \<Rightarrow>
         (Ok a, m\<lparr>ram := (\<lambda>x. if unat (x - a) < BASE_PAGE_SIZE then 0 else ram m x),
                 live := a # live m\<rparr>))"

definition read_entry :: "u64 \<Rightarrow> u9 \<Rightarrow> host_mem \<Rightarrow> u64 res" where
  "read_entry t i m = (case tables m t of None \<Rightarrow> Undefined | Some tab \<Rightarrow> Ok (tab i))"

definition write_entry :: "u64 \<Rightarrow> u9 \<Rightarrow> u64 \<Rightarrow> (host_mem, unit, Error) action" where
  "write_entry t i e m =
    (case tables m t of
       None \<Rightarrow> (Undefined, m)
     | Some tab \<Rightarrow> (Ok (), m\<lparr>tables := (tables m)(t \<mapsto> tab(i := e))\<rparr>))"

section \<open>Mapping guest memory\<close>

definition default_flags :: u64 where
  "default_flags = READ_ACCESS OR WRITE_ACCESS OR PRIV_EXEC_ACCESS OR USERMODE_EXEC_ACCESS"

text \<open>
  The step \<open>map_guest_memory\<close> takes at each of the three upper levels: allocate the
  next table if the entry is unused, and follow the entry.
\<close>

definition next_table :: "allocator \<Rightarrow> u64 \<Rightarrow> u9 \<Rightarrow> (host_mem, u64, Error) action" where
  "next_table box_new t i =
    bind_state (\<lambda>m. (read_entry t i m, m)) (\<lambda>e.
    if is_unused e then
      bind_state (alloc_table box_new) (\<lambda>a.
      bind_state (write_entry t i (table_set_addr a default_flags)) (\<lambda>_.
      return_state (entry_addr (table_set_addr a default_flags))))
    else return_state (entry_addr e))"

definition leaf_flags :: "bool \<Rightarrow> u64" where
  "leaf_flags readonly =
    (let page_flags = READ_ACCESS OR PRIV_EXEC_ACCESS OR USERMODE_EXEC_ACCESS OR IGNORE_PAT
     in if \<not> readonly then page_flags OR WRITE_ACCESS else page_flags)"

definition map_leaf :: "u64 \<Rightarrow> u9 \<Rightarrow> HostPhysFrame \<Rightarrow> bool \<Rightarrow> (host_mem, unit, Error) action" where
  "map_leaf pt i host_frame readonly =
    bind_state (\<lambda>m. (read_entry pt i m, m)) (\<lambda>pte.
    if \<not> is_unused pte then lift_state (Err DuplicateMapping)
    else
      bind_state (lift_state (pte_set_addr host_frame (leaf_flags readonly) pte)) (\<lambda>pte.
      write_entry pt i (pte_set_mem_type WriteBack pte)))"

definition map_guest_memory ::
  "allocator \<Rightarrow> u64 \<Rightarrow> GuestPhysAddr \<Rightarrow> HostPhysFrame \<Rightarrow> bool \<Rightarrow> (host_mem, unit, Error) action" where
  "map_guest_memory box_new guest_ept_base guest_addr host_frame readonly =
    bind_state (next_table box_new guest_ept_base (pml4_index guest_addr)) (\<lambda>ept_pdpt.
    bind_state (next_table box_new ept_pdpt (pdpt_index guest_addr)) (\<lambda>ept_pdt.
    bind_state (next_table box_new ept_pdt (pd_index guest_addr)) (\<lambda>ept_pt.
    map_leaf ept_pt (pt_index guest_addr) host_frame readonly)))"

section \<open>The guest address space\<close>

record GuestAddressSpace =
  root :: u64

datatype GuestAccess = Read u8 | Write u8 | Fetch u8

definition guest_address_space_new :: "allocator \<Rightarrow> (host_mem, GuestAddressSpace, Error) action" where
  "guest_address_space_new box_new =
    bind_state (alloc_table box_new) (\<lambda>a. return_state \<lparr>root = a\<rparr>)"

definition map_frame ::
  "allocator \<Rightarrow> GuestAddressSpace \<Rightarrow> GuestPhysAddr \<Rightarrow> HostPhysFrame \<Rightarrow> bool \<Rightarrow>
    (host_mem, unit, Error) action" where
  "map_frame box_new space guest_addr host_frame readonly =
    map_guest_memory box_new (root space) guest_addr host_frame readonly"

definition map_new_frame ::
  "allocator \<Rightarrow> GuestAddressSpace \<Rightarrow> GuestPhysAddr \<Rightarrow> bool \<Rightarrow> (host_mem, unit, Error) action" where
  "map_new_frame box_new space guest_addr readonly =
    bind_state (alloc_page box_new) (\<lambda>page.
    bind_state (lift_state (frame_from_start_address page)) (\<lambda>page.
    map_frame box_new space guest_addr page readonly))"

definition eptp :: "GuestAddressSpace \<Rightarrow> u64" where
  "eptp space = root space OR push_bit 3 (4 - 1) OR 6"

definition find_host_frame :: "GuestAddressSpace \<Rightarrow> GuestPhysAddr \<Rightarrow> host_mem \<Rightarrow> HostPhysFrame res" where
  "find_host_frame space addr m =
    and_then (read_entry (root space) (pml4_index addr) m) (\<lambda>ept_pml4e.
    if is_unused ept_pml4e then Err InvalidValue
    else and_then (read_entry (entry_addr ept_pml4e) (pdpt_index addr) m) (\<lambda>ept_pdpe.
    if is_unused ept_pdpe then Err InvalidValue
    else and_then (read_entry (entry_addr ept_pdpe) (pd_index addr) m) (\<lambda>ept_pde.
    if is_unused ept_pde then Err InvalidValue
    else and_then (read_entry (entry_addr ept_pde) (pt_index addr) m) (\<lambda>ept_pte.
    if is_unused ept_pte then Err InvalidValue
    else frame_from_start_address (entry_addr ept_pte)))))"

text \<open>\<open>(*table)[index]\<close> for a guest paging structure in the frame at a host address.\<close>

definition guest_table_entry :: "HostPhysFrame \<Rightarrow> u9 \<Rightarrow> host_mem \<Rightarrow> u64 res" where
  "guest_table_entry frame i m =
    (if frame = 0 then Undefined
     else Ok (from_le_bytes (ram_bytes m (frame + 8 * ucast i) 8)))"

definition translate_pl4_address ::
  "(u64 \<Rightarrow> u64) \<Rightarrow> GuestAddressSpace \<Rightarrow> GuestPhysAddr \<Rightarrow> Guest4LevelPagingAddr \<Rightarrow> GuestAccess \<Rightarrow>
    host_mem \<Rightarrow> GuestPhysAddr res" where
  "translate_pl4_address entry_address space cr3 addr access m =
    and_then (find_host_frame space cr3 m) (\<lambda>guest_pml4_root.
    and_then (guest_table_entry guest_pml4_root (pml4_index addr) m) (\<lambda>guest_pml4e.
    and_then (find_host_frame space (entry_address guest_pml4e) m) (\<lambda>guest_pml4e_host_frame.
    and_then (guest_table_entry guest_pml4e_host_frame (pdpt_index addr) m) (\<lambda>guest_pdpte.
    and_then (find_host_frame space (entry_address guest_pdpte) m) (\<lambda>guest_pdpte_host_frame.
    and_then (guest_table_entry guest_pdpte_host_frame (pd_index addr) m) (\<lambda>guest_pdte.
    Ok (entry_address guest_pdte + ucast (large_page_offset addr))))))))"

definition translate_linear_address ::
  "(u64 \<Rightarrow> u64) \<Rightarrow> GuestAddressSpace \<Rightarrow> GuestPhysAddr \<Rightarrow> GuestVirtAddr \<Rightarrow> GuestAccess \<Rightarrow> host_mem \<Rightarrow>
    GuestPhysAddr res" where
  "translate_linear_address entry_address space cr3 addr access m =
    (case addr of
       NoPaging addr \<Rightarrow> Ok addr
     | Paging4Level vaddr \<Rightarrow> translate_pl4_address entry_address space cr3 vaddr access m)"

section \<open>Access to guest memory\<close>

record GuestAddressSpaceView =
  view_space :: GuestAddressSpace
  view_cr3 :: GuestPhysAddr

definition view_from_vmcs :: "vmcs \<Rightarrow> GuestAddressSpace \<Rightarrow> GuestAddressSpaceView res" where
  "view_from_vmcs vmcs space =
    and_then (vmcs_read GuestCr3 vmcs) (\<lambda>cr3. Ok \<lparr>view_space = space, view_cr3 = cr3\<rparr>)"

record FrameIter =
  iter_view :: GuestAddressSpaceView
  iter_addr :: GuestVirtAddr
  iter_access :: GuestAccess

text \<open>\<open>frame_iter\<close> and \<open>FrameIter::next\<close>; the iterator never ends.\<close>

definition frame_iter ::
  "GuestAddressSpace \<Rightarrow> GuestPhysAddr \<Rightarrow> GuestVirtAddr \<Rightarrow> GuestAccess \<Rightarrow> FrameIter" where
  "frame_iter space cr3 addr access =
    \<lparr>iter_view = \<lparr>view_space = space, view_cr3 = cr3\<rparr>, iter_addr = addr, iter_access = access\<rparr>"

definition frame_iter_next ::
  "(u64 \<Rightarrow> u64) \<Rightarrow> host_mem \<Rightarrow> FrameIter \<Rightarrow> HostPhysFrame res \<times> FrameIter" where
  "frame_iter_next entry_address m it =
    (let old = iter_addr it;
         it' = it\<lparr>iter_addr := guest_virt_addr_add old (of_nat BASE_PAGE_SIZE)\<rparr>;
         view = iter_view it
     in (and_then
           (translate_linear_address entry_address (view_space view) (view_cr3 view) old
              (iter_access it) m)
           (\<lambda>physaddr. find_host_frame (view_space view) physaddr m), it'))"

text \<open>
  \<open>&array[start..end]\<close> for the array of the bytes of a frame; \<open>as_array\<close> panics on
  the frame at address 0.
\<close>

definition frame_slice :: "host_mem \<Rightarrow> HostPhysFrame \<Rightarrow> nat \<Rightarrow> nat \<Rightarrow> u8 list res" where
  "frame_slice m frame i j =
    (if frame \<noteq> 0 \<and> i \<le> j \<and> j \<le> BASE_PAGE_SIZE then Ok (ram_bytes m (frame + of_nat i) (j - i))
     else Panic)"

definition frame_copy :: "HostPhysFrame \<Rightarrow> nat \<Rightarrow> u8 list \<Rightarrow> (host_mem, unit, Error) action" where
  "frame_copy frame i bs m =
    (if frame \<noteq> 0 \<and> i + length bs \<le> BASE_PAGE_SIZE
     then (Ok (), ram_write (frame + of_nat i) bs m) else (Panic, m))"

lemma unat_of_nat_add:
  fixes len :: u64
  assumes "s \<le> 4096"
  shows "unat (of_nat s + len) = (if s + unat len < 2 ^ 64 then s + unat len else s + unat len - 2 ^ 64)"
proof -
  have "unat (of_nat s + len) = (s + unat len) mod 2 ^ 64"
    using assms by (simp add: unat_word_ariths unat_of_nat)
  moreover have "unat len < 2 ^ 64" using unat_bound [of len] by simp
  ultimately show ?thesis using assms by (auto simp: mod_if)
qed

lemma read_loop_progress:
  fixes len :: u64
  assumes "(if unat (of_nat s + len) \<le> BASE_PAGE_SIZE
            then frame_slice m frame s (unat (of_nat s + len))
            else frame_slice m frame s BASE_PAGE_SIZE) = Ok sl"
  shows "length sl \<le> unat len"
    and "s + unat len \<le> BASE_PAGE_SIZE \<longleftrightarrow> length sl = unat len"
    and "length sl < unat len \<Longrightarrow> length sl = BASE_PAGE_SIZE - s"
proof -
  have len: "unat len < 2 ^ 64" using unat_bound [of len] by simp
  have s: "s \<le> 4096"
    using assms by (auto simp: frame_slice_def BASE_PAGE_SIZE_def split: if_splits)
  show "length sl \<le> unat len" "s + unat len \<le> BASE_PAGE_SIZE \<longleftrightarrow> length sl = unat len"
    "length sl < unat len \<Longrightarrow> length sl = BASE_PAGE_SIZE - s"
    using assms len s
    by (auto simp: unat_of_nat_add frame_slice_def ram_bytes_def BASE_PAGE_SIZE_def split: if_splits)
qed

lemma unat_sub_of_nat:
  fixes len :: u64
  assumes "k \<le> unat len"
  shows "unat (len - of_nat k) = unat len - k"
proof -
  have "k < 2 ^ 64" using assms unat_bound [of len] by simp
  then have "unat (of_nat k :: u64) = k" by (simp add: unat_of_nat)
  then show ?thesis using assms by (simp add: unat_sub word_le_nat_alt)
qed

lemma read_loop_decreases:
  fixes len :: u64
  assumes "(if unat (of_nat s + len) \<le> BASE_PAGE_SIZE
            then frame_slice m frame s (unat (of_nat s + len))
            else frame_slice m frame s BASE_PAGE_SIZE) = Ok sl"
    and "len - of_nat (length sl) \<noteq> 0"
  shows "unat (len - of_nat (length sl)) < unat len \<or>
         unat (len - of_nat (length sl)) = unat len \<and> 0 < s"
proof -
  have le: "length sl \<le> unat len" by (rule read_loop_progress(1) [OF assms(1)])
  then have "unat (len - of_nat (length sl)) = unat len - length sl" by (rule unat_sub_of_nat)
  moreover from this have "length sl < unat len"
    using assms(2) le unat_eq_zero [of "len - of_nat (length sl)"] by linarith
  moreover from this have "length sl = BASE_PAGE_SIZE - s"
    by (rule read_loop_progress(3) [OF assms(1)])
  ultimately show ?thesis by (auto simp: BASE_PAGE_SIZE_def)
qed

text \<open>
  The loop of \<open>read_bytes\<close>. The end of the slice is the sum of two \<open>usize\<close>s; a sum
  that wraps is below the start of the slice, which panics.
\<close>

function read_loop ::
  "(u64 \<Rightarrow> u64) \<Rightarrow> host_mem \<Rightarrow> FrameIter \<Rightarrow> nat \<Rightarrow> u64 \<Rightarrow> u8 list \<Rightarrow> u8 list res" where
  "read_loop entry_address m it start_offset len out =
    and_then (fst (frame_iter_next entry_address m it)) (\<lambda>frame.
    and_then
      (if unat (of_nat start_offset + len) \<le> BASE_PAGE_SIZE
       then frame_slice m frame start_offset (unat (of_nat start_offset + len))
       else frame_slice m frame start_offset BASE_PAGE_SIZE) (\<lambda>sl.
    if len - of_nat (length sl) = 0 then Ok (out @ sl)
    else read_loop entry_address m (snd (frame_iter_next entry_address m it)) 0
           (len - of_nat (length sl)) (out @ sl)))"
  by pat_completeness auto

termination
proof (relation "measures [\<lambda>(_, _, _, start_offset, len, _). unat len, \<lambda>(_, _, _, start_offset, _, _). start_offset]")
  show "wf (measures [\<lambda>(_, _, _, start_offset, len, _). unat len, \<lambda>(_, _, _, start_offset, _, _). start_offset])"
    by simp
qed (use read_loop_decreases in fastforce)

definition read_bytes ::
  "(u64 \<Rightarrow> u64) \<Rightarrow> GuestAddressSpace \<Rightarrow> GuestPhysAddr \<Rightarrow> GuestVirtAddr \<Rightarrow> u64 \<Rightarrow> GuestAccess \<Rightarrow>
    host_mem \<Rightarrow> u8 list res" where
  "read_bytes entry_address space cr3 addr len access m =
    read_loop entry_address m (frame_iter space cr3 addr access)
      (unat (guest_virt_addr_as_u64 addr) mod BASE_PAGE_SIZE) len []"

function write_loop ::
  "(u64 \<Rightarrow> u64) \<Rightarrow> FrameIter \<Rightarrow> nat \<Rightarrow> u8 list \<Rightarrow> (host_mem, unit, Error) action" where
  "write_loop entry_address it start_offset bs m =
    bind_state (lift_state (fst (frame_iter_next entry_address m it))) (\<lambda>frame.
    if start_offset + length bs \<le> BASE_PAGE_SIZE then frame_copy frame start_offset bs
    else
      bind_state (frame_copy frame start_offset (take (BASE_PAGE_SIZE - start_offset) bs)) (\<lambda>_ m'.
      write_loop entry_address (snd (frame_iter_next entry_address m it)) 0
        (drop (BASE_PAGE_SIZE - start_offset) bs) m')) m"
  by pat_completeness auto


termination
  by (relation "measures [\<lambda>(_, _, start_offset, bs, _). length bs, \<lambda>(_, _, start_offset, _, _). start_offset]")
     (auto simp: frame_copy_def lift_state_def BASE_PAGE_SIZE_def split: if_splits)

declare read_loop.simps [simp del] write_loop.simps [simp del]

definition write_bytes ::
  "(u64 \<Rightarrow> u64) \<Rightarrow> GuestAddressSpace \<Rightarrow> GuestPhysAddr \<Rightarrow> GuestVirtAddr \<Rightarrow> u8 list \<Rightarrow> GuestAccess \<Rightarrow>
    (host_mem, unit, Error) action" where
  "write_bytes entry_address space cr3 addr bs access =
    write_loop entry_address (frame_iter space cr3 addr access)
      (unat (guest_virt_addr_as_u64 addr) mod BASE_PAGE_SIZE) bs"

definition view_read_bytes ::
  "(u64 \<Rightarrow> u64) \<Rightarrow> GuestAddressSpaceView \<Rightarrow> GuestVirtAddr \<Rightarrow> u64 \<Rightarrow> GuestAccess \<Rightarrow> host_mem \<Rightarrow> u8 list res" where
  "view_read_bytes entry_address view addr len access m =
    read_bytes entry_address (view_space view) (view_cr3 view) addr len access m"

definition view_write_bytes ::
  "(u64 \<Rightarrow> u64) \<Rightarrow> GuestAddressSpaceView \<Rightarrow> GuestVirtAddr \<Rightarrow> u8 list \<Rightarrow> GuestAccess \<Rightarrow> (host_mem, unit, Error) action" where
  "view_write_bytes entry_address view addr bs access =
    write_bytes entry_address (view_space view) (view_cr3 view) addr bs access"

end
