(* ===== verification/Address_Space.thy ===== *)
theory Address_Space
  imports Memory
begin

text \<open>
  The extended page tables implement a finite map from guest pages to entries.
  \<open>walk\<close> follows the upper levels, \<open>leaf\<close> is the entry a guest page ends at, and
  \<open>forest_ok\<close> says that the tables under a set of roots (one per virtual machine)
  are live and that no table is shared. Under it every operation of
  \<^theory_text>\<open>Memory\<close> is an operation on \<open>leaf\<close>.
\<close>

section \<open>Entries\<close>

definition good_frame :: "u64 \<Rightarrow> bool" where
  "good_frame a \<longleftrightarrow> is_frame_aligned a \<and> a < 2 ^ 52"

text \<open>
  What the model relies on of the allocator: a block is aligned to its size, within
  physical memory, not null and not handed out before.
\<close>

definition allocator_ok :: "allocator \<Rightarrow> bool" where
  "allocator_ok box_new \<longleftrightarrow>
    (\<forall>m a. box_new m = Some a \<longrightarrow> good_frame a \<and> a \<noteq> 0 \<and> a \<notin> set (live m))"

lemma page_mask: "(0b111111111111 :: u64) = mask 12"
  by (simp add: mask_eq_exp_minus_1)

lemma address_mask: "(0x000ffffffffff000 :: u64) = push_bit 12 (mask 40)"
  by (simp add: mask_eq_exp_minus_1)

lemma is_frame_aligned_bits: "is_frame_aligned a \<longleftrightarrow> (\<forall>n < 12. \<not> bit a n)"
  unfolding is_frame_aligned_def page_mask
proof
  assume "a AND mask 12 = 0"
  then have "\<not> bit a n" if "n < 12" for n
    using that by (drule_tac arg_cong [of _ _ "\<lambda>x. bit x n"]) (simp add: bit_simps)
  then show "\<forall>n < 12. \<not> bit a n" by blast
next
  assume "\<forall>n < 12. \<not> bit a n"
  then show "a AND mask 12 = 0" by (intro bit_word_eqI) (auto simp: bit_simps)
qed

lemma good_frame_bits:
  assumes "good_frame a" "bit a n"
  shows "12 \<le> n" "n < 52"
proof -
  show "12 \<le> n"
    using assms by (auto simp: good_frame_def is_frame_aligned_bits not_less [symmetric])
  have "take_bit 52 a = a" using assms(1) by (simp add: good_frame_def take_bit_less)
  then show "n < 52" using assms(2) by (metis bit_take_bit_iff)
qed

lemma bit_entry_addr: "bit (entry_addr e) n \<longleftrightarrow> bit e n \<and> 12 \<le> n \<and> n < 52"
  unfolding entry_addr_def address_mask
  by (auto simp: bit_and_iff bit_push_bit_iff bit_mask_iff dest: bit_imp_le_length)

lemma entry_addr_aligned [simp]: "is_frame_aligned (entry_addr e)"
  by (simp add: is_frame_aligned_bits bit_entry_addr)

lemma entry_addr_or:
  assumes "good_frame a" "\<And>n. bit f n \<Longrightarrow> n < 12 \<or> 52 \<le> n"
  shows "entry_addr (a OR f) = a"
  using good_frame_bits [OF assms(1)] assms(2)
  by (intro bit_word_eqI) (force simp: bit_entry_addr bit_simps)

lemma bit_default_flags: "bit default_flags n \<longleftrightarrow> n = 0 \<or> n = 1 \<or> n = 2 \<or> n = 10"
  unfolding default_flags_def ept_flag_defs bit_or_iff bit_push_bit_iff bit_1_iff by auto

lemma entry_addr_table_set_addr [simp]:
  "good_frame a \<Longrightarrow> entry_addr (table_set_addr a default_flags) = a"
  unfolding table_set_addr_def
  by (rule entry_addr_or) (auto simp: bit_default_flags)

lemma table_set_addr_used [simp]: "table_set_addr a default_flags \<noteq> 0"
proof
  assume "table_set_addr a default_flags = 0"
  then have "bit (table_set_addr a default_flags) 0 = bit (0 :: u64) 0" by simp
  then show False by (simp add: table_set_addr_def bit_or_iff bit_default_flags)
qed

text \<open>The entry \<open>map_guest_memory\<close> leaves for a frame.\<close>

definition leaf_entry :: "HostPhysFrame \<Rightarrow> bool \<Rightarrow> u64" where
  "leaf_entry f readonly = pte_set_mem_type WriteBack (f OR leaf_flags readonly)"

lemma bit_leaf_flags:
  "bit (leaf_flags readonly) n \<longleftrightarrow> n = 0 \<or> n = 1 \<and> \<not> readonly \<or> n = 2 \<or> n = 6 \<or> n = 10"
  unfolding leaf_flags_def ept_flag_defs Let_def
  by (cases readonly; simp only: if_True if_False not_True_eq_False not_False_eq_True bit_or_iff
      bit_push_bit_iff bit_1_iff) auto

lemma bit_leaf_entry:
  assumes "is_frame_aligned f"
  shows "bit (leaf_entry f readonly) n \<longleftrightarrow>
    12 \<le> n \<and> bit f n \<or> n = 0 \<or> n = 1 \<and> \<not> readonly \<or> n = 2 \<or> n = 6 \<or> n = 7 \<or> n = 10"
proof -
  have low: "bit f n \<Longrightarrow> 12 \<le> n" for n
    using assms by (auto simp: is_frame_aligned_bits not_less [symmetric])
  have masks: "(0b111 :: u64) = mask 3"
    "ucast (push_bit 5 (ept_memory_type_code WriteBack)) = (push_bit 6 1 OR push_bit 7 1 :: u64)"
    by (simp_all add: mask_eq_exp_minus_1)
  show ?thesis
    unfolding leaf_entry_def pte_set_mem_type_def masks bit_or_iff bit_and_iff bit_not_iff
      bit_push_bit_iff bit_leaf_flags bit_mask_iff bit_1_iff
    by (cases "bit f n") (auto dest: low bit_imp_le_length)
qed

lemma leaf_entry_used [simp]: "is_frame_aligned f \<Longrightarrow> leaf_entry f readonly \<noteq> 0"
  using bit_leaf_entry [of f readonly 0] by auto

lemma entry_addr_leaf_entry: "good_frame f \<Longrightarrow> entry_addr (leaf_entry f readonly) = f"
  using good_frame_bits [of f]
  by (intro bit_word_eqI) (auto simp: bit_entry_addr bit_leaf_entry good_frame_def)

lemma pte_set_addr_unused:
  "is_frame_aligned f \<Longrightarrow> pte_set_addr f flags 0 = Ok (f OR flags)"
  by (simp add: pte_set_addr_def pte_mem_type_def try_from_primitive_def ept_memory_types_def)

lemma leaf_entry_mem_type:
  assumes "is_frame_aligned f"
  shows "pte_mem_type (leaf_entry f readonly) = Ok WriteBack"
    and "drop_bit 3 (leaf_entry f readonly) AND 0b111 = 0"
proof -
  have seven: "(0b111 :: u64) = mask 3" by (simp add: mask_eq_exp_minus_1)
  have six: "(6 :: u8) = push_bit 1 1 OR push_bit 2 1" by simp
  have "ucast (drop_bit 5 (leaf_entry f readonly AND push_bit 5 0b111)) = (6 :: u8)"
    unfolding seven six using assms
    by (intro bit_word_eqI)
       (auto simp: bit_simps bit_leaf_entry bit_1_iff simp del: push_bit_of_1 push_bit_numeral)
  then show "pte_mem_type (leaf_entry f readonly) = Ok WriteBack"
    by (simp add: pte_mem_type_def try_from_primitive_def ept_memory_types_def)
  show "drop_bit 3 (leaf_entry f readonly) AND 0b111 = 0"
    unfolding seven using assms
    by (intro bit_word_eqI) (auto simp: bit_simps bit_leaf_entry)
qed

section \<open>Walking the tables\<close>

fun walk :: "host_mem \<Rightarrow> u64 \<Rightarrow> u9 list \<Rightarrow> u64 option" where
  "walk m t [] = (if tables m t = None then None else Some t)"
| "walk m t (i # is) =
    (case tables m t of
       None \<Rightarrow> None
     | Some tab \<Rightarrow> if tab i = 0 then None else walk m (entry_addr (tab i)) is)"

definition guest_path :: "GuestPhysAddr \<Rightarrow> u9 list" where
  "guest_path g = [pml4_index g, pdpt_index g, pd_index g]"

text \<open>The entry of a guest page, \<open>None\<close> when the page is not mapped.\<close>

definition leaf_at :: "host_mem \<Rightarrow> u64 \<Rightarrow> u9 list \<Rightarrow> u9 \<Rightarrow> u64 option" where
  "leaf_at m r p i =
    (case walk m r p of
       None \<Rightarrow> None
     | Some t \<Rightarrow> (case tables m t of
         None \<Rightarrow> None
       | Some tab \<Rightarrow> if tab i = 0 then None else Some (tab i)))"

definition leaf :: "host_mem \<Rightarrow> u64 \<Rightarrow> GuestPhysAddr \<Rightarrow> u64 option" where
  "leaf m r g = leaf_at m r (guest_path g) (pt_index g)"

text \<open>
  The tables under the roots \<open>R\<close>: the allocator knows them all, an entry of the upper
  levels points to a table, and a table has one root and one path.
\<close>

definition forest_ok :: "host_mem \<Rightarrow> u64 set \<Rightarrow> bool" where
  "forest_ok m R \<longleftrightarrow>
    (\<forall>r \<in> R. tables m r \<noteq> None) \<and>
    (\<forall>t. tables m t \<noteq> None \<longrightarrow> t \<in> set (live m)) \<and>
    (\<forall>r \<in> R. \<forall>p t tab i. length p < 3 \<longrightarrow> walk m r p = Some t \<longrightarrow> tables m t = Some tab \<longrightarrow>
       tab i \<noteq> 0 \<longrightarrow> tables m (entry_addr (tab i)) \<noteq> None) \<and>
    (\<forall>r \<in> R. \<forall>s \<in> R. \<forall>p q t. length p \<le> 3 \<longrightarrow> length q \<le> 3 \<longrightarrow> walk m r p = Some t \<longrightarrow>
       walk m s q = Some t \<longrightarrow> r = s \<and> p = q)"

lemma forest_okI:
  assumes "\<And>r. r \<in> R \<Longrightarrow> tables m r \<noteq> None"
    and "\<And>t. tables m t \<noteq> None \<Longrightarrow> t \<in> set (live m)"
    and "\<And>r p t tab i. r \<in> R \<Longrightarrow> length p < 3 \<Longrightarrow> walk m r p = Some t \<Longrightarrow> tables m t = Some tab \<Longrightarrow>
      tab i \<noteq> 0 \<Longrightarrow> tables m (entry_addr (tab i)) \<noteq> None"
    and "\<And>r s p q t. r \<in> R \<Longrightarrow> s \<in> R \<Longrightarrow> length p \<le> 3 \<Longrightarrow> length q \<le> 3 \<Longrightarrow> walk m r p = Some t \<Longrightarrow>
      walk m s q = Some t \<Longrightarrow> r = s \<and> p = q"
  shows "forest_ok m R"
  unfolding forest_ok_def
proof (intro conjI)
  show "\<forall>r \<in> R. tables m r \<noteq> None" using assms(1) by blast
  show "\<forall>t. tables m t \<noteq> None \<longrightarrow> t \<in> set (live m)" using assms(2) by blast
qed ((intro ballI allI impI, rule assms(3); assumption), (intro ballI allI impI, rule assms(4); assumption))

lemma forest_ok_root: "forest_ok m R \<Longrightarrow> r \<in> R \<Longrightarrow> tables m r \<noteq> None"
  by (simp add: forest_ok_def)

lemma forest_ok_live: "forest_ok m R \<Longrightarrow> tables m t \<noteq> None \<Longrightarrow> t \<in> set (live m)"
  by (simp add: forest_ok_def)

lemma forest_ok_entry:
  "forest_ok m R \<Longrightarrow> r \<in> R \<Longrightarrow> walk m r p = Some t \<Longrightarrow> length p < 3 \<Longrightarrow> tables m t = Some tab \<Longrightarrow>
    tab i \<noteq> 0 \<Longrightarrow> tables m (entry_addr (tab i)) \<noteq> None"
  unfolding forest_ok_def by blast

lemma forest_ok_unique:
  "forest_ok m R \<Longrightarrow> r \<in> R \<Longrightarrow> s \<in> R \<Longrightarrow> walk m r p = Some t \<Longrightarrow> walk m s q = Some t \<Longrightarrow>
    length p \<le> 3 \<Longrightarrow> length q \<le> 3 \<Longrightarrow> r = s \<and> p = q"
  unfolding forest_ok_def by blast

lemma walk_live: "walk m r p = Some t \<Longrightarrow> tables m t \<noteq> None"
  by (induction m r p rule: walk.induct) (auto split: option.splits if_splits)

lemma walk_dead: "tables m t = None \<Longrightarrow> walk m t q = None"
  by (cases q) auto

lemma walk_append:
  "walk m r (p @ q) = (case walk m r p of None \<Rightarrow> None | Some t \<Rightarrow> walk m t q)"
  by (induction m r p rule: walk.induct) (auto simp: walk_dead split: option.splits)

lemma walk_snoc:
  "walk m r (p @ [i]) =
    (case walk m r p of
       None \<Rightarrow> None
     | Some t \<Rightarrow> (case tables m t of
         None \<Rightarrow> None
       | Some tab \<Rightarrow> if tab i = 0 then None else walk m (entry_addr (tab i)) []))"
  by (simp only: walk_append walk.simps split: option.splits)

text \<open>Hanging a fresh table into an unused entry adds one path and changes no other.\<close>

lemma walk_new_table:
  assumes ok: "forest_ok m R" and r: "r \<in> R"
    and t: "walk m r p = Some t" "length p < 3" "tables m t = Some tab" "tab i = 0"
    and a: "tables m a = None" and e: "entry_addr e = a" "e \<noteq> 0"
    and m': "tables m' = (tables m)(a \<mapsto> ept_table_default, t \<mapsto> tab(i := e))"
    and s: "s \<in> R" and q: "length q \<le> 3"
  shows "walk m' s q = (if s = r \<and> q = p @ [i] then Some a else walk m s q)"
  using q
proof (induction q rule: rev_induct)
  case Nil
  then show ?case using forest_ok_root [OF ok s] a m' by auto
next
  case (snoc j q)
  then have ih: "walk m' s q = (if s = r \<and> q = p @ [i] then Some a else walk m s q)"
    and len: "length q < 3" by simp_all
  show ?case
  proof (cases "s = r \<and> q = p @ [i]")
    case True
    moreover have "walk m s q = None" using t True by (simp add: walk_snoc)
    then have "walk m s (q @ [j]) = None" by (simp only: walk_snoc option.case)
    moreover have "a \<noteq> t" using a t(3) by auto
    then have "tables m' a = Some ept_table_default" using m' by simp
    then have "walk m' s (q @ [j]) = None"
      using ih True by (simp only: walk_snoc option.case if_True ept_table_default_def simp_thms)
    ultimately show ?thesis by simp
  next
    case other: False
    show ?thesis
    proof (cases "walk m s q")
      case None
      moreover have "\<not> (s = r \<and> q = p)" using None t(1) by auto
      ultimately show ?thesis using ih other by (auto simp: walk_snoc)
    next
      case (Some u)
      obtain utab where u: "tables m u = Some utab" using walk_live [OF Some] by auto
      have un: "s = r \<and> q = p" if "u = t"
        using forest_ok_unique [OF ok s r Some, of p] t len that by simp
      have keep: "walk m' (entry_addr (utab j)) [] = walk m (entry_addr (utab j)) []" if "utab j \<noteq> 0"
        using forest_ok_entry [OF ok s Some len u that] m' t(3) by auto
      have w': "walk m' s q = Some u" using ih other Some by (simp only: if_False)
      have ua: "u \<noteq> a" "t \<noteq> a" using a u t(3) by auto
      have old: "walk m s (q @ [j]) = (if utab j = 0 then None else walk m (entry_addr (utab j)) [])"
        by (simp only: walk_snoc Some u option.case)
      show ?thesis
      proof (cases "u = t \<and> j = i")
        case True
        then have "tables m' u = Some (tab(i := e))" "s = r" "q @ [j] = p @ [i]" using m' un by simp_all
        moreover have "walk m' a [] = Some a" using ua m' by simp
        ultimately have "walk m' s (q @ [j]) = Some a"
          using e True w' by (simp add: walk_snoc del: walk.simps)
        then show ?thesis using \<open>s = r\<close> \<open>q @ [j] = p @ [i]\<close> by simp
      next
        case False
        then have ne: "\<not> (s = r \<and> q @ [j] = p @ [i])" using un Some t(1) by auto
        have "\<exists>tab'. tables m' u = Some tab' \<and> tab' j = utab j" using False m' ua u t(3) by (cases "u = t") auto
        then show ?thesis
          using keep old ne by (auto simp: walk_snoc [of m' s q] w' simp del: walk.simps)
      qed
    qed
  qed
qed

text \<open>Writing a table at the last level changes no path.\<close>

lemma walk_leaf_update:
  assumes ok: "forest_ok m R" and r: "r \<in> R"
    and t: "walk m r p = Some t" "length p = 3" "tables m t = Some tab"
    and m': "tables m' = (tables m)(t \<mapsto> tab')"
    and s: "s \<in> R" and q: "length q \<le> 3"
  shows "walk m' s q = walk m s q"
  using q
proof (induction q rule: rev_induct)
  case Nil
  then show ?case using m' t(3) by auto
next
  case (snoc j q)
  then have ih: "walk m' s q = walk m s q" and len: "length q < 3" by simp_all
  have "u \<noteq> t" if "walk m s q = Some u" for u
    using forest_ok_unique [OF ok s r that] t len by auto
  then show ?case using ih m' t(3) by (auto simp: walk_snoc split: option.splits)
qed

lemma forest_ok_new_table:
  assumes ok: "forest_ok m R" and r: "r \<in> R"
    and t: "walk m r p = Some t" "length p < 3" "tables m t = Some tab" "tab i = 0"
    and a: "tables m a = None" and e: "entry_addr e = a" "e \<noteq> 0"
    and m': "tables m' = (tables m)(a \<mapsto> ept_table_default, t \<mapsto> tab(i := e))"
    and live: "live m' = a # live m"
  shows "forest_ok m' R"
proof -
  note new = walk_new_table [OF ok r t a e m']
  have at: "a \<noteq> t" using a t(3) by auto
  have none: "walk m s q \<noteq> Some a" for s q using a walk_live by blast
  have "tables m' r' \<noteq> None" if "r' \<in> R" for r' using forest_ok_root [OF ok that] m' by simp
  moreover have "u \<in> set (live m')" if "tables m' u \<noteq> None" for u
    using that forest_ok_live [OF ok] m' live t(3) by (auto split: if_splits)
  moreover have "tables m' (entry_addr (utab j)) \<noteq> None"
    if "s \<in> R" "length q < 3" "walk m' s q = Some u" "tables m' u = Some utab" "utab j \<noteq> 0"
    for s q u utab j
  proof (cases "s = r \<and> q = p @ [i]")
    case True
    then have "u = a" using that new [of s q] by simp
    then have "utab = ept_table_default" using that at m' by simp
    then show ?thesis using that(5) by (simp add: ept_table_default_def)
  next
    case False
    then have u: "walk m s q = Some u" using that new [of s q] by (auto split: if_splits)
    then have "u \<noteq> a" using none by blast
    then have "tables m (entry_addr (utab j)) \<noteq> None \<or> entry_addr (utab j) = a"
      using forest_ok_entry [OF ok that(1) u that(2), of _ j] that(4,5) t(3) e(1) m'
      by (cases "u = t"; cases "i = j") auto
    then show ?thesis using m' by auto
  qed
  moreover have "s = s' \<and> q = q'"
    if "s \<in> R" "s' \<in> R" "length q \<le> 3" "length q' \<le> 3" "walk m' s q = Some u" "walk m' s' q' = Some u"
    for s s' q q' u
  proof -
    have "u = a \<and> s = r \<and> q = p @ [i] \<or> u \<noteq> a \<and> walk m s q = Some u"
      using new [OF that(1,3)] that(5) none [of s q] by (auto split: if_splits)
    moreover have "u = a \<and> s' = r \<and> q' = p @ [i] \<or> u \<noteq> a \<and> walk m s' q' = Some u"
      using new [OF that(2,4)] that(6) none [of s' q'] by (auto split: if_splits)
    ultimately show ?thesis using forest_ok_unique [OF ok that(1,2) _ _ that(3,4)] by blast
  qed
  ultimately show ?thesis by (rule forest_okI)
qed

lemma leaf_at_new_table:
  assumes ok: "forest_ok m R" and r: "r \<in> R"
    and t: "walk m r p = Some t" "length p < 3" "tables m t = Some tab" "tab i = 0"
    and a: "tables m a = None" and e: "entry_addr e = a" "e \<noteq> 0"
    and m': "tables m' = (tables m)(a \<mapsto> ept_table_default, t \<mapsto> tab(i := e))"
    and s: "s \<in> R" and q: "length q = 3"
  shows "leaf_at m' s q j = leaf_at m s q j"
proof -
  have new: "walk m' s q = (if s = r \<and> q = p @ [i] then Some a else walk m s q)"
    using walk_new_table [OF ok r t a e m' s] q by simp
  have at: "a \<noteq> t" using a t(3) by auto
  show ?thesis
  proof (cases "s = r \<and> q = p @ [i]")
    case True
    then have "walk m s q = None" using t by (simp add: walk_snoc)
    then show ?thesis
      using True new at m' by (simp add: leaf_at_def ept_table_default_def)
  next
    case False
    have "u \<noteq> t \<and> u \<noteq> a" if "walk m s q = Some u" for u
      using forest_ok_unique [OF ok s r that] walk_live [OF that] a t q by auto
    then show ?thesis using False new m' by (auto simp: leaf_at_def split: option.splits)
  qed
qed

lemma forest_ok_leaf_update:
  assumes ok: "forest_ok m R" and r: "r \<in> R"
    and t: "walk m r p = Some t" "length p = 3" "tables m t = Some tab"
    and m': "tables m' = (tables m)(t \<mapsto> tab')" "live m' = live m"
  shows "forest_ok m' R"
proof (rule forest_okI)
  note same = walk_leaf_update [OF ok r t m'(1)]
  show "tables m' r' \<noteq> None" if "r' \<in> R" for r' using forest_ok_root [OF ok that] m' by simp
  show "u \<in> set (live m')" if "tables m' u \<noteq> None" for u
    using that forest_ok_live [OF ok] m' t(3) by (auto split: if_splits)
  show "tables m' (entry_addr (utab j)) \<noteq> None"
    if "s \<in> R" "length q < 3" "walk m' s q = Some u" "tables m' u = Some utab" "utab j \<noteq> 0"
    for s q u utab j
  proof -
    have u: "walk m s q = Some u" using same [OF that(1), of q] that by simp
    then have "u \<noteq> t" using forest_ok_unique [OF ok that(1) r u, of p] t that(2) by auto
    then have "tables m u = Some utab" using that(4) m' by simp
    from forest_ok_entry [OF ok that(1) u that(2) this that(5)] show ?thesis using m' by simp
  qed
  show "s = s' \<and> q = q'"
    if "s \<in> R" "s' \<in> R" "length q \<le> 3" "length q' \<le> 3" "walk m' s q = Some u" "walk m' s' q' = Some u"
    for s s' q q' u
  proof (rule forest_ok_unique [OF ok that(1,2) _ _ that(3,4)])
    show "walk m s q = Some u" using same [OF that(1,3)] that(5) by (rule trans [OF sym])
    show "walk m s' q' = Some u" using same [OF that(2,4)] that(6) by (rule trans [OF sym])
  qed
qed

lemma leaf_at_leaf_update:
  assumes ok: "forest_ok m R" and r: "r \<in> R"
    and t: "walk m r p = Some t" "length p = 3" "tables m t = Some tab"
    and m': "tables m' = (tables m)(t \<mapsto> tab(i := e))" and e: "e \<noteq> 0"
    and s: "s \<in> R" and q: "length q = 3"
  shows "leaf_at m' s q j = (if s = r \<and> q = p \<and> j = i then Some e else leaf_at m s q j)"
proof -
  have same: "walk m' s q = walk m s q" using walk_leaf_update [OF ok r t m' s] q by simp
  have un: "s = r \<and> q = p" if "walk m s q = Some t"
    using forest_ok_unique [OF ok s r that, of p] t q by simp
  then show ?thesis
    using same m' e t by (cases "walk m s q") (auto simp: leaf_at_def)
qed

section \<open>The operations on the map of leaves\<close>

lemmas action_defs = bind_state_def return_state_def lift_state_def

lemma next_table_cases:
  assumes ok: "forest_ok m R" and al: "allocator_ok box_new" and t: "tables m t = Some tab"
    and nt: "next_table box_new t i m = (res, m')"
  obtains (used) "tab i \<noteq> 0" "res = Ok (entry_addr (tab i))" "m' = m"
  | (exhausted) "tab i = 0" "res = Panic" "m' = m"
  | (fresh) a e where "tab i = 0" "res = Ok a" "tables m a = None" "entry_addr e = a" "e \<noteq> 0"
      "tables m' = (tables m)(a \<mapsto> ept_table_default, t \<mapsto> tab(i := e))" "live m' = a # live m"
      "ram m' = ram m"
proof (cases "tab i = 0")
  case unused: True
  show ?thesis
  proof (cases "box_new m")
    case None
    then show ?thesis
      using nt t unused exhausted
      by (auto simp: next_table_def read_entry_def alloc_table_def is_unused_def action_defs)
  next
    case (Some a)
    then have a: "good_frame a" "a \<notin> set (live m)" using al by (auto simp: allocator_ok_def)
    then have none: "tables m a = None" using forest_ok_live [OF ok] by blast
    then have "a \<noteq> t" using t by auto
    then show ?thesis
      using nt t unused Some a none fresh [of a "table_set_addr a default_flags"]
      by (auto simp: next_table_def read_entry_def alloc_table_def write_entry_def is_unused_def action_defs)
  qed
next
  case False
  then show ?thesis
    using nt t used by (auto simp: next_table_def read_entry_def is_unused_def action_defs)
qed

lemma next_table_ok:
  assumes ok: "forest_ok m R" and al: "allocator_ok box_new" and r: "r \<in> R"
    and t: "walk m r p = Some t" "length p < 3"
    and nt: "next_table box_new t i m = (res, m')"
  shows "forest_ok m' R"
    and "s \<in> R \<Longrightarrow> length q = 3 \<Longrightarrow> leaf_at m' s q j = leaf_at m s q j"
    and "res = Panic \<or> (\<exists>a. res = Ok a \<and> walk m' r (p @ [i]) = Some a)"
    and "ram m' = ram m"
proof -
  obtain tab where tab: "tables m t = Some tab" using walk_live [OF t(1)] by auto
  have "forest_ok m' R \<and> (s \<in> R \<longrightarrow> length q = 3 \<longrightarrow> leaf_at m' s q j = leaf_at m s q j) \<and>
    (res = Panic \<or> (\<exists>a. res = Ok a \<and> walk m' r (p @ [i]) = Some a)) \<and> ram m' = ram m"
    using ok al tab nt
  proof (cases rule: next_table_cases)
    case used
    then show ?thesis
      using ok t tab forest_ok_entry [OF ok r t tab] by (auto simp: walk_snoc)
  next
    case exhausted
    then show ?thesis using ok by simp
  next
    case (fresh a e)
    then show ?thesis
      using forest_ok_new_table [OF ok r t tab] leaf_at_new_table [OF ok r t tab]
        walk_new_table [OF ok r t tab _ _ _ _ _ r, of i a e m' "p @ [i]"] t(2) by auto
  qed
  then show "forest_ok m' R" "s \<in> R \<Longrightarrow> length q = 3 \<Longrightarrow> leaf_at m' s q j = leaf_at m s q j"
    "res = Panic \<or> (\<exists>a. res = Ok a \<and> walk m' r (p @ [i]) = Some a)" "ram m' = ram m"
    by blast+
qed

lemma map_leaf_ok:
  assumes ok: "forest_ok m R" and r: "r \<in> R" and t: "walk m r p = Some t" "length p = 3"
    and f: "is_frame_aligned f"
    and ml: "map_leaf t i f ro m = (res, m')"
  shows "forest_ok m' R"
    and "res = (if leaf_at m r p i = None then Ok () else Err DuplicateMapping)"
    and "s \<in> R \<Longrightarrow> length q = 3 \<Longrightarrow> leaf_at m' s q j =
      (if s = r \<and> q = p \<and> j = i \<and> leaf_at m r p i = None then Some (leaf_entry f ro) else leaf_at m s q j)"
    and "ram m' = ram m"
proof -
  obtain tab where tab: "tables m t = Some tab" using walk_live [OF t(1)] by auto
  have old: "leaf_at m r p i = (if tab i = 0 then None else Some (tab i))"
    using t tab by (simp add: leaf_at_def)
  have "forest_ok m' R \<and> res = (if leaf_at m r p i = None then Ok () else Err DuplicateMapping) \<and>
    (s \<in> R \<longrightarrow> length q = 3 \<longrightarrow> leaf_at m' s q j =
      (if s = r \<and> q = p \<and> j = i \<and> leaf_at m r p i = None then Some (leaf_entry f ro)
       else leaf_at m s q j)) \<and> ram m' = ram m"
  proof (cases "tab i = 0")
    case True
    then have m': "res = Ok ()" "tables m' = (tables m)(t \<mapsto> tab(i := leaf_entry f ro))"
      "live m' = live m" "ram m' = ram m"
      using ml tab f
      by (auto simp: map_leaf_def read_entry_def write_entry_def is_unused_def pte_set_addr_unused
          leaf_entry_def action_defs)
    then show ?thesis
      using forest_ok_leaf_update [OF ok r t tab m'(2,3)] f True old
        leaf_at_leaf_update [OF ok r t tab m'(2), of s q j] by simp
  next
    case False
    then show ?thesis
      using ml tab ok old by (simp add: map_leaf_def read_entry_def is_unused_def action_defs)
  qed
  then show "forest_ok m' R" "res = (if leaf_at m r p i = None then Ok () else Err DuplicateMapping)"
    "s \<in> R \<Longrightarrow> length q = 3 \<Longrightarrow> leaf_at m' s q j =
      (if s = r \<and> q = p \<and> j = i \<and> leaf_at m r p i = None then Some (leaf_entry f ro) else leaf_at m s q j)"
    "ram m' = ram m"
    by blast+
qed

text \<open>A step that keeps the forest, every leaf and the bytes of the frames.\<close>

definition leaves_kept :: "u64 set \<Rightarrow> host_mem \<Rightarrow> host_mem \<Rightarrow> bool" where
  "leaves_kept R m m' \<longleftrightarrow> forest_ok m' R \<and> ram m' = ram m \<and>
    (\<forall>s \<in> R. \<forall>q j. length q = 3 \<longrightarrow> leaf_at m' s q j = leaf_at m s q j)"

lemma leaves_kept_trans: "leaves_kept R m m' \<Longrightarrow> leaves_kept R m' m'' \<Longrightarrow> leaves_kept R m m''"
  by (simp add: leaves_kept_def)

lemma descend_cases:
  assumes "forest_ok m R" "allocator_ok box_new" "r \<in> R" "walk m r p = Some t" "length p < 3"
    and "bind_state (next_table box_new t i) k m = (res, m')"
  obtains (exhausted) "res = Panic" "leaves_kept R m m'"
  | (table) t1 m1 where "leaves_kept R m m1" "walk m1 r (p @ [i]) = Some t1" "k t1 m1 = (res, m')"
proof -
  obtain r1 m1 where n: "next_table box_new t i m = (r1, m1)" by fastforce
  note step = next_table_ok [OF assms(1-5) n]
  have "leaves_kept R m m1" using step(1,2,4) by (simp add: leaves_kept_def)
  then show thesis
    using step(3) n assms(6) exhausted table by (auto simp: bind_state_def)
qed

text \<open>Two guest addresses are in the same page of the 48-bit guest space.\<close>

definition same_page :: "GuestPhysAddr \<Rightarrow> GuestPhysAddr \<Rightarrow> bool" where
  "same_page g h \<longleftrightarrow> guest_path g = guest_path h \<and> pt_index g = pt_index h"

lemma bit_indices:
  "bit (pml4_index g) n \<longleftrightarrow> n < 9 \<and> bit g (39 + n)"
  "bit (pdpt_index g) n \<longleftrightarrow> n < 9 \<and> bit g (30 + n)"
  "bit (pd_index g) n \<longleftrightarrow> n < 9 \<and> bit g (21 + n)"
  "bit (pt_index g) n \<longleftrightarrow> n < 9 \<and> bit g (12 + n)"
  "bit (page_offset g) n \<longleftrightarrow> n < 12 \<and> bit g n"
proof -
  have m: "(0b111111111 :: u64) = mask 9" by (simp add: mask_eq_exp_minus_1)
  show "bit (pml4_index g) n \<longleftrightarrow> n < 9 \<and> bit g (39 + n)"
    "bit (pdpt_index g) n \<longleftrightarrow> n < 9 \<and> bit g (30 + n)"
    "bit (pd_index g) n \<longleftrightarrow> n < 9 \<and> bit g (21 + n)"
    "bit (pt_index g) n \<longleftrightarrow> n < 9 \<and> bit g (12 + n)"
    "bit (page_offset g) n \<longleftrightarrow> n < 12 \<and> bit g n"
    unfolding pml4_index_def pdpt_index_def pd_index_def pt_index_def page_offset_def m page_mask
    by (auto simp: bit_simps)
qed

lemma page_index_bit:
  assumes "12 \<le> k" "k < 48"
  shows "bit g k \<longleftrightarrow>
    (if k < 21 then bit (pt_index g) (k - 12) else if k < 30 then bit (pd_index g) (k - 21)
     else if k < 39 then bit (pdpt_index g) (k - 30) else bit (pml4_index g) (k - 39))"
  using assms by (auto simp: bit_indices)

lemma drop_take_bit_eq_iff:
  fixes g h :: u64
  assumes "n \<le> 64"
  shows "drop_bit l (take_bit n g) = drop_bit l (take_bit n h) \<longleftrightarrow>
    (\<forall>k. l \<le> k \<longrightarrow> k < n \<longrightarrow> bit g k = bit h k)"
proof
  assume eq: "drop_bit l (take_bit n g) = drop_bit l (take_bit n h)"
  show "\<forall>k. l \<le> k \<longrightarrow> k < n \<longrightarrow> bit g k = bit h k"
  proof (intro allI impI)
    fix k assume "l \<le> k" "k < n"
    then show "bit g k = bit h k"
      using arg_cong [OF eq, of "\<lambda>w. bit w (k - l)"] assms by (simp add: bit_simps)
  qed
qed (auto simp: bit_simps intro!: bit_word_eqI)

lemma map_guest_memory_cases:
  assumes ok: "forest_ok m R" and al: "allocator_ok box_new" and r: "r \<in> R"
    and mg: "map_guest_memory box_new r g f ro m = (res, m')"
  obtains (exhausted) "res = Panic" "leaves_kept R m m'"
  | (table) t m3 where "leaves_kept R m m3" "walk m3 r (guest_path g) = Some t"
      "map_leaf t (pt_index g) f ro m3 = (res, m')"
proof -
  note mg = mg [unfolded map_guest_memory_def]
  have r0: "walk m r [] = Some r" using forest_ok_root [OF ok r] by simp
  have len: "length ([] :: u9 list) < 3" "length ([] @ [pml4_index g]) < 3"
    "length (([] @ [pml4_index g]) @ [pdpt_index g]) < 3" by simp_all
  from ok al r r0 len(1) mg show thesis
  proof (cases rule: descend_cases)
    case (table t1 m1)
    note k1 = table(1)
    have "forest_ok m1 R" using k1 by (simp add: leaves_kept_def)
    from this al r table(2) len(2) table(3) show thesis
    proof (cases rule: descend_cases)
      case (table t2 m2)
      note k2 = leaves_kept_trans [OF k1 table(1)]
      have "forest_ok m2 R" using k2 by (simp add: leaves_kept_def)
      from this al r table(2) len(3) table(3) show thesis
      proof (cases rule: descend_cases)
        case (table t3 m3)
        then show thesis
          using that(2) [OF leaves_kept_trans [OF k2 table(1)]] by (simp add: guest_path_def)
      qed (use that(1) k2 in \<open>auto intro: leaves_kept_trans\<close>)
    qed (use that(1) k1 in \<open>auto intro: leaves_kept_trans\<close>)
  qed (use that(1) in auto)
qed

lemma map_guest_memory_ok:
  assumes ok: "forest_ok m R" and al: "allocator_ok box_new" and r: "r \<in> R"
    and f: "is_frame_aligned f"
    and mg: "map_guest_memory box_new r g f ro m = (res, m')"
  shows "forest_ok m' R"
    and "res = Panic \<or> res = (if leaf m r g = None then Ok () else Err DuplicateMapping)"
    and "s \<in> R \<Longrightarrow> leaf m' s h =
      (if s = r \<and> same_page g h \<and> res = Ok () then Some (leaf_entry f ro) else leaf m s h)"
    and "ram m' = ram m"
proof -
  have len: "length (guest_path x) = 3" for x by (simp add: guest_path_def)
  have "forest_ok m' R \<and>
    (res = Panic \<or> res = (if leaf m r g = None then Ok () else Err DuplicateMapping)) \<and>
    (s \<in> R \<longrightarrow> leaf m' s h =
      (if s = r \<and> same_page g h \<and> res = Ok () then Some (leaf_entry f ro) else leaf m s h)) \<and>
    ram m' = ram m"
    using ok al r mg
  proof (cases rule: map_guest_memory_cases)
    case exhausted
    then show ?thesis by (simp add: leaves_kept_def leaf_def len)
  next
    case (table t m3)
    then have m3: "forest_ok m3 R" "ram m3 = ram m"
      "\<And>s q j. s \<in> R \<Longrightarrow> length q = 3 \<Longrightarrow> leaf_at m3 s q j = leaf_at m s q j"
      by (simp_all add: leaves_kept_def)
    note ml = map_leaf_ok [OF m3(1) r table(2) len f table(3)]
    show ?thesis
      using ml(1,2,4) ml(3) [of s "guest_path h" "pt_index h"] m3 r
      by (auto simp: leaf_def len same_page_def)
  qed
  then show "forest_ok m' R"
    "res = Panic \<or> res = (if leaf m r g = None then Ok () else Err DuplicateMapping)"
    "s \<in> R \<Longrightarrow> leaf m' s h =
      (if s = r \<and> same_page g h \<and> res = Ok () then Some (leaf_entry f ro) else leaf m s h)"
    "ram m' = ram m"
    by blast+
qed

lemma find_host_frame_leaf:
  assumes ok: "forest_ok m R" and r: "root space \<in> R"
  shows "find_host_frame space g m =
    (case leaf m (root space) g of None \<Rightarrow> Err InvalidValue | Some e \<Rightarrow> Ok (entry_addr e))"
proof -
  let ?r = "root space" and ?i4 = "pml4_index g" and ?i3 = "pdpt_index g" and ?i2 = "pd_index g"
  note defs = find_host_frame_def leaf_def leaf_at_def guest_path_def read_entry_def is_unused_def
    frame_from_start_address_def
  obtain tab4 where t4: "tables m ?r = Some tab4" using forest_ok_root [OF ok r] by auto
  show ?thesis
  proof (cases "tab4 ?i4 = 0")
    case False
    note e4 = this
    then obtain tab3 where t3: "tables m (entry_addr (tab4 ?i4)) = Some tab3"
      using forest_ok_entry [OF ok r, of "[]" ?r tab4 ?i4] t4 by auto
    show ?thesis
    proof (cases "tab3 ?i3 = 0")
      case False
      note e3 = this
      then obtain tab2 where t2: "tables m (entry_addr (tab3 ?i3)) = Some tab2"
        using forest_ok_entry [OF ok r, of "[?i4]" _ tab3 ?i3] t4 e4 t3 by auto
      show ?thesis
      proof (cases "tab2 ?i2 = 0")
        case False
        then obtain tab1 where "tables m (entry_addr (tab2 ?i2)) = Some tab1"
          using forest_ok_entry [OF ok r, of "[?i4, ?i3]" _ tab2 ?i2] t4 e4 t3 e3 t2 by auto
        then show ?thesis using False t4 e4 t3 e3 t2 by (simp add: defs)
      qed (use t4 e4 t3 e3 t2 in \<open>simp add: defs\<close>)
    qed (use t4 e4 t3 in \<open>simp add: defs\<close>)
  qed (use t4 in \<open>simp add: defs\<close>)
qed

section \<open>The address space as an interface\<close>

text \<open>
  What the code that fills an address space relies on: mapping a page succeeds
  exactly when the page was not mapped, maps that page and no other, and an
  allocation of a fresh frame for a page does the same with a frame of its choice.
  The only other way for a call to end is the panic of an exhausted allocator.
\<close>

locale guest_mapping =
  fixes inv :: "'m \<Rightarrow> bool"
    and lookup :: "'m \<Rightarrow> GuestPhysAddr \<Rightarrow> HostPhysFrame option"
    and map_page :: "GuestPhysAddr \<Rightarrow> HostPhysFrame \<Rightarrow> bool \<Rightarrow> ('m, unit, Error) action"
    and map_fresh :: "GuestPhysAddr \<Rightarrow> bool \<Rightarrow> ('m, unit, Error) action"
  assumes lookup_page: "same_page g h \<Longrightarrow> lookup m g = lookup m h"
    and map_page_inv: "inv m \<Longrightarrow> good_frame f \<Longrightarrow> map_page g f ro m = (res, m') \<Longrightarrow> inv m'"
    and map_page_result: "inv m \<Longrightarrow> good_frame f \<Longrightarrow> map_page g f ro m = (res, m') \<Longrightarrow>
      res = Panic \<or> res = (if lookup m g = None then Ok () else Err DuplicateMapping)"
    and map_page_lookup: "inv m \<Longrightarrow> good_frame f \<Longrightarrow> map_page g f ro m = (res, m') \<Longrightarrow>
      lookup m' h = (if same_page g h \<and> res = Ok () then Some f else lookup m h)"
    and map_fresh_inv: "inv m \<Longrightarrow> map_fresh g ro m = (res, m') \<Longrightarrow> inv m'"
    and map_fresh_result: "inv m \<Longrightarrow> map_fresh g ro m = (res, m') \<Longrightarrow>
      res = Panic \<or> res = (if lookup m g = None then Ok () else Err DuplicateMapping)"
    and map_fresh_lookup: "inv m \<Longrightarrow> map_fresh g ro m = (res, m') \<Longrightarrow>
      (\<exists>f. lookup m' h = (if same_page g h \<and> res = Ok () then Some f else lookup m h))"
begin

lemma map_page_keeps:
  assumes "inv m" "good_frame f" "map_page g f ro m = (res, m')" "lookup m h = Some x"
  shows "lookup m' h = Some x"
  using map_page_lookup [OF assms(1-3), of h] map_page_result [OF assms(1-3)] lookup_page [of g h m] assms(4)
  by (auto split: if_splits)

lemma map_fresh_keeps:
  assumes "inv m" "map_fresh g ro m = (res, m')" "lookup m h = Some x"
  shows "lookup m' h = Some x"
  using map_fresh_lookup [OF assms(1,2), of h] map_fresh_result [OF assms(1,2)] lookup_page [of g h m] assms(3)
  by (auto split: if_splits)

lemma map_fresh_maps:
  assumes "inv m" "map_fresh g ro m = (res, m')" "res \<noteq> Panic"
  shows "lookup m' g \<noteq> None"
  using map_fresh_lookup [OF assms(1,2), of g] map_fresh_result [OF assms(1,2)] assms(3)
  by (auto simp: same_page_def split: if_splits)

end

lemma walk_cong: "tables m = tables m' \<Longrightarrow> walk m r p = walk m' r p"
  by (induction m r p rule: walk.induct) (auto split: option.splits)

lemma leaf_cong: "tables m = tables m' \<Longrightarrow> leaf m r g = leaf m' r g"
  using walk_cong [of m m'] by (simp add: leaf_def leaf_at_def split: option.split)

lemma forest_ok_cong:
  assumes "forest_ok m R" "tables m' = tables m" "set (live m) \<subseteq> set (live m')"
  shows "forest_ok m' R"
  using assms walk_cong [OF assms(2)] unfolding forest_ok_def by auto

definition space_ok :: "allocator \<Rightarrow> u64 set \<Rightarrow> GuestAddressSpace \<Rightarrow> host_mem \<Rightarrow> bool" where
  "space_ok box_new R space m \<longleftrightarrow> forest_ok m R \<and> allocator_ok box_new \<and> root space \<in> R"

definition lookup_frame :: "GuestAddressSpace \<Rightarrow> host_mem \<Rightarrow> GuestPhysAddr \<Rightarrow> HostPhysFrame option" where
  "lookup_frame space m g = map_option entry_addr (leaf m (root space) g)"

lemma find_host_frame_lookup:
  assumes "space_ok box_new R space m"
  shows "find_host_frame space g m = ok_or InvalidValue (lookup_frame space m g)"
  using assms find_host_frame_leaf [of m R space g]
  by (cases "leaf m (root space) g") (simp_all add: space_ok_def lookup_frame_def)

lemma alloc_page_cases:
  assumes "space_ok box_new R space m" "alloc_page box_new m = (res, m')"
  obtains (exhausted) "res = Panic" "m' = m"
  | (page) a where "res = Ok a" "good_frame a" "space_ok box_new R space m'"
      "lookup_frame s m' = lookup_frame s m" "tables m' = tables m"
proof (cases "box_new m")
  case None
  then show ?thesis using assms(2) exhausted by (simp add: alloc_page_def)
next
  case (Some a)
  then have a: "res = Ok a" "good_frame a" "tables m' = tables m" "set (live m) \<subseteq> set (live m')"
    using assms by (auto simp: alloc_page_def space_ok_def allocator_ok_def)
  then show ?thesis
    using assms(1) page forest_ok_cong [of m R m'] leaf_cong [of m' m]
    by (auto simp: space_ok_def lookup_frame_def fun_eq_iff)
qed

lemma map_frame_ok:
  assumes "space_ok box_new R space m" "good_frame f" "map_frame box_new space g f ro m = (res, m')"
  shows "space_ok box_new R space m'"
    and "res = Panic \<or> res = (if lookup_frame space m g = None then Ok () else Err DuplicateMapping)"
    and "root s \<in> R \<Longrightarrow> lookup_frame s m' h =
      (if root s = root space \<and> same_page g h \<and> res = Ok () then Some f else lookup_frame s m h)"
    and "ram m' = ram m"
  using map_guest_memory_ok [of m R box_new "root space" f g ro res m'] assms entry_addr_leaf_entry
  by (auto simp: space_ok_def lookup_frame_def map_frame_def good_frame_def)

text \<open>A new address space adds an empty tree and changes no other.\<close>

lemma walk_new_root:
  assumes ok: "forest_ok m R" and a: "tables m a = None"
    and m': "tables m' = (tables m)(a \<mapsto> ept_table_default)"
    and s: "s \<in> R" and q: "length q \<le> 3"
  shows "walk m' s q = walk m s q"
  using q
proof (induction q rule: rev_induct)
  case Nil
  then show ?case using forest_ok_root [OF ok s] a m' by auto
next
  case (snoc j q)
  then have ih: "walk m' s q = walk m s q" and len: "length q < 3" by simp_all
  show ?case
  proof (cases "walk m s q")
    case None
    then show ?thesis using ih by (simp only: walk_snoc option.case)
  next
    case (Some u)
    obtain tab where u: "tables m u = Some tab" using walk_live [OF Some] by auto
    then have "tables m' u = Some tab" using a m' by auto
    moreover have "walk m' (entry_addr (tab j)) [] = walk m (entry_addr (tab j)) []" if "tab j \<noteq> 0"
      using forest_ok_entry [OF ok s Some len u that] m' by auto
    ultimately show ?thesis using ih Some u by (simp only: walk_snoc option.case) metis
  qed
qed

lemma walk_empty_root:
  "tables m' a = Some ept_table_default \<Longrightarrow> walk m' a q = (if q = [] then Some a else None)"
  by (cases q) (auto simp: ept_table_default_def)

lemma forest_ok_new_root:
  assumes ok: "forest_ok m R" and a: "tables m a = None"
    and m': "tables m' = (tables m)(a \<mapsto> ept_table_default)" "live m' = a # live m"
  shows "forest_ok m' (insert a R)"
proof (rule forest_okI)
  note same = walk_new_root [OF ok a m'(1)]
  have ta: "tables m' a = Some ept_table_default" using m' by simp
  note new = walk_empty_root [OF ta]
  have none: "walk m s q \<noteq> Some a" for s q using a walk_live by blast
  show "tables m' r \<noteq> None" if "r \<in> insert a R" for r
    using that forest_ok_root [OF ok] m' by auto
  show "u \<in> set (live m')" if "tables m' u \<noteq> None" for u
    using that forest_ok_live [OF ok] m' by (auto split: if_splits)
  show "tables m' (entry_addr (tab i)) \<noteq> None"
    if "r \<in> insert a R" "length p < 3" "walk m' r p = Some t" "tables m' t = Some tab" "tab i \<noteq> 0"
    for r p t tab i
  proof (cases "t = a")
    case True
    then have "tab = ept_table_default" using that(4) ta by simp
    then show ?thesis using that(5) by (simp add: ept_table_default_def)
  next
    case False
    then have r: "r \<in> R" using that(1,3) new [of p] by (auto split: if_splits)
    have t: "walk m r p = Some t" using same [OF r, of p] that(2,3) by simp
    have "tables m t = Some tab" using False that(4) m' by simp
    from forest_ok_entry [OF ok r t that(2) this that(5)] show ?thesis using m' by simp
  qed
  show "r = s \<and> p = q"
    if "r \<in> insert a R" "s \<in> insert a R" "length p \<le> 3" "length q \<le> 3" "walk m' r p = Some t"
      "walk m' s q = Some t" for r s p q t
  proof -
    have *: "t = a \<and> r = a \<and> p = [] \<or> t \<noteq> a \<and> r \<in> R \<and> walk m r p = Some t"
      if "r \<in> insert a R" "length p \<le> 3" "walk m' r p = Some t" for r p
    proof (cases "r \<in> R")
      case True
      then have "walk m r p = Some t" using same [OF True that(2)] that(3) by simp
      then show ?thesis using True none by blast
    next
      case False
      then show ?thesis using that new [of p] by (auto split: if_splits)
    qed
    show ?thesis
      using * [OF that(1,3,5)] * [OF that(2,4,6)] forest_ok_unique [OF ok _ _ _ _ that(3,4)] by blast
  qed
qed

lemma guest_address_space_new_ok:
  assumes ok: "forest_ok m R" and al: "allocator_ok box_new"
    and new: "guest_address_space_new box_new m = (res, m')"
  obtains (exhausted) "res = Panic" "m' = m"
  | (space) s where "res = Ok s" "space_ok box_new (insert (root s) R) s m'" "root s \<notin> R"
      "lookup_frame s m' = (\<lambda>g. None)"
      "\<And>s'. root s' \<in> R \<Longrightarrow> lookup_frame s' m' = lookup_frame s' m"
proof (cases "box_new m")
  case None
  then show ?thesis
    using exhausted new by (simp add: guest_address_space_new_def alloc_table_def bind_state_def)
next
  case (Some a)
  then have a: "a \<notin> set (live m)" using al by (simp add: allocator_ok_def)
  then have none: "tables m a = None" using forest_ok_live [OF ok] by blast
  have m': "res = Ok \<lparr>root = a\<rparr>" "tables m' = (tables m)(a \<mapsto> ept_table_default)" "live m' = a # live m"
    using Some new by (auto simp: guest_address_space_new_def alloc_table_def action_defs)
  have ta: "tables m' a = Some ept_table_default" using m' by simp
  have "a \<notin> R" using none forest_ok_root [OF ok] by blast
  moreover have "space_ok box_new (insert a R) \<lparr>root = a\<rparr> m'"
    using forest_ok_new_root [OF ok none m'(2,3)] al by (simp add: space_ok_def)
  moreover have "leaf m' a g = None" for g
    using ta by (simp add: leaf_def leaf_at_def guest_path_def ept_table_default_def)
  moreover have "leaf m' r g = leaf m r g" if "r \<in> R" for r g
  proof -
    have "walk m' r (guest_path g) = walk m r (guest_path g)"
      by (rule walk_new_root [OF ok none m'(2) that]) (simp add: guest_path_def)
    moreover have "tables m' u = tables m u" if "walk m r p = Some u" for u p
      using walk_live [OF that] none m' by auto
    ultimately show ?thesis by (auto simp: leaf_def leaf_at_def split: option.split)
  qed
  ultimately show ?thesis
    using space [of "\<lparr>root = a\<rparr>"] m'(1) by (simp add: lookup_frame_def fun_eq_iff)
qed

lemma map_new_frame_cases:
  assumes "space_ok box_new R space m" "map_new_frame box_new space g ro m = (res, m')"
  obtains (exhausted) "res = Panic" "m' = m"
  | (mapped) f m1 where "good_frame f" "space_ok box_new R space m1"
      "lookup_frame space m1 = lookup_frame space m"
      "map_frame box_new space g f ro m1 = (res, m')"
proof -
  obtain r1 m1 where a: "alloc_page box_new m = (r1, m1)" by fastforce
  from assms(1) a show thesis
  proof (cases rule: alloc_page_cases [where s = space])
    case exhausted
    then show thesis
      using that(1) assms(2) a by (simp add: map_new_frame_def bind_state_def)
  next
    case (page f)
    then show thesis
      using that(2) [OF page(2,3,4)] assms(2) a
      by (simp add: map_new_frame_def action_defs frame_from_start_address_def good_frame_def)
  qed
qed

lemma map_new_frame_ok:
  assumes "space_ok box_new R space m" "map_new_frame box_new space g ro m = (res, m')"
  shows "space_ok box_new R space m'"
    and "res = Panic \<or> res = (if lookup_frame space m g = None then Ok () else Err DuplicateMapping)"
    and "\<exists>f. lookup_frame space m' h =
      (if same_page g h \<and> res = Ok () then Some f else lookup_frame space m h)"
proof -
  have "space_ok box_new R space m' \<and>
    (res = Panic \<or> res = (if lookup_frame space m g = None then Ok () else Err DuplicateMapping)) \<and>
    (\<exists>f. lookup_frame space m' h =
      (if same_page g h \<and> res = Ok () then Some f else lookup_frame space m h))"
    using assms
  proof (cases rule: map_new_frame_cases)
    case exhausted
    then show ?thesis using assms(1) by simp
  next
    case (mapped f m1)
    have "root space \<in> R" using mapped(2) by (simp add: space_ok_def)
    with map_frame_ok(1,2) [OF mapped(2,1,4)] map_frame_ok(3) [OF mapped(2,1,4), of space h] mapped(3)
    show ?thesis by auto
  qed
  then show "space_ok box_new R space m'"
    "res = Panic \<or> res = (if lookup_frame space m g = None then Ok () else Err DuplicateMapping)"
    "\<exists>f. lookup_frame space m' h =
      (if same_page g h \<and> res = Ok () then Some f else lookup_frame space m h)"
    by blast+
qed

interpretation ept: guest_mapping "space_ok box_new R space" "lookup_frame space"
  "map_frame box_new space" "map_new_frame box_new space" for box_new R space
proof
  fix m :: host_mem and f g h :: u64 and ro res m'
  show "same_page g h \<Longrightarrow> lookup_frame space m g = lookup_frame space m h"
    by (simp add: lookup_frame_def leaf_def same_page_def)
  assume ok: "space_ok box_new R space m"
  {
    assume f: "good_frame f" and mf: "map_frame box_new space g f ro m = (res, m')"
    note map_frame_ok [OF ok f mf]
    then show "space_ok box_new R space m'"
      "res = Panic \<or> res = (if lookup_frame space m g = None then Ok () else Err DuplicateMapping)"
      "lookup_frame space m' h = (if same_page g h \<and> res = Ok () then Some f else lookup_frame space m h)"
      using ok by (simp_all add: space_ok_def)
  }
  assume "map_new_frame box_new space g ro m = (res, m')"
  from map_new_frame_ok [OF ok this]
  show "space_ok box_new R space m'"
    "res = Panic \<or> res = (if lookup_frame space m g = None then Ok () else Err DuplicateMapping)"
    "\<exists>f. lookup_frame space m' h =
      (if same_page g h \<and> res = Ok () then Some f else lookup_frame space m h)"
    by simp_all
qed

text \<open>The only panic is that of an allocator that has no block left when it is asked.\<close>

lemma next_table_panic: "next_table box_new t i m = (Panic, m') \<Longrightarrow> box_new m' = None"
  by (auto simp: next_table_def action_defs read_entry_def alloc_table_def write_entry_def
      split: option.splits if_splits prod.splits outcome.splits)

lemma map_frame_panic:
  assumes "map_frame box_new space g f ro m = (Panic, m')" "is_frame_aligned f"
  shows "box_new m' = None"
proof -
  have "map_leaf t i f ro m1 \<noteq> (Panic, m2)" for t i m1 m2
    using assms(2) by (auto simp: map_leaf_def action_defs read_entry_def write_entry_def is_unused_def
      pte_set_addr_unused split: option.splits)
  then show ?thesis
    using assms(1) unfolding map_frame_def map_guest_memory_def
    by (auto elim!: bind_state_cases dest: next_table_panic)
qed

section \<open>A concrete address space\<close>

text \<open>
  A first-fit allocator over an initially empty memory, on which the hypotheses
  below hold: it gives the lowest frame that is not in use.
\<close>

definition first_fit :: allocator where
  "first_fit m =
    List.find (\<lambda>a. good_frame a \<and> a \<noteq> 0 \<and> a \<notin> set (live m)) (map (\<lambda>i. of_nat (Suc i) * 0x1000) [0..<Suc (length (live m))])"

definition empty_mem :: host_mem where
  "empty_mem = \<lparr>tables = Map.empty, ram = (\<lambda>x. 0), live = []\<rparr>"

definition first_space :: GuestAddressSpace where
  "first_space = \<lparr>root = 0x1000\<rparr>"

definition first_mem :: host_mem where
  "first_mem = snd (guest_address_space_new first_fit empty_mem)"

lemma first_fit_ok: "allocator_ok first_fit"
  by (auto simp: allocator_ok_def first_fit_def find_Some_iff)

text \<open>It has room as long as fewer than \<open>2 ^ 39\<close> frames are in use.\<close>

lemma first_fit_room:
  assumes "length (live m) < 2 ^ 39"
  shows "first_fit m \<noteq> None"
proof -
  let ?frame = "\<lambda>i. of_nat (Suc i) * 0x1000 :: u64" and ?n = "Suc (length (live m))"
  have u: "unat (?frame i) = Suc i * 0x1000" if "i < ?n" for i
    using that assms by (simp add: unat_word_ariths unat_of_nat flip: of_nat_Suc)
  then have "inj_on ?frame {..<?n}" by (intro inj_onI) (metis lessThan_iff mult_cancel2 nat.inject zero_neq_numeral)
  then have "card (?frame ` {..<?n}) = ?n" by (simp add: card_image)
  moreover have "card (set (live m)) < ?n" using card_length [of "live m"] by simp
  ultimately have "\<not> ?frame ` {..<?n} \<subseteq> set (live m)" using card_mono [of "set (live m)" "?frame ` {..<?n}"] by auto
  then obtain i where i: "i < ?n" "?frame i \<notin> set (live m)" by auto
  have "?frame i = push_bit 12 (of_nat (Suc i))" by (simp add: push_bit_eq_mult)
  then have "is_frame_aligned (?frame i)" by (simp add: is_frame_aligned_bits bit_push_bit_iff del: of_nat_Suc)
  moreover have "unat (?frame i) < 2 ^ 52" "unat (?frame i) \<noteq> 0" unfolding u [OF i(1)] using i(1) assms by simp_all
  ultimately have "good_frame (?frame i) \<and> ?frame i \<noteq> 0"
    by (auto simp: good_frame_def word_less_nat_alt simp del: of_nat_Suc)
  moreover have "?frame i \<in> set (map ?frame [0..<?n])" using i(1) by (auto simp del: upt_Suc)
  ultimately show ?thesis using i(2) unfolding first_fit_def find_None_iff by blast
qed

lemma first_space_new: "guest_address_space_new first_fit empty_mem = (Ok first_space, first_mem)"
  by (simp add: first_mem_def first_space_def guest_address_space_new_def alloc_table_def first_fit_def
      empty_mem_def good_frame_def is_frame_aligned_def action_defs)

lemma first_space_ok: "space_ok first_fit {0x1000} first_space first_mem"
proof -
  have "forest_ok empty_mem {}" by (rule forest_okI) (auto simp: empty_mem_def)
  from this first_fit_ok first_space_new show ?thesis
    by (cases rule: guest_address_space_new_ok) (auto simp: first_space_def)
qed

section \<open>Properties\<close>

text \<open>
  C2: \<open>map_frame\<close> and \<open>find_host_frame\<close> agree across every virtual machine. After a
  successful \<open>map_frame\<close> of a guest page, a lookup of an address of that page in
  that address space gives the mapped frame, and every other lookup, in this or in
  any other address space of the store, gives what it gave before.
\<close>

theorem map_frame_find_host_frame:
  assumes "space_ok box_new R space m" "good_frame f" "root s \<in> R"
    and "map_frame box_new space g f ro m = (Ok (), m')"
  shows "find_host_frame s h m' =
    (if root s = root space \<and> same_page g h then Ok f else find_host_frame s h m)"
proof -
  have s: "space_ok box_new R s m" "space_ok box_new R s m'"
    using assms map_frame_ok(1) [OF assms(1,2,4)] by (simp_all add: space_ok_def)
  show ?thesis
    using map_frame_ok(3) [OF assms(1,2,4,3), of h]
    by (simp add: find_host_frame_lookup [OF s(1)] find_host_frame_lookup [OF s(2)])
qed

theorem map_frame_find_host_frame_witness:
  "let m' = snd (map_frame first_fit first_space 0x5000 0x8000 False first_mem)
   in find_host_frame first_space 0x5123 m' = Ok 0x8000 \<and>
      find_host_frame first_space 0x6000 m' = Err InvalidValue"
proof -
  let ?m' = "snd (map_frame first_fit first_space 0x5000 0x8000 False first_mem)"
  have "fst (map_frame first_fit first_space 0x5000 0x8000 False first_mem) = Ok ()" by code_simp
  then have r: "map_frame first_fit first_space 0x5000 0x8000 False first_mem = (Ok (), ?m')"
    by (metis prod.collapse)
  have pages: "good_frame 0x8000" "root first_space \<in> {0x1000}" "same_page 0x5000 0x5123"
    "\<not> same_page 0x5000 0x6000" "find_host_frame first_space 0x6000 first_mem = Err InvalidValue"
    by code_simp+
  show ?thesis
    using map_frame_find_host_frame [OF first_space_ok pages(1,2) r, of "0x5123"]
      map_frame_find_host_frame [OF first_space_ok pages(1,2) r, of "0x6000"] pages
    by (simp add: Let_def)
qed

text \<open>
  C3: \<open>map_frame\<close> never follows a pointer to no table, and reports what it did. It
  succeeds only on a page that was not mapped; on a mapped page it gives
  \<open>DuplicateMapping\<close> and leaves every lookup as it was; and it panics only when the
  allocator has no block for the memory at that point.
\<close>

theorem map_frame_outcome:
  assumes "space_ok box_new R space m" "good_frame f"
    and "map_frame box_new space g f ro m = (res, m')"
  shows "res = Ok () \<and> find_host_frame space g m = Err InvalidValue
    \<or> res = Err DuplicateMapping \<and> is_ok (find_host_frame space g m) \<and>
        (\<forall>h. find_host_frame space h m' = find_host_frame space h m)
    \<or> res = Panic \<and> box_new m' = None"
proof -
  have r: "root space \<in> R" using assms(1) by (simp add: space_ok_def)
  note ok = map_frame_ok(1,2) [OF assms] map_frame_ok(3) [OF assms r]
  note find = find_host_frame_lookup [OF assms(1)] find_host_frame_lookup [OF ok(1)]
  show ?thesis
    using ok(2,3) map_frame_panic [of box_new space g f ro m m'] assms(2,3)
    by (cases "lookup_frame space m g") (auto simp: find good_frame_def)
qed

theorem map_frame_outcome_witness:
  "fst (map_frame first_fit first_space 0x5000 0x8000 False first_mem) \<noteq> Undefined \<and>
   fst (map_frame first_fit first_space 0x5000 0x8000 False first_mem) \<noteq> Err DuplicateMapping"
proof -
  let ?r = "map_frame first_fit first_space 0x5000 0x8000 False first_mem"
  have "good_frame 0x8000" "find_host_frame first_space 0x5000 first_mem = Err InvalidValue" by code_simp+
  then show ?thesis
    using map_frame_outcome [OF first_space_ok _ prod.collapse [symmetric],
      where f = "0x8000" and g = "0x5000" and ro = False] by fastforce
qed

text \<open>
  C6: the permissions and the memory type of a mapped page. The entry \<open>map_frame\<close>
  leaves allows reads and both kinds of execution, allows writes exactly when the
  page is not read-only, and \<open>mem_type\<close> reads the type \<open>WriteBack\<close> back from it. The
  type is kept in bits 7:5 of the entry: bits 5:3, where the processor looks for it,
  are 0, the encoding of uncacheable memory.
\<close>

theorem mapped_entry_flags:
  assumes "space_ok box_new R space m" "good_frame f"
    and "map_frame box_new space g f ro m = (Ok (), m')"
  shows "\<exists>e. leaf m' (root space) g = Some e \<and> entry_addr e = f \<and>
    bit e 0 \<and> (bit e 1 \<longleftrightarrow> \<not> ro) \<and> bit e 2 \<and> bit e 10 \<and>
    pte_mem_type e = Ok WriteBack \<and> drop_bit 3 e AND 0b111 = 0"
proof -
  have al: "is_frame_aligned f" using assms(2) by (simp add: good_frame_def)
  have "root space \<in> R" "forest_ok m R" "allocator_ok box_new" using assms(1) by (simp_all add: space_ok_def)
  then have "leaf m' (root space) g = Some (leaf_entry f ro)"
    using map_guest_memory_ok(3) [of m R box_new "root space" f g ro "Ok ()" m' "root space" g] al assms(3)
    by (simp add: map_frame_def same_page_def)
  then show ?thesis
    using entry_addr_leaf_entry [OF assms(2)] bit_leaf_entry [OF al] leaf_entry_mem_type [OF al]
    by auto
qed

theorem mapped_entry_flags_witness:
  "\<exists>e. leaf (snd (map_frame first_fit first_space 0x5000 0x8000 True first_mem)) 0x1000 0x5000 = Some e \<and>
    \<not> bit e 1"
proof -
  have "fst (map_frame first_fit first_space 0x5000 0x8000 True first_mem) = Ok ()" by code_simp
  then have r: "map_frame first_fit first_space 0x5000 0x8000 True first_mem =
    (Ok (), snd (map_frame first_fit first_space 0x5000 0x8000 True first_mem))"
    by (metis prod.collapse)
  have "good_frame 0x8000" by code_simp
  from mapped_entry_flags [OF first_space_ok this r] show ?thesis by (auto simp: first_space_def)
qed

text \<open>
  The page table indices and the page offset split a guest address into disjoint
  fields that cover its lower 48 bits, and two addresses are walked to the same
  entry exactly when they agree on bits 47:12.
\<close>

theorem guest_address_fields:
  "take_bit 48 g = push_bit 39 (ucast (pml4_index g)) OR push_bit 30 (ucast (pdpt_index g)) OR
     push_bit 21 (ucast (pd_index g)) OR push_bit 12 (ucast (pt_index g)) OR ucast (page_offset g) \<and>
   (same_page g h \<longleftrightarrow> drop_bit 12 (take_bit 48 g) = drop_bit 12 (take_bit 48 h))"
proof
  show "take_bit 48 g = push_bit 39 (ucast (pml4_index g)) OR push_bit 30 (ucast (pdpt_index g)) OR
     push_bit 21 (ucast (pd_index g)) OR push_bit 12 (ucast (pt_index g)) OR ucast (page_offset g)"
    (is "_ = ?fields")
  proof (rule bit_word_eqI)
    fix n :: nat
    consider "n < 12" | "12 \<le> n" "n < 21" | "21 \<le> n" "n < 30" | "30 \<le> n" "n < 39" | "39 \<le> n"
      by linarith
    then show "bit (take_bit 48 g) n = bit ?fields n"
      by cases (auto simp: bit_simps bit_indices dest: bit_imp_le_length)
  qed
  have "bit g k = bit h k" if "same_page g h" "12 \<le> k" "k < 48" for k
    using that page_index_bit [of k] by (auto simp: same_page_def guest_path_def)
  moreover have "same_page g h" if "\<And>k. 12 \<le> k \<Longrightarrow> k < 48 \<Longrightarrow> bit g k = bit h k"
    using that by (auto simp: same_page_def guest_path_def bit_indices intro!: bit_word_eqI)
  ultimately show "same_page g h \<longleftrightarrow> drop_bit 12 (take_bit 48 g) = drop_bit 12 (take_bit 48 h)"
    using drop_take_bit_eq_iff [of 48 12 g h] by auto
qed

end
