(* ===== verification/Guest_Bytes.thy ===== *)
theory Guest_Bytes
  imports Address_Space
begin

text \<open>
  Byte-wise access to guest memory: \<open>read_bytes\<close> and \<open>write_bytes\<close> walk the frames
  of a range page by page, and read and write exactly the bytes the address space
  gives to the addresses of the range.
\<close>

section \<open>Pages and offsets\<close>

definition page_base :: "u64 \<Rightarrow> u64" where
  "page_base b = b - take_bit 12 b"

lemma page_base_bits: "page_base b = push_bit 12 (drop_bit 12 b)"
  unfolding page_base_def by (metis add_diff_cancel_right' bits_ident)

lemma page_base_next: "page_base (b + 4096) = page_base b + 4096"
proof -
  have "unat (take_bit 12 (b + 4096)) = unat (take_bit 12 b)"
    by (simp add: take_bit_eq_mod unat_mod unat_word_ariths mod_mod_cancel)
  then have "take_bit 12 (b + 4096) = take_bit 12 b" by (simp only: word_unat_eq_iff)
  then show ?thesis by (simp add: page_base_def)
qed

lemma page_base_add_or:
  assumes "k < 4096"
  shows "page_base b + of_nat k = page_base b OR of_nat k"
    and "take_bit 12 (of_nat k :: u64) = of_nat k"
proof -
  have "unat (of_nat k :: u64) = k" using assms by (simp add: unat_of_nat)
  then have "(of_nat k :: u64) < 2 ^ 12" using assms by (simp add: word_less_nat_alt)
  then show k: "take_bit 12 (of_nat k :: u64) = of_nat k" by (simp add: take_bit_less)
  have "page_base b AND of_nat k = 0"
    by (subst k [symmetric]) (auto simp: page_base_bits bit_eq_iff bit_simps)
  then show "page_base b + of_nat k = page_base b OR of_nat k"
    by (rule disjunctive_add_eq_or)
qed

lemma drop_bit_page_base_add:
  assumes "k < 4096" "12 \<le> n"
  shows "drop_bit n (page_base b + of_nat k) = drop_bit n b"
proof (rule bit_word_eqI)
  fix i
  have "bit (of_nat k :: u64) (n + i) = False"
    using assms(2) by (subst page_base_add_or(2) [OF assms(1), symmetric]) (simp add: bit_simps)
  then show "bit (drop_bit n (page_base b + of_nat k)) i = bit (drop_bit n b) i"
    using assms(2)
    by (subst page_base_add_or(1) [OF assms(1)])
       (auto simp: page_base_bits bit_drop_bit_eq bit_or_iff bit_push_bit_iff dest: bit_imp_le_length)
qed

lemma same_page_base_add: "k < 4096 \<Longrightarrow> same_page b (page_base b + of_nat k)"
  by (simp add: same_page_def guest_path_def pml4_index_def pdpt_index_def pd_index_def pt_index_def
      drop_bit_page_base_add)

lemma page_offset_base_add:
  assumes "k < 4096"
  shows "ucast (page_offset (page_base b + of_nat k)) = (of_nat k :: u64)"
proof -
  have "(page_base b OR of_nat k) AND mask 12 = of_nat k"
    using page_base_add_or(2) [OF assms]
    by (intro bit_word_eqI) (auto simp: page_base_bits bit_simps simp flip: take_bit_eq_mask)
  moreover have "(0b111111111111 :: u64) = mask 12" by (simp add: mask_eq_exp_minus_1)
  ultimately have "(page_base b + of_nat k) AND 0b111111111111 = of_nat k"
    using page_base_add_or(1) [OF assms] by simp
  moreover have "ucast (ucast (of_nat k :: u64) :: u12) = take_bit 12 (of_nat k :: u64)"
    by (rule bit_word_eqI) (simp add: bit_simps)
  ultimately show ?thesis
    using page_base_add_or(2) [OF assms] by (simp only: page_offset_def)
qed

section \<open>Bytes of the guest\<close>

definition guest_byte :: "GuestAddressSpace \<Rightarrow> host_mem \<Rightarrow> GuestPhysAddr \<Rightarrow> u8" where
  "guest_byte space m g = ram m (the (lookup_frame space m g) + ucast (page_offset g))"

definition guest_bytes :: "GuestAddressSpace \<Rightarrow> host_mem \<Rightarrow> GuestPhysAddr \<Rightarrow> nat \<Rightarrow> u8 list" where
  "guest_bytes space m g n = map (\<lambda>i. guest_byte space m (g + of_nat i)) [0..<n]"

text \<open>Every page of a range of guest addresses has a frame, and none is the null frame.\<close>

definition range_mapped :: "GuestAddressSpace \<Rightarrow> host_mem \<Rightarrow> GuestPhysAddr \<Rightarrow> nat \<Rightarrow> bool" where
  "range_mapped space m g n \<longleftrightarrow>
    (\<forall>i < n. \<exists>f. lookup_frame space m (g + of_nat i) = Some f \<and> f \<noteq> 0)"

lemma length_guest_bytes [simp]: "length (guest_bytes space m g n) = n"
  by (simp add: guest_bytes_def)

lemma guest_bytes_append:
  "guest_bytes space m g (j + n) = guest_bytes space m g j @ guest_bytes space m (g + of_nat j) n"
proof -
  have "[0..<j + n] = [0..<j] @ map (\<lambda>i. i + j) [0..<n]"
    by (metis add.commute map_add_upt upt_add_eq_append zero_le)
  then show ?thesis by (simp add: guest_bytes_def ac_simps)
qed

lemma range_mapped_append:
  assumes "range_mapped space m g (j + n)"
  shows "range_mapped space m g j" "range_mapped space m (g + of_nat j) n"
proof -
  show "range_mapped space m g j" using assms by (simp add: range_mapped_def)
  show "range_mapped space m (g + of_nat j) n"
    unfolding range_mapped_def
  proof (intro allI impI)
    fix i assume "i < n"
    then show "\<exists>f. lookup_frame space m (g + of_nat j + of_nat i) = Some f \<and> f \<noteq> 0"
      using assms [unfolded range_mapped_def, rule_format, of "j + i"] by (simp add: ac_simps)
  qed
qed

lemma lookup_frame_base_add:
  "k < 4096 \<Longrightarrow> lookup_frame space m (page_base b + of_nat k) = lookup_frame space m b"
  using ept.lookup_page same_page_base_add by metis

lemma ram_bytes_guest_bytes:
  assumes "lookup_frame space m b = Some f" "s + n \<le> 4096"
  shows "ram_bytes m (f + of_nat s) n = guest_bytes space m (page_base b + of_nat s) n"
  unfolding ram_bytes_def guest_bytes_def
proof (rule map_cong [OF refl])
  fix i assume "i \<in> set [0..<n]"
  then have k: "s + i < 4096" using assms(2) by simp
  show "ram m (f + of_nat s + of_nat i) = guest_byte space m (page_base b + of_nat s + of_nat i)"
    using lookup_frame_base_add [OF k, of space m b] page_offset_base_add [OF k, of b] assms(1)
    by (simp add: guest_byte_def ac_simps)
qed

section \<open>Reading\<close>

lemma frame_iter_next_no_paging:
  assumes "space_ok box_new R (view_space (iter_view it)) m" "iter_addr it = NoPaging b"
    and "lookup_frame (view_space (iter_view it)) m b = Some f"
  shows "fst (frame_iter_next ea m it) = Ok f"
    and "iter_addr (snd (frame_iter_next ea m it)) = NoPaging (b + 4096)"
    and "iter_view (snd (frame_iter_next ea m it)) = iter_view it"
  using assms find_host_frame_lookup [OF assms(1), of b]
  by (simp_all add: frame_iter_next_def translate_linear_address_def Let_def BASE_PAGE_SIZE_def)

lemma read_loop_guest_bytes:
  fixes len :: u64
  assumes "space_ok box_new R space m" "view_space (iter_view it) = space" "iter_addr it = NoPaging b"
    and "s < 4096" "s + unat len < 2 ^ 64"
    and "range_mapped space m (page_base b + of_nat s) (max 1 (unat len))"
  shows "read_loop ea m it s len out =
    Ok (out @ guest_bytes space m (page_base b + of_nat s) (unat len))"
  using assms
proof (induction "unat len" arbitrary: len it b s out rule: less_induct)
  case less
  obtain f where f: "lookup_frame space m b = Some f" "f \<noteq> 0"
    using less.prems(6) [unfolded range_mapped_def, rule_format, of 0] lookup_frame_base_add [OF less.prems(4)]
    by (auto simp: less_max_iff_disj)
  note it = frame_iter_next_no_paging [of box_new R it m b f ea]
  have nx: "fst (frame_iter_next ea m it) = Ok f"
    "iter_addr (snd (frame_iter_next ea m it)) = NoPaging (b + 4096)"
    "view_space (iter_view (snd (frame_iter_next ea m it))) = space"
    using it less.prems(1-3) f by simp_all
  have sum: "unat (of_nat s + len) = s + unat len"
    using less.prems(4,5) by (simp add: unat_of_nat_add)
  show ?case
  proof (cases "s + unat len \<le> 4096")
    case True
    then show ?thesis
      using ram_bytes_guest_bytes [OF f(1) True] sum nx f(2)
      by (subst read_loop.simps) (simp add: frame_slice_def BASE_PAGE_SIZE_def)
  next
    case False
    let ?k = "4096 - s"
    have len': "unat (len - of_nat ?k) = unat len - ?k"
      using False less.prems(4) by (intro unat_sub_of_nat) simp
    have more: "unat len = ?k + unat (len - of_nat ?k)" "0 < unat (len - of_nat ?k)"
      using False less.prems(4) len' by auto
    have base: "page_base b + of_nat s + of_nat ?k = page_base (b + 4096) + of_nat 0"
      using less.prems(4) by (simp add: page_base_next flip: of_nat_add)
    have mapped: "range_mapped space m (page_base (b + 4096) + of_nat 0) (unat (len - of_nat ?k))"
      using less.prems(6) more range_mapped_append(2) [of space m "page_base b + of_nat s" ?k "unat (len - of_nat ?k)"]
      by (simp add: base)
    have "read_loop ea m it s len out =
      read_loop ea m (snd (frame_iter_next ea m it)) 0 (len - of_nat ?k)
        (out @ guest_bytes space m (page_base b + of_nat s) ?k)"
      using False sum nx f(2) more(2) less.prems(4) ram_bytes_guest_bytes [OF f(1), of s ?k]
      by (subst read_loop.simps) (auto simp: frame_slice_def BASE_PAGE_SIZE_def)
    also have "\<dots> = Ok ((out @ guest_bytes space m (page_base b + of_nat s) ?k) @
        guest_bytes space m (page_base (b + 4096) + of_nat 0) (unat (len - of_nat ?k)))"
      using more less.prems(1,4,5) nx mapped len'
      by (intro less.hyps) (auto simp: max_def)
    also have "\<dots> = Ok (out @ guest_bytes space m (page_base b + of_nat s) (unat len))"
      using guest_bytes_append [of space m "page_base b + of_nat s" ?k "unat (len - of_nat ?k)"]
      by (simp only: base more(1) [symmetric] append_assoc)
    finally show ?thesis .
  qed
qed

section \<open>Writing\<close>

definition host_addr :: "GuestAddressSpace \<Rightarrow> host_mem \<Rightarrow> GuestPhysAddr \<Rightarrow> u64" where
  "host_addr space m g = the (lookup_frame space m g) + ucast (page_offset g)"

text \<open>No two addresses of a range share a byte of the host.\<close>

definition range_unaliased :: "GuestAddressSpace \<Rightarrow> host_mem \<Rightarrow> GuestPhysAddr \<Rightarrow> nat \<Rightarrow> bool" where
  "range_unaliased space m g n \<longleftrightarrow>
    (\<forall>i < n. \<forall>j < n. host_addr space m (g + of_nat i) = host_addr space m (g + of_nat j) \<longrightarrow> i = j)"

text \<open>The bytes \<open>bs\<close> stored at a range of guest addresses, and nothing else changed.\<close>

definition bytes_stored :: "GuestAddressSpace \<Rightarrow> GuestPhysAddr \<Rightarrow> u8 list \<Rightarrow> host_mem \<Rightarrow> host_mem \<Rightarrow> bool" where
  "bytes_stored space g bs m m' \<longleftrightarrow>
    tables m' = tables m \<and> live m' = live m \<and>
    (\<forall>i < length bs. ram m' (host_addr space m (g + of_nat i)) = bs ! i) \<and>
    (\<forall>x. (\<forall>i < length bs. x \<noteq> host_addr space m (g + of_nat i)) \<longrightarrow> ram m' x = ram m x)"

lemma guest_byte_host_addr: "guest_byte space m g = ram m (host_addr space m g)"
  by (simp add: guest_byte_def host_addr_def)

lemma lookup_frame_cong: "tables m' = tables m \<Longrightarrow> lookup_frame space m' = lookup_frame space m"
  using leaf_cong [of m' m] by (simp add: lookup_frame_def fun_eq_iff)

lemma space_ok_cong:
  "space_ok box_new R space m \<Longrightarrow> tables m' = tables m \<Longrightarrow> live m' = live m \<Longrightarrow> space_ok box_new R space m'"
  using forest_ok_cong [of m R m'] by (auto simp: space_ok_def)

lemma host_addr_cong: "tables m' = tables m \<Longrightarrow> host_addr space m' = host_addr space m"
  using lookup_frame_cong [of m' m space] by (simp add: host_addr_def fun_eq_iff)

lemma range_cong:
  assumes "tables m' = tables m"
  shows "range_mapped space m' = range_mapped space m" "range_unaliased space m' = range_unaliased space m"
  using lookup_frame_cong [OF assms] host_addr_cong [OF assms]
  by (simp_all add: range_mapped_def range_unaliased_def fun_eq_iff)

lemma host_addr_base_add:
  assumes "lookup_frame space m b = Some f" "k < 4096"
  shows "host_addr space m (page_base b + of_nat k) = f + of_nat k"
  using assms lookup_frame_base_add [OF assms(2)] page_offset_base_add [OF assms(2)]
  by (simp add: host_addr_def)

lemma ram_write_stored:
  assumes f: "lookup_frame space m b = Some f" and n: "s + length bs \<le> 4096"
  shows "bytes_stored space (page_base b + of_nat s) bs m (ram_write (f + of_nat s) bs m)"
proof -
  have h: "host_addr space m (page_base b + of_nat s + of_nat i) = f + of_nat s + of_nat i"
    if "i < length bs" for i
    using host_addr_base_add [OF f, of "s + i"] n that by (simp add: ac_simps)
  have u: "unat (of_nat i :: u64) = i" if "i < length bs" for i
    using n that by (simp add: unat_of_nat)
  have "ram (ram_write (f + of_nat s) bs m) x = ram m x"
    if x: "\<And>i. i < length bs \<Longrightarrow> x \<noteq> f + of_nat s + of_nat i" for x
  proof -
    have "\<not> unat (x - (f + of_nat s)) < length bs"
      using x [of "unat (x - (f + of_nat s))"] by auto
    then show ?thesis by (simp add: ram_write_def)
  qed
  then show ?thesis using h u by (simp add: bytes_stored_def) (simp add: ram_write_def)
qed

lemma bytes_stored_append:
  assumes 1: "bytes_stored space g bs m m1" and 2: "bytes_stored space (g + of_nat (length bs)) cs m1 m2"
    and un: "range_unaliased space m g (length bs + length cs)"
  shows "bytes_stored space g (bs @ cs) m m2"
proof -
  have t: "tables m1 = tables m" using 1 by (simp add: bytes_stored_def)
  let ?h = "\<lambda>i. host_addr space m (g + of_nat i)"
  have h: "host_addr space m1 (g + of_nat (length bs) + of_nat i) = ?h (length bs + i)" for i
    by (simp add: host_addr_cong [OF t] ac_simps)
  have low: "ram m2 (?h i) = bs ! i" if "i < length bs" for i
  proof -
    have "?h i \<noteq> ?h (length bs + j)" if "j < length cs" for j
      using un [unfolded range_unaliased_def, rule_format, of i "length bs + j"] \<open>i < length bs\<close> that
      by auto
    then have "ram m2 (?h i) = ram m1 (?h i)" using 2 by (simp add: bytes_stored_def h)
    then show ?thesis using 1 that by (simp add: bytes_stored_def)
  qed
  have high: "ram m2 (?h i) = cs ! (i - length bs)" if "length bs \<le> i" "i < length bs + length cs" for i
    using 2 that unfolding bytes_stored_def h
    by (metis add_diff_inverse_nat add_less_cancel_left not_less)
  have "ram m2 x = ram m x" if x: "\<And>i. i < length bs + length cs \<Longrightarrow> x \<noteq> ?h i" for x
  proof -
    have "x \<noteq> ?h (length bs + i)" if "i < length cs" for i
      using that by (intro x) simp
    then have "ram m2 x = ram m1 x" using 2 unfolding bytes_stored_def h by blast
    also have "\<dots> = ram m x" using 1 x by (simp add: bytes_stored_def)
    finally show ?thesis .
  qed
  then show ?thesis
    using 1 2 low high by (simp add: bytes_stored_def nth_append)
qed

lemma range_unaliased_append:
  assumes "range_unaliased space m g (j + n)"
  shows "range_unaliased space m g j" "range_unaliased space m (g + of_nat j) n"
proof -
  show "range_unaliased space m g j" using assms by (simp add: range_unaliased_def)
  show "range_unaliased space m (g + of_nat j) n"
    unfolding range_unaliased_def
  proof (intro allI impI)
    fix a b assume "a < n" "b < n"
      "host_addr space m (g + of_nat j + of_nat a) = host_addr space m (g + of_nat j + of_nat b)"
    then show "a = b"
      using assms [unfolded range_unaliased_def, rule_format, of "j + a" "j + b"] by (simp add: ac_simps)
  qed
qed

lemma write_loop_stored:
  assumes "space_ok box_new R space m" "view_space (iter_view it) = space" "iter_addr it = NoPaging b"
    and "s < 4096"
    and "range_mapped space m (page_base b + of_nat s) (max 1 (length bs))"
    and "range_unaliased space m (page_base b + of_nat s) (length bs)"
  shows "\<exists>m'. write_loop ea it s bs m = (Ok (), m') \<and>
    bytes_stored space (page_base b + of_nat s) bs m m'"
  using assms
proof (induction "length bs" arbitrary: bs it b s m rule: less_induct)
  case less
  obtain f where f: "lookup_frame space m b = Some f" "f \<noteq> 0"
    using less.prems(5) [unfolded range_mapped_def, rule_format, of 0] lookup_frame_base_add [OF less.prems(4)]
    by (auto simp: less_max_iff_disj)
  have nx: "fst (frame_iter_next ea m it) = Ok f"
    "iter_addr (snd (frame_iter_next ea m it)) = NoPaging (b + 4096)"
    "view_space (iter_view (snd (frame_iter_next ea m it))) = space"
    using frame_iter_next_no_paging [of box_new R it m b f ea] less.prems(1-3) f by simp_all
  show ?case
  proof (cases "s + length bs \<le> 4096")
    case True
    then show ?thesis
      using ram_write_stored [OF f(1) True] nx f(2)
      by (subst write_loop.simps) (simp add: action_defs frame_copy_def BASE_PAGE_SIZE_def)
  next
    case False
    let ?k = "4096 - s" and ?g = "page_base b + of_nat s"
    let ?m1 = "ram_write (f + of_nat s) (take ?k bs) m"
    have k: "length (take ?k bs) = ?k" using False by simp
    have stored: "bytes_stored space ?g (take ?k bs) m ?m1"
      using ram_write_stored [OF f(1), of s "take ?k bs"] less.prems(4) k by simp
    then have m1: "tables ?m1 = tables m" "live ?m1 = live m" by (simp_all add: bytes_stored_def)
    have base: "?g + of_nat ?k = page_base (b + 4096) + of_nat 0"
      using less.prems(4) by (simp add: page_base_next flip: of_nat_add)
    have split: "length bs = ?k + length (drop ?k bs)" "0 < length (drop ?k bs)"
      using False less.prems(4) by auto
    have n: "max 1 (length bs) = ?k + length (drop ?k bs)"
      "max 1 (length (drop ?k bs)) = length (drop ?k bs)" using split by linarith+
    have rest: "range_mapped space ?m1 (page_base (b + 4096) + of_nat 0) (max 1 (length (drop ?k bs)))"
      "range_unaliased space ?m1 (page_base (b + 4096) + of_nat 0) (length (drop ?k bs))"
      unfolding range_cong [OF m1(1)] n(2) base [symmetric]
      using range_mapped_append(2) [OF less.prems(5) [unfolded n(1)]]
        range_unaliased_append(2) [OF less.prems(6) [unfolded split(1)]] by blast+
    have shorter: "length (drop ?k bs) < length bs" using False less.prems(4) by simp
    obtain m' where m': "write_loop ea (snd (frame_iter_next ea m it)) 0 (drop ?k bs) ?m1 = (Ok (), m')"
      "bytes_stored space (page_base (b + 4096) + of_nat 0) (drop ?k bs) ?m1 m'"
      using less.hyps [OF shorter space_ok_cong [OF less.prems(1) m1] nx(3,2) _ rest] by auto
    have "write_loop ea it s bs m = (Ok (), m')"
      using False nx(1) f(2) m'(1) k less.prems(4)
      by (subst write_loop.simps) (simp add: action_defs frame_copy_def BASE_PAGE_SIZE_def)
    moreover have "bytes_stored space ?g (take ?k bs @ drop ?k bs) m m'"
    proof (rule bytes_stored_append [OF stored])
      show "bytes_stored space (?g + of_nat (length (take ?k bs))) (drop ?k bs) ?m1 m'"
        unfolding k base by (rule m'(2))
      show "range_unaliased space m ?g (length (take ?k bs) + length (drop ?k bs))"
        unfolding k split(1) [symmetric] by (rule less.prems(6))
    qed
    ultimately show ?thesis by auto
  qed
qed

section \<open>Properties\<close>

lemma page_base_offset: "page_base a + of_nat (unat a mod BASE_PAGE_SIZE) = a"
proof -
  have "unat (take_bit 12 a) = unat a mod 4096" by (simp add: take_bit_eq_mod unat_mod)
  then have "of_nat (unat a mod 4096) = take_bit 12 a" by (metis of_nat_unat ucast_id)
  then show ?thesis by (simp add: page_base_def BASE_PAGE_SIZE_def)
qed

lemma read_bytes_guest_bytes:
  assumes "space_ok box_new R space m"
    and "range_mapped space m a (max 1 (unat len))"
    and "unat a mod BASE_PAGE_SIZE + unat len < 2 ^ 64"
  shows "read_bytes ea space cr3 (NoPaging a) len access m = Ok (guest_bytes space m a (unat len))"
proof -
  have "unat a mod BASE_PAGE_SIZE < 4096" by (simp add: BASE_PAGE_SIZE_def)
  then show ?thesis
    unfolding read_bytes_def
    using assms page_base_offset [of a]
    by (subst read_loop_guest_bytes [where b = a and space = space]) (simp_all add: frame_iter_def)
qed

lemma write_bytes_stored:
  assumes "space_ok box_new R space m"
    and "range_mapped space m a (max 1 (length bs))"
    and "range_unaliased space m a (length bs)"
  obtains m' where "write_bytes ea space cr3 (NoPaging a) bs access m = (Ok (), m')" "bytes_stored space a bs m m'"
proof -
  have "unat a mod BASE_PAGE_SIZE < 4096" by (simp add: BASE_PAGE_SIZE_def)
  then show ?thesis
    using write_loop_stored [of box_new R space m "frame_iter space cr3 (NoPaging a) access" a
        "unat a mod BASE_PAGE_SIZE" bs ea] assms page_base_offset [of a] that
    unfolding write_bytes_def by (auto simp: frame_iter_def)
qed

lemma guest_bytes_stored:
  assumes "bytes_stored space a bs m m'"
  shows "guest_bytes space m' a (length bs) = bs"
  using assms host_addr_cong [of m' m space]
  by (auto simp: guest_bytes_def guest_byte_host_addr bytes_stored_def intro: nth_equalityI)

text \<open>Bytes written elsewhere leave a range as it is.\<close>

lemma guest_bytes_frame:
  assumes "bytes_stored space a bs m m'"
    and "\<And>i j. i < n \<Longrightarrow> j < length bs \<Longrightarrow> host_addr space m (g + of_nat i) \<noteq> host_addr space m (a + of_nat j)"
  shows "guest_bytes space m' g n = guest_bytes space m g n"
proof -
  have "tables m' = tables m" using assms(1) by (simp add: bytes_stored_def)
  then show ?thesis
    using assms host_addr_cong [of m' m space]
    by (auto simp: guest_bytes_def guest_byte_host_addr bytes_stored_def)
qed

text \<open>A memory with the frame \<open>0x8000\<close> mapped at \<open>0x5000\<close> and \<open>0x9000\<close> at \<open>0x6000\<close>.\<close>

definition one_page :: host_mem where
  "one_page = snd (map_frame first_fit first_space 0x5000 0x8000 False first_mem)"

definition two_pages :: host_mem where
  "two_pages = snd (map_frame first_fit first_space 0x6000 0x9000 False one_page)"

lemma two_pages_ok:
  "space_ok first_fit {0x1000} first_space two_pages"
  "ram two_pages = (\<lambda>x. 0)"
  "lookup_frame first_space two_pages h =
    (if same_page 0x6000 h then Some 0x9000 else if same_page 0x5000 h then Some 0x8000 else None)"
proof -
  have good: "good_frame 0x8000" "good_frame 0x9000" "root first_space \<in> {0x1000}" by code_simp+
  have "fst (map_frame first_fit first_space 0x5000 0x8000 False first_mem) = Ok ()" by code_simp
  then have 1: "map_frame first_fit first_space 0x5000 0x8000 False first_mem = (Ok (), one_page)"
    by (simp add: one_page_def prod_eq_iff)
  have "fst (map_frame first_fit first_space 0x6000 0x9000 False one_page) = Ok ()"
    unfolding one_page_def by code_simp
  then have 2: "map_frame first_fit first_space 0x6000 0x9000 False one_page = (Ok (), two_pages)"
    by (simp add: two_pages_def prod_eq_iff)
  note ok1 = map_frame_ok [OF first_space_ok good(1) 1]
  note ok2 = map_frame_ok [OF ok1(1) good(2) 2]
  show "space_ok first_fit {0x1000} first_space two_pages" by (rule ok2(1))
  have "ram first_mem = (\<lambda>x. 0)"
    by (simp add: first_mem_def guest_address_space_new_def alloc_table_def first_fit_def
        empty_mem_def good_frame_def is_frame_aligned_def action_defs)
  then show "ram two_pages = (\<lambda>x. 0)" using ok1(4) ok2(4) by simp
  have "lookup_frame first_space first_mem h = None"
    by (simp add: lookup_frame_def leaf_def leaf_at_def guest_path_def first_mem_def
        guest_address_space_new_def alloc_table_def first_fit_def empty_mem_def good_frame_def
        is_frame_aligned_def action_defs ept_table_default_def first_space_def)
  then show "lookup_frame first_space two_pages h =
    (if same_page 0x6000 h then Some 0x9000 else if same_page 0x5000 h then Some 0x8000 else None)"
    using ok1(3) [OF good(3), of h] ok2(3) [OF good(3), of h] by simp
qed

lemma two_pages_range:
  assumes "tables m = tables two_pages"
  shows "host_addr first_space m 0x5ffe = 0x8ffe" "host_addr first_space m 0x5fff = 0x8fff"
    "host_addr first_space m 0x6000 = 0x9000" "host_addr first_space m 0x6001 = 0x9001"
    "range_mapped first_space m 0x5ffe 4" "range_unaliased first_space m 0x5ffe 4"
proof -
  note l = two_pages_ok(3) [folded lookup_frame_cong [OF assms, of first_space]]
  have p: "\<not> same_page 0x6000 0x5ffe" "same_page 0x5000 0x5ffe" "\<not> same_page 0x6000 0x5fff"
    "same_page 0x5000 0x5fff" "same_page 0x6000 0x6000" "same_page 0x6000 0x6001" by code_simp+
  show h: "host_addr first_space m 0x5ffe = 0x8ffe" "host_addr first_space m 0x5fff = 0x8fff"
    "host_addr first_space m 0x6000 = 0x9000" "host_addr first_space m 0x6001 = 0x9001"
    using p by (simp_all add: host_addr_def l page_offset_def)
  have four: "i < 4 \<longleftrightarrow> i = 0 \<or> i = 1 \<or> i = 2 \<or> i = 3" for i :: nat by auto
  show "range_mapped first_space m 0x5ffe 4" "range_unaliased first_space m 0x5ffe 4"
    using p h by (auto simp: range_mapped_def range_unaliased_def four l)
qed

text \<open>
  C7: with paging off in the guest, \<open>read_bytes\<close> of a range whose pages are mapped
  returns, and returns exactly the bytes the address space has at the addresses of
  the range, across page boundaries.
\<close>

theorem read_bytes_no_paging:
  assumes "space_ok box_new R space m"
    and "range_mapped space m a (max 1 (unat len))"
    and "unat a mod BASE_PAGE_SIZE + unat len < 2 ^ 64"
  shows "read_bytes ea space cr3 (NoPaging a) len access m = Ok (guest_bytes space m a (unat len))"
  using assms by (rule read_bytes_guest_bytes)

theorem read_bytes_no_paging_witness:
  "read_bytes id first_space 0 (NoPaging 0x5ffe) 4 (Read 0) (two_pages\<lparr>ram := ucast\<rparr>) =
    Ok [0xfe, 0xff, 0x00, 0x01]"
proof -
  let ?m = "two_pages\<lparr>ram := ucast\<rparr>"
  have ok: "space_ok first_fit {0x1000} first_space ?m"
    by (rule space_ok_cong [OF two_pages_ok(1)]) simp_all
  have t: "tables ?m = tables two_pages" by simp
  have "[0..<4] = [0, 1, 2, 3 :: nat]" by code_simp
  then have "guest_bytes first_space ?m 0x5ffe 4 = [0xfe, 0xff, 0x00, 0x01]"
    using two_pages_range(1-4) [OF t] by (simp add: guest_bytes_def guest_byte_host_addr)
  then show ?thesis
    using read_bytes_no_paging [OF ok, of "0x5ffe" 4 id 0 "Read 0"] two_pages_range(5) [OF t]
    by (simp add: BASE_PAGE_SIZE_def)
qed

text \<open>
  C8: with paging off in the guest, \<open>write_bytes\<close> to a range whose pages are mapped
  to frames that do not overlap succeeds; the range then reads back as the bytes
  written, and no byte of the host outside the range's own bytes has changed.
\<close>

theorem write_bytes_no_paging:
  assumes "space_ok box_new R space m"
    and "range_mapped space m a (max 1 (length bs))"
    and "range_unaliased space m a (length bs)"
    and "write_bytes ea space cr3 (NoPaging a) bs access m = (res, m')"
  shows "res = Ok () \<and> guest_bytes space m' a (length bs) = bs \<and> tables m' = tables m \<and>
    (\<forall>x. x \<notin> (\<lambda>i. host_addr space m (a + of_nat i)) ` {..<length bs} \<longrightarrow> ram m' x = ram m x)"
proof -
  obtain m'' where w: "write_bytes ea space cr3 (NoPaging a) bs access m = (Ok (), m'')" "bytes_stored space a bs m m''"
    using write_bytes_stored [OF assms(1-3)] .
  with assms(4) have "res = Ok ()" "m'' = m'" by simp_all
  with w(2) guest_bytes_stored [OF w(2)] show ?thesis by (auto simp: bytes_stored_def)
qed

theorem write_bytes_no_paging_witness:
  "guest_bytes first_space
     (snd (write_bytes id first_space 0 (NoPaging 0x5ffe) [1, 2, 3, 4] (Write 0) two_pages)) 0x5ffe 4 =
   [1, 2, 3, 4]"
proof -
  have n: "length [1, 2, 3, 4 :: u8] = 4" "max 1 4 = (4 :: nat)" by simp_all
  note w = write_bytes_no_paging [OF two_pages_ok(1) _ _ prod.collapse [symmetric],
      of "0x5ffe" "[1, 2, 3, 4]", unfolded n, OF two_pages_range(5,6) [OF refl]]
  show ?thesis by (rule conjunct1 [OF conjunct2 [OF w]])
qed

end
