(* ===== verification/Virtdev.thy ===== *)
theory Virtdev
  imports Guest_Bytes
begin

text \<open>
  The interface of the virtual devices (\<open>src/mythril/src/virtdev/mod.rs\<close>): the
  requests of port and memory I/O, the events a device handles, and the map from
  ports and guest addresses to devices.

  A device handles an event as an action on the pair of its own state and the event:
  a read request is filled in, responses are appended, and guest memory changes when
  the device writes through the address space of the event.
\<close>

section \<open>Requests\<close>

type_synonym Port = u16

datatype PortReadRequest =
    ReadOneByte u8
  | ReadTwoBytes u8 u8
  | ReadFourBytes u8 u8 u8 u8

datatype PortWriteRequest =
    WriteOneByte u8
  | WriteTwoBytes u8 u8
  | WriteFourBytes u8 u8 u8 u8

primrec read_as_slice :: "PortReadRequest \<Rightarrow> u8 list" where
  "read_as_slice (ReadOneByte a) = [a]"
| "read_as_slice (ReadTwoBytes a b) = [a, b]"
| "read_as_slice (ReadFourBytes a b c d) = [a, b, c, d]"

definition read_len :: "PortReadRequest \<Rightarrow> nat" where
  "read_len r = length (read_as_slice r)"

text \<open>Storing bytes through \<open>as_mut_slice\<close>; the width of the request stays.\<close>

primrec read_store :: "PortReadRequest \<Rightarrow> u8 list \<Rightarrow> PortReadRequest" where
  "read_store (ReadOneByte a) bs = ReadOneByte (bs ! 0)"
| "read_store (ReadTwoBytes a b) bs = ReadTwoBytes (bs ! 0) (bs ! 1)"
| "read_store (ReadFourBytes a b c d) bs = ReadFourBytes (bs ! 0) (bs ! 1) (bs ! 2) (bs ! 3)"

definition copy_from_u32 :: "u32 \<Rightarrow> PortReadRequest \<Rightarrow> PortReadRequest" where
  "copy_from_u32 val r = read_store r (drop (4 - read_len r) (be_bytes 4 val))"

definition read_request_try_from :: "u8 list \<Rightarrow> PortReadRequest res" where
  "read_request_try_from buff =
    (case buff of
       [a] \<Rightarrow> Ok (ReadOneByte a)
     | [a, b] \<Rightarrow> Ok (ReadTwoBytes a b)
     | [a, b, c, d] \<Rightarrow> Ok (ReadFourBytes a b c d)
     | _ \<Rightarrow> Err InvalidValue)"

primrec write_as_slice :: "PortWriteRequest \<Rightarrow> u8 list" where
  "write_as_slice (WriteOneByte a) = [a]"
| "write_as_slice (WriteTwoBytes a b) = [a, b]"
| "write_as_slice (WriteFourBytes a b c d) = [a, b, c, d]"

definition write_as_u32 :: "PortWriteRequest \<Rightarrow> u32" where
  "write_as_u32 r =
    from_be_bytes
      (case r of
         WriteOneByte a \<Rightarrow> [0, 0, 0, a]
       | WriteTwoBytes a b \<Rightarrow> [0, 0, a, b]
       | WriteFourBytes a b c d \<Rightarrow> [a, b, c, d])"

definition write_request_try_from :: "u8 list \<Rightarrow> PortWriteRequest res" where
  "write_request_try_from buff =
    (case buff of
       [a] \<Rightarrow> Ok (WriteOneByte a)
     | [a, b] \<Rightarrow> Ok (WriteTwoBytes a b)
     | [a, b, c, d] \<Rightarrow> Ok (WriteFourBytes a b c d)
     | _ \<Rightarrow> Err InvalidValue)"

definition write_try_into_u8 :: "PortWriteRequest \<Rightarrow> u8 res" where
  "write_try_into_u8 r = (case r of WriteOneByte a \<Rightarrow> Ok a | _ \<Rightarrow> Err InvalidValue)"

definition write_try_into_u16 :: "PortWriteRequest \<Rightarrow> u16 res" where
  "write_try_into_u16 r =
    (case r of WriteTwoBytes a b \<Rightarrow> Ok (from_be_bytes [a, b]) | _ \<Rightarrow> Err InvalidValue)"

definition write_try_into_u32 :: "PortWriteRequest \<Rightarrow> u32 res" where
  "write_try_into_u32 r =
    (case r of WriteFourBytes a b c d \<Rightarrow> Ok (from_be_bytes [a, b, c, d]) | _ \<Rightarrow> Err InvalidValue)"

text \<open>A memory request is the bytes it carries.\<close>

type_synonym MemReadRequest = "u8 list"
type_synonym MemWriteRequest = "u8 list"

definition mem_write_try_into_u8 :: "MemWriteRequest \<Rightarrow> u8 res" where
  "mem_write_try_into_u8 req = (if length req = 1 then Ok (hd req) else Err InvalidValue)"

section \<open>Events\<close>

datatype DeviceEvent =
    HostUartReceived u8
  | MemRead GuestPhysAddr MemReadRequest
  | MemWrite GuestPhysAddr MemWriteRequest
  | PortRead Port PortReadRequest
  | PortWrite Port PortWriteRequest

datatype DeviceEventResponse =
    GuestUartTransmitted u8
  | NextConsole
  | GSI u32

definition MAX_EVENT_RESPONSES :: nat where
  "MAX_EVENT_RESPONSES = 8"

text \<open>An event with the address space of the guest, and the memory behind it.\<close>

record Event =
  event_kind :: DeviceEvent
  event_space :: GuestAddressSpaceView
  event_responses :: "DeviceEventResponse list"
  event_mem :: host_mem

type_synonym 'd handler = "('d \<times> Event, unit, Error) action"

definition push_response :: "DeviceEventResponse \<Rightarrow> Event \<Rightarrow> Event res" where
  "push_response r ev =
    and_then (array_push MAX_EVENT_RESPONSES (event_responses ev) r)
      (\<lambda>rs. Ok (ev\<lparr>event_responses := rs\<rparr>))"

section \<open>The device map\<close>

datatype DeviceRegion =
    PortIo Port Port
  | MemIo GuestPhysAddr GuestPhysAddr

datatype Ordering = Less | Equal | Greater

text \<open>\<open>Ord\<close> of \<open>PortIoRegion\<close> and \<open>MemIoRegion\<close>: regions that overlap are equal.\<close>

definition region_cmp :: "'k::linorder \<times> 'k \<Rightarrow> 'k \<times> 'k \<Rightarrow> Ordering" where
  "region_cmp x y =
    (if snd x < fst y then Less else if snd y < fst x then Greater else Equal)"

text \<open>
  A \<open>BTreeMap\<close> as the sequence of its entries in key order. A search passes the keys
  that are less than the one it looks for and stops at the first that is not.
\<close>

type_synonym ('k, 'd) region_map = "(('k \<times> 'k) \<times> 'd) list"

fun btree_get :: "'k::linorder \<times> 'k \<Rightarrow> ('k, 'd) region_map \<Rightarrow> (('k \<times> 'k) \<times> 'd) option" where
  "btree_get k [] = None"
| "btree_get k ((k', d) # m) =
    (case region_cmp k k' of
       Greater \<Rightarrow> btree_get k m
     | Equal \<Rightarrow> Some (k', d)
     | Less \<Rightarrow> None)"

fun btree_insert :: "'k::linorder \<times> 'k \<Rightarrow> 'd \<Rightarrow> ('k, 'd) region_map \<Rightarrow> ('k, 'd) region_map" where
  "btree_insert k d [] = [(k, d)]"
| "btree_insert k d ((k', d') # m) =
    (case region_cmp k k' of
       Greater \<Rightarrow> (k', d') # btree_insert k d m
     | Equal \<Rightarrow> (k', d) # m
     | Less \<Rightarrow> (k, d) # (k', d') # m)"

record 'd DeviceMap =
  portio_map :: "(Port, 'd) region_map"
  memio_map :: "(GuestPhysAddr, 'd) region_map"

definition device_map_default :: "'d DeviceMap" where
  "device_map_default = \<lparr>portio_map = [], memio_map = []\<rparr>"

text \<open>\<open>find_device\<close> for a port and for a guest address.\<close>

definition find_port :: "Port \<Rightarrow> 'd DeviceMap \<Rightarrow> 'd option" where
  "find_port p dm = map_option snd (btree_get (p, p) (portio_map dm))"

definition find_addr :: "GuestPhysAddr \<Rightarrow> 'd DeviceMap \<Rightarrow> 'd option" where
  "find_addr a dm = map_option snd (btree_get (a, a) (memio_map dm))"

text \<open>
  The loop of \<open>register_device\<close> over the services of the device: the first region
  that conflicts ends it, and the regions before stay registered.
\<close>

definition register_region :: "'d \<Rightarrow> DeviceRegion \<Rightarrow> ('d DeviceMap, unit, Error) action" where
  "register_region dev region dm =
    (case region of
       PortIo s e \<Rightarrow>
         (if btree_get (s, e) (portio_map dm) \<noteq> None then (Err InvalidDevice, dm)
          else (Ok (), dm\<lparr>portio_map := btree_insert (s, e) dev (portio_map dm)\<rparr>))
     | MemIo s e \<Rightarrow>
         (if btree_get (s, e) (memio_map dm) \<noteq> None then (Err InvalidDevice, dm)
          else (Ok (), dm\<lparr>memio_map := btree_insert (s, e) dev (memio_map dm)\<rparr>)))"

definition register_device :: "'d \<Rightarrow> DeviceRegion list \<Rightarrow> ('d DeviceMap, unit, Error) action" where
  "register_device dev services = for_each (register_region dev) services"

section \<open>Requests carry integers\<close>

lemma read_len_cases: "read_len r \<in> {1, 2, 4}"
  by (cases r) (simp_all add: read_len_def)

lemma read_as_slice_store:
  "length bs = read_len r \<Longrightarrow> read_as_slice (read_store r bs) = bs"
  by (cases r) (auto simp: read_len_def length_Suc_conv numeral_eq_Suc)

lemma read_len_store [simp]: "read_len (read_store r bs) = read_len r"
  by (cases r) (simp_all add: read_len_def)

lemma read_len_copy [simp]: "read_len (copy_from_u32 v r) = read_len r"
  by (simp add: copy_from_u32_def)

lemma read_as_slice_copy:
  "read_as_slice (copy_from_u32 v r) = be_bytes (read_len r) v"
proof -
  have "drop (4 - n) (be_bytes 4 v) = be_bytes n v" if "n \<in> {1, 2, 4}" for n
    using that by (auto simp: be_bytes_def numeral_eq_Suc)
  then show ?thesis
    using read_len_cases [of r] by (simp add: copy_from_u32_def read_as_slice_store)
qed

lemma read_request_try_from_Ok:
  "read_request_try_from bs = Ok r \<longleftrightarrow> bs = read_as_slice r"
  by (cases r) (auto simp: read_request_try_from_def split: list.splits)

lemma write_request_try_from_Ok:
  "write_request_try_from bs = Ok r \<longleftrightarrow> bs = write_as_slice r"
  by (cases r) (auto simp: write_request_try_from_def split: list.splits)

lemma write_as_u32_slice: "write_as_u32 r = from_be_bytes (write_as_slice r)"
  by (cases r) (simp_all add: write_as_u32_def from_be_bytes_def)

section \<open>Lookup in the device map\<close>

fun regions_sorted :: "('k::linorder, 'd) region_map \<Rightarrow> bool" where
  "regions_sorted [] \<longleftrightarrow> True"
| "regions_sorted (((s, e), d) # m) \<longleftrightarrow>
    s \<le> e \<and> (\<forall>((s', e'), d') \<in> set m. e < s') \<and> regions_sorted m"

lemma btree_get_overlap:
  assumes "regions_sorted m" "s \<le> e"
  shows "btree_get (s, e) m = Some ((s', e'), d) \<Longrightarrow> ((s', e'), d) \<in> set m \<and> s \<le> e' \<and> s' \<le> e"
    and "btree_get (s, e) m = None \<longleftrightarrow> (\<forall>((s', e'), d) \<in> set m. e < s' \<or> e' < s)"
  using assms
  by (induction "(s, e)" m rule: btree_get.induct)
     (fastforce simp: region_cmp_def split: Ordering.splits if_splits)+

text \<open>The device of a point, by the regions that contain it.\<close>

lemma btree_get_point:
  assumes "regions_sorted m"
  shows "map_option snd (btree_get (x, x) m) = Some d \<longleftrightarrow> (\<exists>s e. ((s, e), d) \<in> set m \<and> s \<le> x \<and> x \<le> e)"
  using assms
  by (induction "(x, x)" m rule: btree_get.induct)
     (fastforce simp: region_cmp_def split: Ordering.splits if_splits)+

lemma set_btree_insert:
  "btree_get k m = None \<Longrightarrow> set (btree_insert k d m) = insert (k, d) (set m)"
  by (induction k d m rule: btree_insert.induct) (auto split: Ordering.splits)

lemma regions_sorted_insert:
  assumes "regions_sorted m" "s \<le> e" "btree_get (s, e) m = None"
  shows "regions_sorted (btree_insert (s, e) d m)"
  using assms
  by (induction "(s, e)" d m rule: btree_insert.induct)
     (fastforce simp: region_cmp_def set_btree_insert split: Ordering.splits if_splits)+

lemma btree_get_point_insert:
  assumes "regions_sorted m" "s \<le> e" "btree_get (s, e) m = None"
  shows "map_option snd (btree_get (x, x) (btree_insert (s, e) d m)) =
    (if s \<le> x \<and> x \<le> e then Some d else map_option snd (btree_get (x, x) m))"
    (is "?new = ?rhs")
proof -
  note sorted = regions_sorted_insert [OF assms, of d]
  note ins = set_btree_insert [OF assms(3), of d]
  have none: "\<not> (s' \<le> x \<and> x \<le> e')" if "((s', e'), d') \<in> set m" "s \<le> x" "x \<le> e" for s' e' d'
    using that assms btree_get_overlap(2) [OF assms(1,2)] by fastforce
  have "?new = Some c \<longleftrightarrow> ?rhs = Some c" for c
    using btree_get_point [OF sorted, of x c] btree_get_point [OF assms(1), of x c] none
    by (auto simp: ins)
  then show ?thesis by (metis option.exhaust)
qed

lemma btree_get_free_iff:
  assumes "regions_sorted m" "s \<le> e"
  shows "btree_get (s, e) m = None \<longleftrightarrow> (\<forall>x. s \<le> x \<and> x \<le> e \<longrightarrow> btree_get (x, x) m = None)"
proof -
  have wf: "s' \<le> e'" if "((s', e'), d) \<in> set m" for s' e' d
    using assms(1) that by (induction m rule: regions_sorted.induct) auto
  show ?thesis
    unfolding btree_get_overlap(2) [OF assms] btree_get_overlap(2) [OF assms(1) order_refl]
  proof (intro iffI; clarsimp)
    fix x s' e' d
    assume "\<forall>x\<in>set m. case x of (x, xa) \<Rightarrow> (case x of (s', e') \<Rightarrow> \<lambda>d. e < s' \<or> e' < s) xa"
      "s \<le> x" "x \<le> e" "((s', e'), d) \<in> set m" "\<not> e' < x"
    then show "x < s'" by fastforce
  next
    fix s' e' d
    assume all: "\<forall>x. s \<le> x \<and> x \<le> e \<longrightarrow>
        (\<forall>xa\<in>set m. case xa of (xa, xb) \<Rightarrow> (case xa of (s', e') \<Rightarrow> \<lambda>d. x < s' \<or> e' < x) xb)"
      and m: "((s', e'), d) \<in> set m" and "\<not> e' < s"
    then have "e' \<ge> s" "s' \<le> e'" using wf by auto
    moreover have "max s s' < s' \<or> e' < max s s'" if "\<not> e < s'"
      using all [rule_format, OF _ m, of "max s s'"] that assms(2) by simp
    ultimately show "e < s'" by (intro ccontr [of "e < s'"]) (auto simp: max_def split: if_splits)
  qed
qed

section \<open>The registry as an interface\<close>

text \<open>What a guest access names: a port or an address.\<close>

datatype Ident = AtPort Port | AtAddr GuestPhysAddr

primrec find_device :: "Ident \<Rightarrow> 'd DeviceMap \<Rightarrow> 'd option" where
  "find_device (AtPort p) dm = find_port p dm"
| "find_device (AtAddr a) dm = find_addr a dm"

fun in_region :: "Ident \<Rightarrow> DeviceRegion \<Rightarrow> bool" where
  "in_region (AtPort p) (PortIo s e) \<longleftrightarrow> s \<le> p \<and> p \<le> e"
| "in_region (AtAddr a) (MemIo s e) \<longleftrightarrow> s \<le> a \<and> a \<le> e"
| "in_region _ _ \<longleftrightarrow> False"

fun region_ok :: "DeviceRegion \<Rightarrow> bool" where
  "region_ok (PortIo s e) \<longleftrightarrow> s \<le> e"
| "region_ok (MemIo s e) \<longleftrightarrow> s \<le> e"

definition device_map_ok :: "'d DeviceMap \<Rightarrow> bool" where
  "device_map_ok dm \<longleftrightarrow> regions_sorted (portio_map dm) \<and> regions_sorted (memio_map dm)"

text \<open>
  A registry of devices: registering a region fails, and changes nothing, exactly
  when a point of it already has a device, and otherwise gives the region to the
  device and leaves every other point as it was.
\<close>

locale device_registry =
  fixes inv :: "'m \<Rightarrow> bool"
    and find :: "Ident \<Rightarrow> 'm \<Rightarrow> 'd option"
    and register :: "'d \<Rightarrow> DeviceRegion \<Rightarrow> ('m, unit, Error) action"
  assumes register_inv: "inv m \<Longrightarrow> region_ok r \<Longrightarrow> inv (snd (register d r m))"
    and register_free: "inv m \<Longrightarrow> region_ok r \<Longrightarrow> (\<And>x. in_region x r \<Longrightarrow> find x m = None) \<Longrightarrow>
      fst (register d r m) = Ok () \<and>
      find y (snd (register d r m)) = (if in_region y r then Some d else find y m)"
    and register_taken: "inv m \<Longrightarrow> region_ok r \<Longrightarrow> in_region x r \<Longrightarrow> find x m \<noteq> None \<Longrightarrow>
      register d r m = (Err InvalidDevice, m)"
begin

lemma register_cases:
  assumes "inv m" "region_ok r"
  obtains (free) m' where "register d r m = (Ok (), m')" "inv m'"
      "\<And>y. find y m' = (if in_region y r then Some d else find y m)"
      "\<And>x. in_region x r \<Longrightarrow> find x m = None"
  | (taken) "register d r m = (Err InvalidDevice, m)" "\<exists>x. in_region x r \<and> find x m \<noteq> None"
proof (cases "\<exists>x. in_region x r \<and> find x m \<noteq> None")
  case True
  then show ?thesis using taken register_taken [OF assms] by blast
next
  case False
  then show ?thesis
    using free [of "snd (register d r m)"] register_free [OF assms] register_inv [OF assms]
    by (metis prod.collapse)
qed

text \<open>Registering all the regions of a device, as the loop does.\<close>

lemma register_all_inv:
  "inv m \<Longrightarrow> list_all region_ok rs \<Longrightarrow> inv (snd (for_each (register d) rs m))"
  by (rule for_each_invariant) (auto simp: list_all_iff intro: register_inv)

lemma register_all_keeps:
  assumes "inv m" "list_all region_ok rs" "find y m = Some d'"
  shows "find y (snd (for_each (register d) rs m)) = Some d'"
  using assms
proof (induction rs arbitrary: m)
  case (Cons r rs)
  then have "region_ok r" by simp
  with \<open>inv m\<close> show ?case
  proof (cases rule: register_cases [where d = d])
    case (free m')
    then have "find y m' = Some d'" using free(3) [of y] free(4) [of y] Cons.prems(3) by fastforce
    then show ?thesis using Cons free(1,2) by (simp add: bind_state_def)
  next
    case taken
    then show ?thesis using Cons.prems by (simp add: bind_state_def)
  qed
qed (simp add: return_state_def)

lemma register_all_Ok:
  assumes "inv m" "list_all region_ok rs" "for_each (register d) rs m = (Ok (), m')"
  shows "find y m' = (if \<exists>r \<in> set rs. in_region y r then Some d else find y m)"
  using assms
proof (induction rs arbitrary: m)
  case (Cons r rs)
  then have "region_ok r" by simp
  with \<open>inv m\<close> show ?case
  proof (cases rule: register_cases [where d = d])
    case (free m1)
    then show ?thesis using Cons by (auto simp: bind_state_def)
  next
    case taken
    then show ?thesis using Cons.prems by (simp add: bind_state_def)
  qed
qed (simp add: return_state_def)

text \<open>The first conflict ends the loop with an error, and there is no other error.\<close>

lemma register_all_result:
  assumes "inv m" "list_all region_ok rs"
  shows "fst (for_each (register d) rs m) \<in> {Ok (), Err InvalidDevice}"
    and "\<exists>r \<in> set rs. \<exists>x. in_region x r \<and> find x m \<noteq> None \<Longrightarrow>
      fst (for_each (register d) rs m) = Err InvalidDevice"
  using assms
proof (induction rs arbitrary: m)
  case (Cons r rs)
  {
    case 1
    then have "region_ok r" by simp
    with \<open>inv m\<close> show ?case
      using 1 Cons.IH(1) by (cases rule: register_cases [where d = d]) (auto simp: bind_state_def)
  next
    case 2
    then have "region_ok r" by simp
    with \<open>inv m\<close> show ?case
    proof (cases rule: register_cases [where d = d])
      case (free m')
      then have "\<exists>r \<in> set rs. \<exists>x. in_region x r \<and> find x m' \<noteq> None" using 2(1) by (simp; fastforce)
      then show ?thesis using 2 free Cons.IH(2) [of m'] by (simp add: bind_state_def)
    next
      case taken
      then show ?thesis by (simp add: bind_state_def)
    qed
  }
qed (simp_all add: return_state_def)

end

lemma register_region_port:
  assumes "device_map_ok dm" "s \<le> e"
  shows "btree_get (s, e) (portio_map dm) = None \<longleftrightarrow> (\<forall>x. s \<le> x \<and> x \<le> e \<longrightarrow> find_port x dm = None)"
proof -
  have sorted: "regions_sorted (portio_map dm)" using assms(1) by (simp add: device_map_ok_def)
  show ?thesis by (simp add: find_port_def btree_get_free_iff [OF sorted assms(2)])
qed

lemma register_region_mem:
  assumes "device_map_ok dm" "s \<le> e"
  shows "btree_get (s, e) (memio_map dm) = None \<longleftrightarrow> (\<forall>x. s \<le> x \<and> x \<le> e \<longrightarrow> find_addr x dm = None)"
proof -
  have sorted: "regions_sorted (memio_map dm)" using assms(1) by (simp add: device_map_ok_def)
  show ?thesis by (simp add: find_addr_def btree_get_free_iff [OF sorted assms(2)])
qed

interpretation registry: device_registry device_map_ok find_device register_region
proof
  fix dm :: "'d DeviceMap" and r x y d
  assume ok: "device_map_ok dm" and r: "region_ok r"
  note sorted = ok [unfolded device_map_ok_def]
  show "device_map_ok (snd (register_region d r dm))"
    using sorted r
    by (cases r) (simp_all add: register_region_def device_map_ok_def regions_sorted_insert del: not_None_eq)
  show "register_region d r dm = (Err InvalidDevice, dm)" if "in_region x r" "find_device x dm \<noteq> None"
    using that r register_region_port [OF ok] register_region_mem [OF ok]
    by (cases r; cases x) (auto simp: register_region_def simp del: not_None_eq)
  show "fst (register_region d r dm) = Ok () \<and>
      find_device y (snd (register_region d r dm)) = (if in_region y r then Some d else find_device y dm)"
    if "\<And>x. in_region x r \<Longrightarrow> find_device x dm = None"
  proof (cases r)
    case (PortIo s e)
    then have "btree_get (s, e) (portio_map dm) = None"
      using r that [of "AtPort _"] register_region_port [OF ok, of s e] by simp
    then show ?thesis
      using PortIo r sorted btree_get_point_insert [of "portio_map dm" s e _ d]
      by (cases y) (auto simp: register_region_def find_port_def find_addr_def)
  next
    case (MemIo s e)
    then have "btree_get (s, e) (memio_map dm) = None"
      using r that [of "AtAddr _"] register_region_mem [OF ok, of s e] by simp
    then show ?thesis
      using MemIo r sorted btree_get_point_insert [of "memio_map dm" s e _ d]
      by (cases y) (auto simp: register_region_def find_port_def find_addr_def)
  qed
qed

section \<open>Properties\<close>

text \<open>
  C9: registering a device takes over exactly its own regions. Once \<open>register_device\<close>
  has succeeded, every port and every address the device services is dispatched to
  it, and every other one to the device it had before.
\<close>

theorem register_device_find:
  assumes "device_map_ok dm" "list_all region_ok services"
    and "register_device d services dm = (Ok (), dm')"
  shows "device_map_ok dm' \<and>
    find_device x dm' = (if \<exists>r \<in> set services. in_region x r then Some d else find_device x dm)"
  using registry.register_all_Ok [OF assms(1,2), of d dm' x] registry.register_all_inv [OF assms(1,2), of d]
    assms(3)
  by (simp add: register_device_def)

theorem register_device_find_witness:
  "find_device (AtPort 0x3f9) (snd (register_device (1 :: nat) [PortIo 0x3f8 0x3ff, PortIo 0x60 0x64]
     device_map_default)) = Some 1"
proof -
  let ?r = "register_device (1 :: nat) [PortIo 0x3f8 0x3ff, PortIo 0x60 0x64] device_map_default"
  have "fst ?r = Ok ()" by code_simp
  then have r: "?r = (Ok (), snd ?r)" by (metis prod.collapse)
  show ?thesis
    using register_device_find [OF _ _ r, of "AtPort 0x3f9"]
    by (simp add: device_map_ok_def device_map_default_def)
qed

text \<open>
  C11: a device whose region overlaps a region already registered, in part or in
  full, is refused with \<open>InvalidDevice\<close>, and no port or address that had a device is
  taken from it.
\<close>

theorem register_device_conflict:
  assumes "device_map_ok dm" "list_all region_ok services"
    and "r \<in> set services" "in_region x r" "find_device x dm = Some d0"
  shows "fst (register_device d services dm) = Err InvalidDevice \<and>
    device_map_ok (snd (register_device d services dm)) \<and>
    (\<forall>y e. find_device y dm = Some e \<longrightarrow> find_device y (snd (register_device d services dm)) = Some e)"
  using registry.register_all_result(2) [OF assms(1,2)] registry.register_all_inv [OF assms(1,2)]
    registry.register_all_keeps [OF assms(1,2)] assms(3-5)
  unfolding register_device_def by (metis option.distinct(1))

theorem register_device_conflict_witness:
  "fst (register_device (2 :: nat) [PortIo 3 8]
     (snd (register_device 1 [PortIo 0 4] device_map_default))) = Err InvalidDevice"
proof -
  let ?dm = "snd (register_device (1 :: nat) [PortIo 0 4] device_map_default)"
  have "?dm = \<lparr>portio_map = [((0, 4), 1)], memio_map = []\<rparr>" by code_simp
  then have "device_map_ok ?dm" "find_device (AtPort 4) ?dm = Some 1"
    by (simp_all add: device_map_ok_def find_port_def region_cmp_def)
  then show ?thesis
    using register_device_conflict [of ?dm "[PortIo 3 8]" "PortIo 3 8" "AtPort 4"] by simp
qed

text \<open>
  An integer crosses a port unchanged. The bytes \<open>copy_from_u32\<close> stores in a read
  request, taken as a write request of the same width, are read by \<open>as_u32\<close> as the
  integer cut to that width; and a buffer is a request exactly when it has 1, 2 or 4
  bytes.
\<close>

theorem port_request_roundtrip:
  "(write_request_try_from (read_as_slice (copy_from_u32 v r)) = Ok w \<longrightarrow>
      write_as_u32 w = take_bit (8 * read_len r) v) \<and>
   (is_ok (write_request_try_from bs) \<longleftrightarrow> length bs \<in> {1, 2, 4}) \<and>
   (is_ok (read_request_try_from bs) \<longleftrightarrow> length bs \<in> {1, 2, 4})"
  by (auto simp: write_request_try_from_Ok read_as_slice_copy write_as_u32_slice
      write_request_try_from_def read_request_try_from_def from_be_bytes_be_bytes
      split: list.splits dest: sym)

theorem port_request_roundtrip_witness:
  "write_as_u32 (WriteTwoBytes 0x12 0x34) = 0x1234"
proof -
  have "read_as_slice (copy_from_u32 0x1234 (ReadTwoBytes 0 0)) = [0x12, 0x34]" by code_simp
  moreover have "take_bit 16 (0x1234 :: u32) = 0x1234" by code_simp
  ultimately show ?thesis
    using port_request_roundtrip [of "0x1234" "ReadTwoBytes 0 0" "WriteTwoBytes 0x12 0x34" "[]"]
    by (simp add: write_request_try_from_def read_len_def)
qed

end
