(* ===== verification/Apic.thy ===== *)
theory Apic
  imports Errors
begin

text \<open>
  The physical local APIC of a core (\<open>src/mythril/src/apic.rs\<close>), core identifiers
  (\<open>percore.rs\<close>) and interrupt numbers (\<open>interrupt/mod.rs\<close>). The APIC is programmed
  through MSRs; the state keeps the writes in the order they are made and the
  values the processor gives to the registers that are read.
\<close>

section \<open>Identifiers\<close>

type_synonym CoreId = u32
type_synonym ApicId = u32

definition is_bsp :: "ApicId \<Rightarrow> bool" where
  "is_bsp raw \<longleftrightarrow> raw = 0"

definition vector_UART :: u8 where "vector_UART = 36"
definition vector_TIMER :: u8 where "vector_TIMER = 48"
definition vector_IPC :: u8 where "vector_IPC = 49"
definition gsi_PIT :: u32 where "gsi_PIT = 0"
definition gsi_UART :: u32 where "gsi_UART = 4"

section \<open>Fields of the interrupt command register\<close>

datatype DstShorthand = NoShorthand | MySelf | AllIncludingSelf | AllExcludingSelf
datatype Level = DeAssert | Assert
datatype TriggerMode = Edge | LevelTriggered
datatype DstMode = Physical | Logical
datatype DeliveryMode = Fixed | Reserved0 | SMI | Reserved1 | NMI | Init | StartUp | Reserved2

primrec dst_shorthand_code :: "DstShorthand \<Rightarrow> u8" where
  "dst_shorthand_code NoShorthand = 0x00"
| "dst_shorthand_code MySelf = 0x01"
| "dst_shorthand_code AllIncludingSelf = 0x02"
| "dst_shorthand_code AllExcludingSelf = 0x03"

primrec level_code :: "Level \<Rightarrow> u8" where
  "level_code DeAssert = 0x00"
| "level_code Assert = 0x01"

primrec trigger_mode_code :: "TriggerMode \<Rightarrow> u8" where
  "trigger_mode_code Edge = 0x00"
| "trigger_mode_code LevelTriggered = 0x01"

primrec dst_mode_code :: "DstMode \<Rightarrow> u8" where
  "dst_mode_code Physical = 0x00"
| "dst_mode_code Logical = 0x01"

primrec delivery_mode_code :: "DeliveryMode \<Rightarrow> u8" where
  "delivery_mode_code Fixed = 0x00"
| "delivery_mode_code Reserved0 = 0x01"
| "delivery_mode_code SMI = 0x02"
| "delivery_mode_code Reserved1 = 0x03"
| "delivery_mode_code NMI = 0x04"
| "delivery_mode_code Init = 0x05"
| "delivery_mode_code StartUp = 0x06"
| "delivery_mode_code Reserved2 = 0x07"

definition dst_shorthands :: "DstShorthand list" where
  "dst_shorthands = [NoShorthand, MySelf, AllIncludingSelf, AllExcludingSelf]"

definition levels :: "Level list" where
  "levels = [DeAssert, Assert]"

definition trigger_modes :: "TriggerMode list" where
  "trigger_modes = [Edge, LevelTriggered]"

definition dst_modes :: "DstMode list" where
  "dst_modes = [Physical, Logical]"

definition delivery_modes :: "DeliveryMode list" where
  "delivery_modes = [Fixed, Reserved0, SMI, Reserved1, NMI, Init, StartUp, Reserved2]"

section \<open>The local APIC\<close>

datatype ApicMsr =
    IA32_APIC_BASE | IA32_X2APIC_APICID | IA32_X2APIC_SIVR | IA32_X2APIC_ESR | IA32_X2APIC_EOI
  | IA32_X2APIC_ICR | IA32_X2APIC_SELF_IPI | IA32_X2APIC_DIV_CONF | IA32_X2APIC_INIT_COUNT
  | IA32_X2APIC_LVT_TIMER | IA32_X2APIC_CUR_COUNT | IA32_X2APIC_VERSION

text \<open>The state of the core the code runs on, as far as its local APIC is concerned.\<close>

record core_state =
  this_core :: CoreId
  apic_regs :: "ApicMsr \<Rightarrow> u64"
  msr_writes :: "(ApicMsr \<times> u64) list"
  base_reg :: u64
  ticks_per_ms :: u64

text \<open>
  \<open>apic_regs\<close> is what \<open>rdmsr\<close> gives: of a register that was written, the value
  written (the code reads back only \<open>IA32_APIC_BASE\<close>, which is plain storage).
\<close>

definition wrmsr :: "ApicMsr \<Rightarrow> u64 \<Rightarrow> 'a core_state_scheme \<Rightarrow> 'a core_state_scheme" where
  "wrmsr r v c = c\<lparr>apic_regs := (apic_regs c)(r := v), msr_writes := msr_writes c @ [(r, v)]\<rparr>"

definition IA32_APIC_BASE_MASK :: u64 where "IA32_APIC_BASE_MASK = 0xfffff000"
definition IA32_APIC_BASE_EN :: u64 where "IA32_APIC_BASE_EN = push_bit 11 1"
definition IA32_APIC_BASE_EXD :: u64 where "IA32_APIC_BASE_EXD = push_bit 10 1"
definition IA32_APIC_BASE_BSP :: u64 where "IA32_APIC_BASE_BSP = push_bit 8 1"

definition apic_id :: "'a core_state_scheme \<Rightarrow> ApicId" where
  "apic_id c = ucast (apic_regs c IA32_X2APIC_APICID)"

definition logical_id :: "'a core_state_scheme \<Rightarrow> u32" where
  "logical_id c =
    (let id = ucast (apic_regs c IA32_X2APIC_APICID) :: u32
     in push_bit 16 (id AND 0xfffffff0) OR push_bit (unat (id AND 0xf)) 1)"

definition apic_bsp :: "'a core_state_scheme \<Rightarrow> bool" where
  "apic_bsp c \<longleftrightarrow> base_reg c AND IA32_APIC_BASE_BSP \<noteq> 0"

definition apic_base :: "'a core_state_scheme \<Rightarrow> u64" where
  "apic_base c = base_reg c AND IA32_APIC_BASE_MASK"

definition clear_esr :: "'a core_state_scheme \<Rightarrow> 'a core_state_scheme" where
  "clear_esr c = wrmsr IA32_X2APIC_ESR 0x00 c"

definition eoi :: "'a core_state_scheme \<Rightarrow> 'a core_state_scheme" where
  "eoi c = wrmsr IA32_X2APIC_EOI 0x00 c"

text \<open>The value \<open>send_ipi\<close> puts into the interrupt command register.\<close>

definition icr_value ::
  "ApicId \<Rightarrow> DstShorthand \<Rightarrow> TriggerMode \<Rightarrow> Level \<Rightarrow> DstMode \<Rightarrow> DeliveryMode \<Rightarrow> u8 \<Rightarrow> u64" where
  "icr_value dst dst_short trigger level dst_mode delivery_mode vector =
    push_bit 32 (ucast dst)
    OR push_bit 18 (ucast (dst_shorthand_code dst_short))
    OR push_bit 15 (ucast (trigger_mode_code trigger))
    OR push_bit 14 (ucast (level_code level))
    OR push_bit 11 (ucast (dst_mode_code dst_mode))
    OR push_bit 8 (ucast (delivery_mode_code delivery_mode))
    OR ucast vector"

definition send_ipi ::
  "ApicId \<Rightarrow> DstShorthand \<Rightarrow> TriggerMode \<Rightarrow> Level \<Rightarrow> DstMode \<Rightarrow> DeliveryMode \<Rightarrow> u8 \<Rightarrow>
    'a core_state_scheme \<Rightarrow> 'a core_state_scheme" where
  "send_ipi dst dst_short trigger level dst_mode delivery_mode vector =
    wrmsr IA32_X2APIC_ICR (icr_value dst dst_short trigger level dst_mode delivery_mode vector)"

definition self_ipi :: "u8 \<Rightarrow> 'a core_state_scheme \<Rightarrow> 'a core_state_scheme" where
  "self_ipi vector = wrmsr IA32_X2APIC_SELF_IPI (ucast vector)"

text \<open>
  \<open>schedule_interrupt\<close>, with the distance to the requested time in microseconds:
  \<open>ticks as u64\<close> of a product of \<open>u128\<close>s.
\<close>

definition schedule_ticks :: "nat \<Rightarrow> u8 \<Rightarrow> 'a core_state_scheme \<Rightarrow> 'a core_state_scheme" where
  "schedule_ticks micros vector c =
    (let ticks = (micros * unat (ticks_per_ms c)) mod 2 ^ 128 div 1000
     in wrmsr IA32_X2APIC_INIT_COUNT (of_nat ticks)
         (wrmsr IA32_X2APIC_LVT_TIMER (ucast vector) (wrmsr IA32_X2APIC_DIV_CONF 0x3 c)))"

section \<open>Decoding what was encoded\<close>

interpretation dst_shorthand: primitive_enum dst_shorthands dst_shorthand_code
proof
  show "v \<in> set dst_shorthands" for v by (cases v) (simp_all add: dst_shorthands_def)
  show "distinct (map dst_shorthand_code dst_shorthands)" by (simp add: dst_shorthands_def)
qed

interpretation level: primitive_enum levels level_code
proof
  show "v \<in> set levels" for v by (cases v) (simp_all add: levels_def)
  show "distinct (map level_code levels)" by (simp add: levels_def)
qed

interpretation trigger_mode: primitive_enum trigger_modes trigger_mode_code
proof
  show "v \<in> set trigger_modes" for v by (cases v) (simp_all add: trigger_modes_def)
  show "distinct (map trigger_mode_code trigger_modes)" by (simp add: trigger_modes_def)
qed

interpretation dst_mode: primitive_enum dst_modes dst_mode_code
proof
  show "v \<in> set dst_modes" for v by (cases v) (simp_all add: dst_modes_def)
  show "distinct (map dst_mode_code dst_modes)" by (simp add: dst_modes_def)
qed

interpretation delivery_mode: primitive_enum delivery_modes delivery_mode_code
proof
  show "v \<in> set delivery_modes" for v by (cases v) (simp_all add: delivery_modes_def)
  show "distinct (map delivery_mode_code delivery_modes)" by (simp add: delivery_modes_def)
qed

text \<open>A bit field of a word that was built from disjoint fields.\<close>

lemma code_bits:
  "bit (dst_shorthand_code s) n \<Longrightarrow> n < 2" "bit (trigger_mode_code t) n \<Longrightarrow> n < 1"
  "bit (level_code l) n \<Longrightarrow> n < 1" "bit (dst_mode_code d) n \<Longrightarrow> n < 1"
  "bit (delivery_mode_code m) n \<Longrightarrow> n < 3"
proof -
  have s: "take_bit 2 (dst_shorthand_code s) = dst_shorthand_code s" by (cases s) simp_all
  show "bit (dst_shorthand_code s) n \<Longrightarrow> n < 2" by (subst (asm) s [symmetric]) (simp add: bit_simps)
  have t: "take_bit 1 (trigger_mode_code t) = trigger_mode_code t" by (cases t) simp_all
  show "bit (trigger_mode_code t) n \<Longrightarrow> n < 1" by (subst (asm) t [symmetric]) (simp add: bit_simps)
  have l: "take_bit 1 (level_code l) = level_code l" by (cases l) simp_all
  show "bit (level_code l) n \<Longrightarrow> n < 1" by (subst (asm) l [symmetric]) (simp add: bit_simps)
  have d: "take_bit 1 (dst_mode_code d) = dst_mode_code d" by (cases d) simp_all
  show "bit (dst_mode_code d) n \<Longrightarrow> n < 1" by (subst (asm) d [symmetric]) (simp add: bit_simps)
  have m: "take_bit 3 (delivery_mode_code m) = delivery_mode_code m" by (cases m) simp_all
  show "bit (delivery_mode_code m) n \<Longrightarrow> n < 3" by (subst (asm) m [symmetric]) (simp add: bit_simps)
qed

lemma no_code_bits:
  "2 \<le> n \<Longrightarrow> \<not> bit (dst_shorthand_code s) n" "1 \<le> n \<Longrightarrow> \<not> bit (trigger_mode_code t) n"
  "1 \<le> n \<Longrightarrow> \<not> bit (level_code l) n" "1 \<le> n \<Longrightarrow> \<not> bit (dst_mode_code d) n"
  "3 \<le> n \<Longrightarrow> \<not> bit (delivery_mode_code m) n"
  using code_bits by (metis not_less)+

text \<open>The fields of the interrupt command register do not overlap.\<close>

lemma icr_value_fields:
  fixes v :: u8 and dst s t l d m
  defines "icr \<equiv> icr_value dst s t l d m v"
  shows "ucast (drop_bit 32 icr) = dst"
    and "ucast (take_bit 2 (drop_bit 18 icr)) = dst_shorthand_code s"
    and "ucast (take_bit 1 (drop_bit 15 icr)) = trigger_mode_code t"
    and "ucast (take_bit 1 (drop_bit 14 icr)) = level_code l"
    and "ucast (take_bit 1 (drop_bit 11 icr)) = dst_mode_code d"
    and "ucast (take_bit 3 (drop_bit 8 icr)) = delivery_mode_code m"
    and "ucast icr = v"
proof -
  have v: "8 \<le> n \<Longrightarrow> \<not> bit v n" for n using bit_imp_le_length [of v n] by auto
  have dst: "32 \<le> n \<Longrightarrow> \<not> bit dst n" for n using bit_imp_le_length [of dst n] by auto
  note bits = icr_def icr_value_def o_apply bit_ucast_iff bit_drop_bit_eq bit_take_bit_iff bit_or_iff bit_push_bit_iff
  note none = no_code_bits v dst
  show "ucast (drop_bit 32 icr) = dst"
    by (intro bit_word_eqI, simp only: bits) (auto simp: none)
  show "ucast (take_bit 2 (drop_bit 18 icr)) = dst_shorthand_code s"
    by (intro bit_word_eqI, simp only: bits) (auto simp: none dest: code_bits)
  show "ucast (take_bit 1 (drop_bit 15 icr)) = trigger_mode_code t"
    by (intro bit_word_eqI, simp only: bits) (auto simp: none dest: code_bits)
  show "ucast (take_bit 1 (drop_bit 14 icr)) = level_code l"
    by (intro bit_word_eqI, simp only: bits) (auto simp: none dest: code_bits)
  show "ucast (take_bit 1 (drop_bit 11 icr)) = dst_mode_code d"
    by (intro bit_word_eqI, simp only: bits) (auto simp: none dest: code_bits)
  show "ucast (take_bit 3 (drop_bit 8 icr)) = delivery_mode_code m"
    by (intro bit_word_eqI, simp only: bits) (auto simp: none dest: code_bits)
  show "ucast icr = v"
    by (intro bit_word_eqI, simp only: bits) (auto simp: none)
qed

end
