(* ===== verification/Messages.thy ===== *)
theory Messages
  imports Virtdev Apic
begin

text \<open>
  The virtual machine set of \<open>vm.rs\<close>: the machines, the cores assigned to them and
  the message queue of each core. \<open>send_msg_core\<close>, \<open>send_msg\<close>, \<open>recv_msg\<close> and
  \<open>recv_all_msgs\<close> act on the queues; a notified receiver is interrupted through the
  local APIC of the sender.

  A \<open>Pin<&VirtualMachine>\<close> is the index of the machine in the set (machines are never
  moved or removed), an \<open>&RwLock<dyn EmulatedDevice>\<close> the index of the device in its
  machine. \<open>ArrayDeque\<close> saturates: \<open>push_back\<close> on a full queue returns the element.
\<close>

section \<open>Machines and messages\<close>

datatype TimerId = TimerId (timer_id: u64) (timer_core_id: CoreId)

text \<open>The derived \<open>Ord\<close>: by counter, then by core.\<close>

instantiation TimerId :: linorder
begin

definition less_eq_TimerId :: "TimerId \<Rightarrow> TimerId \<Rightarrow> bool" where
  "less_eq_TimerId x y \<longleftrightarrow>
    timer_id x < timer_id y \<or> timer_id x = timer_id y \<and> timer_core_id x \<le> timer_core_id y"

definition less_TimerId :: "TimerId \<Rightarrow> TimerId \<Rightarrow> bool" where
  "less_TimerId x y \<longleftrightarrow>
    timer_id x < timer_id y \<or> timer_id x = timer_id y \<and> timer_core_id x < timer_core_id y"

instance
  by standard (auto simp: less_eq_TimerId_def less_TimerId_def intro: TimerId.expand)

end

datatype InjectedInterruptType =
    ExternalInterrupt | NonMaskableInterrupt | HardwareException | SoftwareInterrupt
  | PrivilegedSoftwareException | SoftwareException | OtherEvent

primrec injected_interrupt_code :: "InjectedInterruptType \<Rightarrow> u8" where
  "injected_interrupt_code ExternalInterrupt = 0"
| "injected_interrupt_code NonMaskableInterrupt = 2"
| "injected_interrupt_code HardwareException = 3"
| "injected_interrupt_code SoftwareInterrupt = 4"
| "injected_interrupt_code PrivilegedSoftwareException = 5"
| "injected_interrupt_code SoftwareException = 6"
| "injected_interrupt_code OtherEvent = 7"

text \<open>A physical serial port is its base port.\<close>

datatype VirtualMachineMsg =
    GrantConsole Port
  | CancelTimer TimerId
  | StartVcpu GuestPhysAddr
  | GuestInterrupt InjectedInterruptType u8

record LogicalApicState =
  logical_destination :: u32
  destination_format :: u32

definition logical_apic_state_default :: LogicalApicState where
  "logical_apic_state_default = \<lparr>logical_destination = 0, destination_format = 0\<rparr>"

definition MAX_VM_COUNT :: nat where "MAX_VM_COUNT = 64"
definition MAX_PER_VM_CORE_COUNT :: nat where "MAX_PER_VM_CORE_COUNT = 32"
definition MAX_VCPU_COUNT :: nat where "MAX_VCPU_COUNT = MAX_VM_COUNT * MAX_PER_VM_CORE_COUNT"
definition MAX_PENDING_MSG :: nat where "MAX_PENDING_MSG = 100"

record 'd VirtualMachine =
  vm_id :: u32
  vm_cpus :: "CoreId list"
  vm_memory :: u64
  host_serial :: "Port option"
  vm_devices :: "'d list"
  virtual_device_map :: "nat DeviceMap"
  guest_space :: GuestAddressSpace
  apic_access_page :: u64
  logical_apic_state :: "CoreId \<rightharpoonup> LogicalApicState"
  cpus_ready :: u32

record VirtualMachineContext =
  ctx_core_id :: CoreId
  ctx_vm :: nat
  msgqueue :: "VirtualMachineMsg list"

text \<open>The machine set, together with the core the code runs on.\<close>

record 'd vmset_state = core_state +
  contexts :: "VirtualMachineContext list"
  vms :: "'d VirtualMachine list"

section \<open>Operations\<close>

definition push_back :: "nat \<Rightarrow> 'a list \<Rightarrow> 'a \<Rightarrow> 'a list option" where
  "push_back cap q x = (if length q < cap then Some (q @ [x]) else None)"

fun context_by_core_id :: "CoreId \<Rightarrow> VirtualMachineContext list \<Rightarrow> nat option" where
  "context_by_core_id core [] = None"
| "context_by_core_id core (c # cs) =
    (if ctx_core_id c = core then Some 0 else map_option Suc (context_by_core_id core cs))"

definition context_by_vm_id :: "u32 \<Rightarrow> ('d, 'a) vmset_state_scheme \<Rightarrow> VirtualMachineContext option" where
  "context_by_vm_id vmid s = List.find (\<lambda>c. vm_id (vms s ! ctx_vm c) = vmid) (contexts s)"

definition is_assigned_core_id :: "CoreId \<Rightarrow> ('d, 'a) vmset_state_scheme \<Rightarrow> bool" where
  "is_assigned_core_id core s \<longleftrightarrow> context_by_core_id core (contexts s) \<noteq> None"

definition get_by_core_id :: "CoreId \<Rightarrow> ('d, 'a) vmset_state_scheme \<Rightarrow> nat option" where
  "get_by_core_id core s = map_option (\<lambda>i. ctx_vm (contexts s ! i)) (context_by_core_id core (contexts s))"

definition get_by_vm_id :: "u32 \<Rightarrow> ('d, 'a) vmset_state_scheme \<Rightarrow> nat option" where
  "get_by_vm_id vmid s = map_option ctx_vm (context_by_vm_id vmid s)"

definition bsp_id :: "'d VirtualMachine \<Rightarrow> CoreId res" where
  "bsp_id vm = index_at (vm_cpus vm) 0"

definition bsp_core_id :: "u32 \<Rightarrow> ('d, 'a) vmset_state_scheme \<Rightarrow> CoreId option res" where
  "bsp_core_id vmid s =
    (case get_by_vm_id vmid s of
       None \<Rightarrow> Ok None
     | Some v \<Rightarrow> and_then (bsp_id (vms s ! v)) (\<lambda>core. Ok (Some core)))"

definition set_queue :: "nat \<Rightarrow> VirtualMachineMsg list \<Rightarrow> ('d, 'a) vmset_state_scheme \<Rightarrow> ('d, 'a) vmset_state_scheme" where
  "set_queue i q s = s\<lparr>contexts := (contexts s)[i := (contexts s ! i)\<lparr>msgqueue := q\<rparr>]\<rparr>"

definition send_msg_core ::
  "VirtualMachineMsg \<Rightarrow> CoreId \<Rightarrow> bool \<Rightarrow> (('d, 'a) vmset_state_scheme, unit, Error) action" where
  "send_msg_core msg core_id notify s =
    (case context_by_core_id core_id (contexts s) of
       None \<Rightarrow> (Err NotFound, s)
     | Some i \<Rightarrow>
         (case push_back MAX_PENDING_MSG (msgqueue (contexts s ! i)) msg of
            None \<Rightarrow> (Err InvalidValue, s)
          | Some q \<Rightarrow>
              (Ok (), (if notify then send_ipi core_id NoShorthand Edge Assert Physical Fixed vector_IPC else id)
                 (set_queue i q s))))"

definition send_msg ::
  "VirtualMachineMsg \<Rightarrow> u32 \<Rightarrow> bool \<Rightarrow> (('d, 'a) vmset_state_scheme, unit, Error) action" where
  "send_msg msg vmid notify s =
    (case bsp_core_id vmid s of
       Ok (Some vm_bsp) \<Rightarrow> send_msg_core msg vm_bsp notify s
     | Ok None \<Rightarrow> (Err InvalidValue, s)
     | Err e \<Rightarrow> (Err e, s)
     | Panic \<Rightarrow> (Panic, s)
     | Undefined \<Rightarrow> (Undefined, s))"

definition recv_msg :: "(('d, 'a) vmset_state_scheme, VirtualMachineMsg option, Error) action" where
  "recv_msg s =
    (case context_by_core_id (this_core s) (contexts s) of
       None \<Rightarrow> (Panic, s)
     | Some i \<Rightarrow>
         (case msgqueue (contexts s ! i) of
            [] \<Rightarrow> (Ok None, s)
          | m # q \<Rightarrow> (Ok (Some m), set_queue i q s)))"

definition recv_all_msgs :: "(('d, 'a) vmset_state_scheme, VirtualMachineMsg list, Error) action" where
  "recv_all_msgs s =
    (case context_by_core_id (this_core s) (contexts s) of
       None \<Rightarrow> (Panic, s)
     | Some i \<Rightarrow> (Ok (msgqueue (contexts s ! i)), set_queue i [] s))"

section \<open>Mailboxes\<close>

text \<open>
  What a set of mailboxes promises: a send appends to the box of the receiver or
  changes nothing, a receive takes the oldest message. A history of sends and
  receives keeps, for each box, what was accepted and what was taken out.
\<close>

datatype ('x, 'm, 'c) mail_op = Send 'x 'm 'c | Receive 'c | ReceiveAll 'c

locale mailbox =
  fixes box :: "'s \<Rightarrow> 'c \<Rightarrow> 'm list option"
    and send :: "'x \<Rightarrow> 'm \<Rightarrow> 'c \<Rightarrow> ('s, unit, 'e) action"
    and recv :: "'c \<Rightarrow> ('s, 'm option, 'e) action"
    and recv_all :: "'c \<Rightarrow> ('s, 'm list, 'e) action"
    and cap :: nat
  assumes send_Ok: "send x m c s = (Ok u, s') \<Longrightarrow>
      \<exists>q. box s c = Some q \<and> length q < cap \<and> box s' = (box s)(c \<mapsto> q @ [m])"
    and send_fail: "send x m c s = (r, s') \<Longrightarrow> \<not> is_ok r \<Longrightarrow> box s' = box s"
    and recv_Ok: "recv c s = (Ok y, s') \<Longrightarrow>
      \<exists>q. box s c = Some q \<and> y = (if q = [] then None else Some (hd q)) \<and> box s' = (box s)(c \<mapsto> tl q)"
    and recv_fail: "recv c s = (r', s') \<Longrightarrow> \<not> is_ok r' \<Longrightarrow> box s' = box s"
    and recv_all_Ok: "recv_all c s = (Ok ms, s') \<Longrightarrow> box s c = Some ms \<and> box s' = (box s)(c \<mapsto> [])"
    and recv_all_fail: "recv_all c s = (r'', s') \<Longrightarrow> \<not> is_ok r'' \<Longrightarrow> box s' = box s"

fun mail_step ::
  "('x \<Rightarrow> 'm \<Rightarrow> 'c \<Rightarrow> ('s, unit, 'e) action) \<Rightarrow> ('c \<Rightarrow> ('s, 'm option, 'e) action) \<Rightarrow>
   ('c \<Rightarrow> ('s, 'm list, 'e) action) \<Rightarrow> ('x, 'm, 'c) mail_op \<Rightarrow>
   ('c \<Rightarrow> 'm list) \<times> ('c \<Rightarrow> 'm list) \<times> 's \<Rightarrow> ('c \<Rightarrow> 'm list) \<times> ('c \<Rightarrow> 'm list) \<times> 's" where
  "mail_step send recv recv_all (Send x m c) (sent, taken, s) =
    (case send x m c s of
       (Ok _, s') \<Rightarrow> (sent(c := sent c @ [m]), taken, s')
     | (_, s') \<Rightarrow> (sent, taken, s'))"
| "mail_step send recv recv_all (Receive c) (sent, taken, s) =
    (case recv c s of
       (Ok (Some m), s') \<Rightarrow> (sent, taken(c := taken c @ [m]), s')
     | (_, s') \<Rightarrow> (sent, taken, s'))"
| "mail_step send recv recv_all (ReceiveAll c) (sent, taken, s) =
    (case recv_all c s of
       (Ok ms, s') \<Rightarrow> (sent, taken(c := taken c @ ms), s')
     | (_, s') \<Rightarrow> (sent, taken, s'))"

definition mail_inv :: "('s \<Rightarrow> 'c \<Rightarrow> 'm list option) \<Rightarrow> nat \<Rightarrow> ('c \<Rightarrow> 'm list) \<times> ('c \<Rightarrow> 'm list) \<times> 's \<Rightarrow> bool" where
  "mail_inv box cap h \<longleftrightarrow>
    (case h of (sent, taken, s) \<Rightarrow>
       \<forall>c q. box s c = Some q \<longrightarrow> sent c = taken c @ q \<and> length q \<le> cap)"

context mailbox
begin

lemma mail_step_inv:
  assumes "mail_inv box cap (sent, taken, s)"
  shows "mail_inv box cap (mail_step send recv recv_all op (sent, taken, s))"
proof (cases op)
  case (Send x m c)
  obtain r s' where r: "send x m c s = (r, s')" by fastforce
  show ?thesis
  proof (cases r)
    case (Ok u)
    with send_Ok [of x m c s u s'] assms show ?thesis
      by (auto simp: Send r mail_inv_def split: if_splits)
  qed (use send_fail [OF r] assms in \<open>simp_all add: Send r mail_inv_def\<close>)
next
  case (Receive c)
  obtain r s' where r: "recv c s = (r, s')" by fastforce
  show ?thesis
  proof (cases r)
    case (Ok x)
    with r recv_Ok [of c s x s'] obtain q where q: "box s c = Some q" "x = (if q = [] then None else Some (hd q))"
      "box s' = (box s)(c \<mapsto> tl q)" by blast
    with assms have "length q \<le> cap" by (simp add: mail_inv_def)
    with q assms Ok show ?thesis
      by (cases q) (auto simp: Receive r mail_inv_def split: if_splits)
  qed (use recv_fail [OF r] assms in \<open>simp_all add: Receive r mail_inv_def\<close>)
next
  case (ReceiveAll c)
  obtain r s' where r: "recv_all c s = (r, s')" by fastforce
  show ?thesis
  proof (cases r)
    case (Ok ms)
    with r recv_all_Ok [of c s ms s'] assms show ?thesis
      by (auto simp: ReceiveAll mail_inv_def split: if_splits)
  qed (use recv_all_fail [OF r] assms in \<open>simp_all add: ReceiveAll r mail_inv_def\<close>)
qed

lemma mail_history:
  "mail_inv box cap h \<Longrightarrow> mail_inv box cap (fold (mail_step send recv recv_all) ops h)"
proof (induction ops arbitrary: h)
  case (Cons op ops)
  obtain sent taken s where "h = (sent, taken, s)" by (cases h)
  with Cons mail_step_inv [of sent taken s op] show ?case by simp
qed simp

end

section \<open>The queues of the cores are mailboxes\<close>

text \<open>A call made by a given core.\<close>

definition on_core :: "CoreId \<Rightarrow> (('d, 'a) vmset_state_scheme, 'r, Error) action \<Rightarrow>
    (('d, 'a) vmset_state_scheme, 'r, Error) action" where
  "on_core core f s = f (s\<lparr>this_core := core\<rparr>)"

definition pending :: "('d, 'a) vmset_state_scheme \<Rightarrow> CoreId \<Rightarrow> VirtualMachineMsg list option" where
  "pending s core = map_option (\<lambda>i. msgqueue (contexts s ! i)) (context_by_core_id core (contexts s))"

lemma context_by_core_id_Some:
  "context_by_core_id core cs = Some i \<Longrightarrow> i < length cs \<and> ctx_core_id (cs ! i) = core"
  by (induction cs arbitrary: i) (auto split: if_splits)

lemma context_by_core_id_cong:
  "map ctx_core_id cs = map ctx_core_id cs' \<Longrightarrow> context_by_core_id core cs = context_by_core_id core cs'"
proof (induction cs arbitrary: cs')
  case (Cons c cs)
  then show ?case by (cases cs') simp_all
qed simp

lemma update_keeps: "f x = f (xs ! i) \<Longrightarrow> j < length xs \<Longrightarrow> f (xs[i := x] ! j) = f (xs ! j)"
  by (cases "i = j") auto

lemma core_ids_set_queue: "map ctx_core_id (contexts (set_queue i q s)) = map ctx_core_id (contexts s)"
  by (rule nth_equalityI) (auto simp: set_queue_def update_keeps)

lemma pending_cong [simp]:
  "pending (s\<lparr>this_core := c\<rparr>) = pending s" "pending (wrmsr r v s) = pending s"
  by (simp_all add: pending_def wrmsr_def fun_eq_iff)

lemma pending_send_ipi [simp]: "pending (send_ipi dst sh t l d m v s) = pending s"
  by (simp add: send_ipi_def)

lemma pending_set_queue:
  assumes "context_by_core_id core (contexts s) = Some i"
  shows "pending (set_queue i q s) = (pending s)(core \<mapsto> q)"
proof
  fix c
  have "context_by_core_id c (contexts (set_queue i q s)) = context_by_core_id c (contexts s)"
    by (rule context_by_core_id_cong) (rule core_ids_set_queue)
  then show "pending (set_queue i q s) c = ((pending s)(core \<mapsto> q)) c"
    using assms context_by_core_id_Some [of core "contexts s" i]
    by (cases "context_by_core_id c (contexts s)"; cases "c = core")
      (auto simp: pending_def set_queue_def intro!: arg_cong [of _ _ msgqueue] nth_list_update_neq
        dest: context_by_core_id_Some)
qed

lemma send_msg_core_pending:
  "send_msg_core msg core notify s = (r, s') \<Longrightarrow>
    (case pending s core of
       None \<Rightarrow> r = Err NotFound \<and> s' = s
     | Some q \<Rightarrow>
         (if length q < MAX_PENDING_MSG then r = Ok () \<and> pending s' = (pending s)(core \<mapsto> q @ [msg])
          else r = Err InvalidValue \<and> s' = s))"
  by (auto simp: send_msg_core_def pending_def [of s core] push_back_def pending_set_queue split: option.splits if_splits)

lemma recv_msg_pending:
  "recv_msg s = (r, s') \<Longrightarrow>
    (case pending s (this_core s) of
       None \<Rightarrow> r = Panic \<and> s' = s
     | Some q \<Rightarrow>
         r = Ok (if q = [] then None else Some (hd q)) \<and> pending s' = (pending s)(this_core s \<mapsto> tl q))"
  by (auto simp: recv_msg_def pending_def [of s "this_core s"] pending_set_queue split: option.splits list.splits)
    (simp add: pending_def fun_eq_iff)

lemma recv_all_msgs_pending:
  "recv_all_msgs s = (r, s') \<Longrightarrow>
    (case pending s (this_core s) of
       None \<Rightarrow> r = Panic \<and> s' = s
     | Some q \<Rightarrow> r = Ok q \<and> pending s' = (pending s)(this_core s \<mapsto> []))"
  by (auto simp: recv_all_msgs_def pending_def [of s "this_core s"] pending_set_queue split: option.splits)

interpretation queues: mailbox pending
  "\<lambda>(sender, notify) msg core. on_core sender (send_msg_core msg core notify)"
  "\<lambda>core. on_core core recv_msg" "\<lambda>core. on_core core recv_all_msgs" MAX_PENDING_MSG
proof
  show "\<exists>q. pending s c = Some q \<and> length q < MAX_PENDING_MSG \<and> pending s' = (pending s)(c \<mapsto> q @ [m])"
    if "(case x of (sender, notify) \<Rightarrow> \<lambda>msg core. on_core sender (send_msg_core msg core notify)) m c s = (Ok u, s')"
    for x m c s u s'
    using that send_msg_core_pending [of m c "snd x" "s\<lparr>this_core := fst x\<rparr>" "Ok u" s']
    by (cases x) (auto simp: on_core_def split: option.splits if_splits)
  show "pending s' = pending s"
    if "(case x of (sender, notify) \<Rightarrow> \<lambda>msg core. on_core sender (send_msg_core msg core notify)) m c s = (r, s')"
      and "\<not> is_ok r" for x m c s r s'
    using that send_msg_core_pending [of m c "snd x" "s\<lparr>this_core := fst x\<rparr>" r s']
    by (cases x) (auto simp: on_core_def split: option.splits if_splits)
  show "\<exists>q. pending s c = Some q \<and> y = (if q = [] then None else Some (hd q)) \<and>
      pending s' = (pending s)(c \<mapsto> tl q)" if "on_core c recv_msg s = (Ok y, s')" for c s y s'
    using that recv_msg_pending [of "s\<lparr>this_core := c\<rparr>" "Ok y" s']
    by (auto simp: on_core_def split: option.splits)
  show "pending s' = pending s" if "on_core c recv_msg s = (r, s')" "\<not> is_ok r" for c s r s'
    using that recv_msg_pending [of "s\<lparr>this_core := c\<rparr>" r s']
    by (auto simp: on_core_def split: option.splits)
  show "pending s c = Some ms \<and> pending s' = (pending s)(c \<mapsto> [])"
    if "on_core c recv_all_msgs s = (Ok ms, s')" for c s ms s'
    using that recv_all_msgs_pending [of "s\<lparr>this_core := c\<rparr>" "Ok ms" s']
    by (auto simp: on_core_def split: option.splits)
  show "pending s' = pending s" if "on_core c recv_all_msgs s = (r, s')" "\<not> is_ok r" for c s r s'
    using that recv_all_msgs_pending [of "s\<lparr>this_core := c\<rparr>" r s']
    by (auto simp: on_core_def split: option.splits)
qed

section \<open>Delivery\<close>

type_synonym msg_op = "(CoreId \<times> bool, VirtualMachineMsg, CoreId) mail_op"

text \<open>
  A step of the cores' communication: \<open>Send (sender, notify) msg core\<close> is the call
  \<open>send_msg_core(msg, core, notify)\<close> on the core \<open>sender\<close>; a core receives on itself.
\<close>

definition msg_step :: "msg_op \<Rightarrow>
    (CoreId \<Rightarrow> VirtualMachineMsg list) \<times> (CoreId \<Rightarrow> VirtualMachineMsg list) \<times> ('d, 'a) vmset_state_scheme \<Rightarrow>
    (CoreId \<Rightarrow> VirtualMachineMsg list) \<times> (CoreId \<Rightarrow> VirtualMachineMsg list) \<times> ('d, 'a) vmset_state_scheme" where
  "msg_step = mail_step (\<lambda>(sender, notify) msg core. on_core sender (send_msg_core msg core notify))
     (\<lambda>core. on_core core recv_msg) (\<lambda>core. on_core core recv_all_msgs)"

text \<open>
  C12: Messages between cores are neither lost, duplicated, reordered nor delivered to
  another core. After any sequence of sends and receives on any cores, starting
  with empty queues, the messages a core has received followed by those still in its
  queue are exactly the messages whose sending to it succeeded, in the order of the
  sends, and the queue holds at most \<open>MAX_PENDING_MSG\<close> of them.
\<close>

theorem messages_delivered_in_order:
  assumes "\<forall>c q. pending s c = Some q \<longrightarrow> q = []"
    and "fold msg_step ops (\<lambda>_. [], \<lambda>_. [], s) = (sent, taken, s')"
    and "pending s' core = Some q"
  shows "sent core = taken core @ q \<and> length q \<le> MAX_PENDING_MSG"
proof -
  have "mail_inv pending MAX_PENDING_MSG (\<lambda>_. [], \<lambda>_. [], s)"
    using assms(1) by (fastforce simp: mail_inv_def)
  from queues.mail_history [OF this, of ops] assms(2,3) show ?thesis
    by (simp add: msg_step_def mail_inv_def)
qed

definition two_cores :: "unit vmset_state" where
  "two_cores =
    \<lparr>this_core = 0, apic_regs = (\<lambda>_. 0), msr_writes = [], base_reg = 0, ticks_per_ms = 0,
     contexts = [\<lparr>ctx_core_id = 1, ctx_vm = 0, msgqueue = []\<rparr>, \<lparr>ctx_core_id = 2, ctx_vm = 0, msgqueue = []\<rparr>],
     vms = []\<rparr>"

definition two_core_ops :: "msg_op list" where
  "two_core_ops =
    [Send (1, True) (StartVcpu 0x8000) 2, Send (1, False) (CancelTimer (TimerId 0 1)) 1,
     Receive 2, Send (2, True) (GuestInterrupt ExternalInterrupt 0x30) 2]"

theorem messages_delivered_in_order_witness:
  "fst (fold msg_step two_core_ops (\<lambda>_. [], \<lambda>_. [], two_cores)) 2 =
    [StartVcpu 0x8000] @ [GuestInterrupt ExternalInterrupt 0x30]"
proof -
  let ?h = "fold msg_step two_core_ops (\<lambda>_. [], \<lambda>_. [], two_cores)"
  have r: "?h = (fst ?h, fst (snd ?h), snd (snd ?h))" by simp
  have "fst (snd ?h) 2 = [StartVcpu 0x8000]" by code_simp
  moreover have "pending (snd (snd ?h)) 2 = Some [GuestInterrupt ExternalInterrupt 0x30]" by code_simp
  moreover have "\<forall>c q. pending two_cores c = Some q \<longrightarrow> q = []"
    by (simp add: pending_def two_cores_def)
  ultimately show ?thesis
    using messages_delivered_in_order [OF _ r, of 2] by auto
qed

end
