(* ===== verification/Lapic.thy ===== *)
theory Lapic
  imports Messages
begin

text \<open>
  The local APIC presented to guests (\<open>virtdev/lapic.rs\<close>) and the part of \<open>vm.rs\<close>
  that resolves logical destinations. The state of an operation is the virtual
  local APIC of the core together with the machine set.

  Shown: the commands the hypervisor's own \<open>send_ipi\<close> encodes are decoded to the
  same fields, every register access returns, and a guest's interrupt command only
  reaches the queues of the other cores of the same machine, except that a start-up
  command reaches the core numbered by the upper byte of the destination, whichever
  machine owns it.
\<close>

section \<open>Registers\<close>

datatype ApicRegisterSimpleOffset =
    ApicIdReg | ApicVersion | TaskPriority | ArbitrationPriority | ProcessorPriority
  | EndOfInterrupt | RemoteRead | LogicalDestination | DestinationFormat
  | SpuriousInterruptVector | ErrorStatus | LvtCorrectMachineCheckInterrupt | LvtTimer
  | LvtThermalSensor | LvtPerformanceMonitoringCounter | LvtLINT0 | LvtLINT1 | LvtError
  | TimerInitialCount | TimerCurrentCount | TimerDivideConfig

primrec simple_offset_code :: "ApicRegisterSimpleOffset \<Rightarrow> u16" where
  "simple_offset_code ApicIdReg = 0x20"
| "simple_offset_code ApicVersion = 0x30"
| "simple_offset_code TaskPriority = 0x80"
| "simple_offset_code ArbitrationPriority = 0x90"
| "simple_offset_code ProcessorPriority = 0xa0"
| "simple_offset_code EndOfInterrupt = 0xb0"
| "simple_offset_code RemoteRead = 0xc0"
| "simple_offset_code LogicalDestination = 0xd0"
| "simple_offset_code DestinationFormat = 0xe0"
| "simple_offset_code SpuriousInterruptVector = 0xf0"
| "simple_offset_code ErrorStatus = 0x280"
| "simple_offset_code LvtCorrectMachineCheckInterrupt = 0x2f0"
| "simple_offset_code LvtTimer = 0x320"
| "simple_offset_code LvtThermalSensor = 0x330"
| "simple_offset_code LvtPerformanceMonitoringCounter = 0x340"
| "simple_offset_code LvtLINT0 = 0x350"
| "simple_offset_code LvtLINT1 = 0x360"
| "simple_offset_code LvtError = 0x370"
| "simple_offset_code TimerInitialCount = 0x380"
| "simple_offset_code TimerCurrentCount = 0x390"
| "simple_offset_code TimerDivideConfig = 0x3e0"

definition simple_offsets :: "ApicRegisterSimpleOffset list" where
  "simple_offsets =
    [ApicIdReg, ApicVersion, TaskPriority, ArbitrationPriority, ProcessorPriority,
     EndOfInterrupt, RemoteRead, LogicalDestination, DestinationFormat,
     SpuriousInterruptVector, ErrorStatus, LvtCorrectMachineCheckInterrupt, LvtTimer,
     LvtThermalSensor, LvtPerformanceMonitoringCounter, LvtLINT0, LvtLINT1, LvtError,
     TimerInitialCount, TimerCurrentCount, TimerDivideConfig]"

datatype ApicRegisterOffset =
    Simple ApicRegisterSimpleOffset
  | InterruptRequest u16
  | InterruptCommand u16
  | TriggerModeReg u16
  | InService u16

definition register_offset_try_from :: "u16 \<Rightarrow> ApicRegisterOffset res" where
  "register_offset_try_from v =
    (if v AND 0b1111 \<noteq> 0 then Err InvalidValue
     else case try_from_primitive simple_offsets simple_offset_code v of
       Some simple_reg \<Rightarrow> Ok (Simple simple_reg)
     | None \<Rightarrow>
         if 0x100 \<le> v \<and> v \<le> 0x170 then Ok (InService (drop_bit 4 (v - 0x100)))
         else if 0x180 \<le> v \<and> v \<le> 0x1f0 then Ok (TriggerModeReg (drop_bit 4 (v - 0x180)))
         else if 0x200 \<le> v \<and> v \<le> 0x270 then Ok (InterruptRequest (drop_bit 4 (v - 0x200)))
         else if 0x300 \<le> v \<and> v \<le> 0x310 then Ok (InterruptCommand (drop_bit 4 (v - 0x300)))
         else Err InvalidValue)"

section \<open>Logical destinations\<close>

text \<open>
  \<open>logical_apic_destination\<close> filters lazily: \<open>logically_addressed\<close> is the filter's
  closure, applied to each core when the loop over the iterator comes to it.
\<close>

definition logically_addressed :: "'d VirtualMachine \<Rightarrow> u32 \<Rightarrow> CoreId \<Rightarrow> bool res" where
  "logically_addressed vm dst_mask core =
    and_then (unwrap (logical_apic_state vm core))
      (\<lambda>apic_state. Ok (logical_destination apic_state AND dst_mask \<noteq> 0))"

definition update_core_logical_destination ::
  "nat \<Rightarrow> u32 \<Rightarrow> (('d, 'a) vmset_state_scheme, unit, Error) action" where
  "update_core_logical_destination v dest s =
    (let vm = vms s ! v in
     case logical_apic_state vm (this_core s) of
       None \<Rightarrow> (Panic, s)
     | Some st \<Rightarrow>
         (Ok (), s\<lparr>vms := (vms s)[v := vm\<lparr>logical_apic_state :=
            (logical_apic_state vm)(this_core s \<mapsto> st\<lparr>logical_destination := dest\<rparr>)\<rparr>]\<rparr>))"

section \<open>Interrupt commands\<close>

record LocalApic =
  icr_destination :: "u32 option"

definition lapic_new :: LocalApic where
  "lapic_new = \<lparr>icr_destination = None\<rparr>"

definition sipi_address :: "u32 \<Rightarrow> GuestPhysAddr" where
  "sipi_address val = push_bit 12 (ucast val AND 0xff)"

definition process_sipi_request ::
  "LocalApic \<Rightarrow> u32 \<Rightarrow> (('d, 'a) vmset_state_scheme, unit, Error) action" where
  "process_sipi_request apic val =
    (case icr_destination apic of
       Some dest \<Rightarrow> send_msg_core (StartVcpu (sipi_address val)) (drop_bit 24 dest) False
     | None \<Rightarrow> return_state ())"

text \<open>The body of the two loops that send an interrupt to other cores.\<close>

definition interrupt_other_core :: "u8 \<Rightarrow> CoreId \<Rightarrow> (('d, 'a) vmset_state_scheme, unit, Error) action" where
  "interrupt_other_core vector core s =
    (if core = this_core s then (Ok (), s)
     else send_msg_core (GuestInterrupt ExternalInterrupt vector) core True s)"

definition interrupt_logical_core ::
  "'d VirtualMachine \<Rightarrow> u32 \<Rightarrow> u8 \<Rightarrow> CoreId \<Rightarrow> (('d, 'a) vmset_state_scheme, unit, Error) action" where
  "interrupt_logical_core vm dst_mask vector core =
    bind_state (lift_state (logically_addressed vm dst_mask core))
      (\<lambda>addressed. if addressed then interrupt_other_core vector core else return_state ())"

text \<open>The second half of \<open>process_interrupt_command\<close>, from the match on the shorthand.\<close>

definition deliver_interrupt ::
  "'d VirtualMachine \<Rightarrow> LocalApic \<Rightarrow> DstMode \<Rightarrow> DstShorthand \<Rightarrow> u8 \<Rightarrow>
    (('d, 'a) vmset_state_scheme, unit, Error) action" where
  "deliver_interrupt vm apic dst_mode shorthand vector =
    (case shorthand of
       AllIncludingSelf \<Rightarrow> return_state ()
     | AllExcludingSelf \<Rightarrow> for_each (interrupt_other_core vector) (vm_cpus vm)
     | MySelf \<Rightarrow> return_state ()
     | NoShorthand \<Rightarrow>
         (case icr_destination apic of
            Some dest \<Rightarrow>
              (case dst_mode of
                 Logical \<Rightarrow> for_each (interrupt_logical_core vm dest vector) (vm_cpus vm)
               | Physical \<Rightarrow> return_state ())
          | None \<Rightarrow> return_state ()))"

definition process_interrupt_command ::
  "'d VirtualMachine \<Rightarrow> LocalApic \<Rightarrow> u32 \<Rightarrow> (('d, 'a) vmset_state_scheme, unit, Error) action" where
  "process_interrupt_command vm apic val =
    bind_state (lift_state (enum_from delivery_modes delivery_mode_code
        (ucast (drop_bit 8 val) AND 0b111))) (\<lambda>mode.
      if mode = Init then return_state ()
      else if mode = StartUp then process_sipi_request apic val
      else
        bind_state (lift_state (enum_from dst_modes dst_mode_code
            (ucast (drop_bit 11 val AND 0b1)))) (\<lambda>dst_mode.
        bind_state (lift_state (enum_from dst_shorthands dst_shorthand_code
            (ucast (drop_bit 18 val AND 0b11)))) (\<lambda>shorthand.
          deliver_interrupt vm apic dst_mode shorthand (ucast val))))"

definition register_read :: "u16 \<Rightarrow> ('d, 'a) vmset_state_scheme \<Rightarrow> u32 res" where
  "register_read offset s =
    and_then (register_offset_try_from offset)
      (\<lambda>offset. Ok (if offset = Simple ApicIdReg then this_core s else 0))"

text \<open>A write to the low half of the interrupt command register.\<close>

definition write_icr_low :: "nat \<Rightarrow> u32 \<Rightarrow> (LocalApic \<times> ('d, 'a) vmset_state_scheme, unit, Error) action" where
  "write_icr_low v val =
    bind_state (\<lambda>(apic, s). on_snd (process_interrupt_command (vms s ! v) apic val) (apic, s))
      (\<lambda>_. on_fst (\<lambda>apic. (Ok (), apic\<lparr>icr_destination := None\<rparr>)))"

definition register_write ::
  "nat \<Rightarrow> u16 \<Rightarrow> u32 \<Rightarrow> (LocalApic \<times> ('d, 'a) vmset_state_scheme, unit, Error) action" where
  "register_write v offset val =
    bind_state (lift_state (register_offset_try_from offset)) (\<lambda>offset.
      case offset of
        Simple simple \<Rightarrow>
          (case simple of
             EndOfInterrupt \<Rightarrow> return_state ()
           | LogicalDestination \<Rightarrow> on_snd (update_core_logical_destination v val)
           | _ \<Rightarrow> return_state ())
      | InterruptCommand n \<Rightarrow>
          (if n = 0 then write_icr_low v val
           else if n = 1 then on_fst (\<lambda>apic. (Ok (), apic\<lparr>icr_destination := Some val\<rparr>))
           else lift_state Panic)
      | _ \<Rightarrow> return_state ())"

section \<open>Decoding\<close>

interpretation simple_offset: primitive_enum simple_offsets simple_offset_code
proof
  show "v \<in> set simple_offsets" for v by (cases v) (simp_all add: simple_offsets_def)
  show "distinct (map simple_offset_code simple_offsets)" by (simp add: simple_offsets_def)
qed

lemma enum_from_returns [simp]: "returns (enum_from vs disc n)"
  by (cases "try_from_primitive vs disc n") (simp_all add: enum_from_def)

lemma register_offset_returns [simp]: "returns (register_offset_try_from v)"
  by (simp add: register_offset_try_from_def split: option.split)

lemma interrupt_command_offsets:
  assumes "register_offset_try_from v = Ok (InterruptCommand n)"
  shows "n = 0 \<or> n = 1"
proof -
  have n: "n = drop_bit 4 (v - 0x300)" "0x300 \<le> v" "v \<le> 0x310"
    using assms by (auto simp: register_offset_try_from_def split: option.splits if_splits)
  have "unat (v - 0x300) \<le> 0x10"
    using n(2,3) by (simp add: word_le_nat_alt unat_sub)
  then have "unat n \<le> 1" by (simp add: n(1) unat_drop_bit_eq drop_bit_eq_div unat_div)
  then have "unat n = 0 \<or> unat n = 1" by linarith
  then show ?thesis by (auto simp: word_unat_eq_iff)
qed

lemma icr_low_fields:
  fixes vec :: u8 and dst sh t l d m
  defines "low \<equiv> ucast (icr_value dst sh t l d m vec) :: u32"
  shows "ucast (drop_bit 8 low) AND 0b111 = delivery_mode_code m"
    and "ucast (drop_bit 11 low AND 0b1) = dst_mode_code d"
    and "ucast (drop_bit 18 low AND 0b11) = dst_shorthand_code sh"
    and "ucast low = vec"
proof -
  let ?icr = "icr_value dst sh t l d m vec"
  have and_mask: "w AND 0b111 = take_bit 3 w" "x AND 0b1 = take_bit 1 x" "x AND 0b11 = take_bit 2 x"
    for w :: u8 and x :: u32
    by (simp_all add: take_bit_eq_mask mask_eq_exp_minus_1 and.commute)
  note bits = low_def and_mask bit_ucast_iff bit_drop_bit_eq bit_take_bit_iff o_apply
  have "ucast (drop_bit 8 low) AND 0b111 = (ucast (take_bit 3 (drop_bit 8 ?icr)) :: u8)"
    by (intro bit_word_eqI, simp only: bits) auto
  then show "ucast (drop_bit 8 low) AND 0b111 = delivery_mode_code m"
    by (simp add: icr_value_fields)
  have "ucast (drop_bit 11 low AND 0b1) = (ucast (take_bit 1 (drop_bit 11 ?icr)) :: u8)"
    by (intro bit_word_eqI, simp only: bits) auto
  then show "ucast (drop_bit 11 low AND 0b1) = dst_mode_code d"
    by (simp only: icr_value_fields)
  have "ucast (drop_bit 18 low AND 0b11) = (ucast (take_bit 2 (drop_bit 18 ?icr)) :: u8)"
    by (intro bit_word_eqI, simp only: bits) auto
  then show "ucast (drop_bit 18 low AND 0b11) = dst_shorthand_code sh"
    by (simp only: icr_value_fields)
  have "ucast low = (ucast ?icr :: u8)"
    by (intro bit_word_eqI, simp only: bits) auto
  then show "ucast low = vec" by (simp only: icr_value_fields)
qed

lemma low_byte: "(ucast (w :: u32) :: u64) AND 0xff = ucast (ucast w :: u8)"
proof -
  have m: "(0xff :: u64) = mask 8" by (simp add: mask_eq_exp_minus_1)
  show ?thesis unfolding m by (intro bit_word_eqI) (auto simp: bit_simps)
qed

section \<open>Safety\<close>

definition lapic_ok :: "nat \<Rightarrow> ('d, 'a) vmset_state_scheme \<Rightarrow> bool" where
  "lapic_ok v s \<longleftrightarrow> v < length (vms s) \<and> this_core s \<in> set (vm_cpus (vms s ! v)) \<and>
    (\<forall>c \<in> set (vm_cpus (vms s ! v)). logical_apic_state (vms s ! v) c \<noteq> None)"

lemma send_msg_core_frame:
  "vms (snd (send_msg_core msg core notify s)) = vms s"
  "this_core (snd (send_msg_core msg core notify s)) = this_core s"
  by (simp_all add: send_msg_core_def set_queue_def send_ipi_def wrmsr_def split: option.split)

lemma send_msg_core_returns: "returns (fst (send_msg_core msg core notify s))"
  by (simp add: send_msg_core_def split: option.split)

lemma safe_send_msg_core [safe_intros]: "safe (lapic_ok v) (send_msg_core msg core notify)"
  by (simp add: safe_def lapic_ok_def send_msg_core_frame send_msg_core_returns)

lemma safe_interrupt_other_core [safe_intros]: "safe (lapic_ok v) (interrupt_other_core vector core)"
  by (auto simp: safe_def interrupt_other_core_def send_msg_core_returns
      intro!: safeD [OF safe_send_msg_core, THEN conjunct2])

lemma safe_interrupt_logical_core:
  "logical_apic_state vm core \<noteq> None \<Longrightarrow> safe (lapic_ok v) (interrupt_logical_core vm dst_mask vector core)"
  by (auto simp: interrupt_logical_core_def logically_addressed_def intro!: safe_intros)

lemma safe_process_sipi_request [safe_intros]: "safe (lapic_ok v) (process_sipi_request apic val)"
  by (cases "icr_destination apic") (simp_all add: process_sipi_request_def safe_intros)

lemma safe_deliver_interrupt:
  assumes "\<forall>c \<in> set (vm_cpus vm). logical_apic_state vm c \<noteq> None"
  shows "safe (lapic_ok v) (deliver_interrupt vm apic dm sh vector)"
  using assms unfolding deliver_interrupt_def
  by (cases sh; cases dm; cases "icr_destination apic")
    (simp_all add: safe_return safe_for_each safe_interrupt_other_core safe_interrupt_logical_core)

lemma safe_process_interrupt_command:
  assumes "\<forall>c \<in> set (vm_cpus vm). logical_apic_state vm c \<noteq> None"
  shows "safe (lapic_ok v) (process_interrupt_command vm apic val)"
  unfolding process_interrupt_command_def
  by (intro safe_bind safe_lift enum_from_returns safe_if safe_return safe_process_sipi_request
      safe_deliver_interrupt assms)

lemma lapic_ok_update:
  "lapic_ok v s \<Longrightarrow> returns (fst (update_core_logical_destination v dest s)) \<and>
    lapic_ok v (snd (update_core_logical_destination v dest s))"
  by (auto simp: lapic_ok_def update_core_logical_destination_def Let_def split: option.split)

section \<open>Which queues a command reaches\<close>

definition touches :: "CoreId set \<Rightarrow> ('d, 'a) vmset_state_scheme \<Rightarrow> ('d, 'a) vmset_state_scheme \<Rightarrow> bool" where
  "touches C s t \<longleftrightarrow> this_core t = this_core s \<and> (\<forall>c. c \<notin> C \<longrightarrow> pending t c = pending s c)"

lemma touches_refl [simp]: "touches C s s"
  by (simp add: touches_def)

lemma touches_send_msg_core:
  "touches C s t \<Longrightarrow> core \<in> C \<Longrightarrow> touches C s (snd (send_msg_core msg core notify t))"
  using send_msg_core_pending [of msg core notify t] send_msg_core_frame(2) [of msg core notify t]
  by (cases "send_msg_core msg core notify t") (auto simp: touches_def split: option.splits if_splits)

lemma touches_interrupt_other_core:
  assumes "touches C s t" "core \<noteq> this_core s \<Longrightarrow> core \<in> C"
  shows "touches C s (snd (interrupt_other_core vector core t))"
proof -
  have "this_core t = this_core s" using assms(1) by (simp add: touches_def)
  then show ?thesis
    using assms by (simp add: interrupt_other_core_def touches_send_msg_core)
qed

lemma touches_interrupt_logical_core:
  assumes "touches C s t" "core \<noteq> this_core s \<Longrightarrow> core \<in> C"
  shows "touches C s (snd (interrupt_logical_core vm dst_mask vector core t))"
  using touches_interrupt_other_core [OF assms] assms(1)
  by (auto simp: interrupt_logical_core_def bind_state_def lift_state_def return_state_def
      split: outcome.split prod.split)

lemma touches_process_sipi_request:
  assumes "touches C s t" "\<And>dest. icr_destination apic = Some dest \<Longrightarrow> drop_bit 24 dest \<in> C"
  shows "touches C s (snd (process_sipi_request apic val t))"
  using assms by (simp add: process_sipi_request_def return_state_def touches_send_msg_core split: option.split)

text \<open>The cores a command written to the low half of the register may send to.\<close>

definition command_targets :: "CoreId \<Rightarrow> 'd VirtualMachine \<Rightarrow> LocalApic \<Rightarrow> u32 \<Rightarrow> CoreId set" where
  "command_targets self vm apic val =
    (if (ucast (drop_bit 8 val) :: u8) AND 0b111 = delivery_mode_code StartUp
     then {drop_bit 24 dest |dest. icr_destination apic = Some dest}
     else set (vm_cpus vm) - {self})"

lemma touches_deliver_interrupt:
  assumes "touches C s t" "\<And>core. core \<in> set (vm_cpus vm) \<Longrightarrow> core \<noteq> this_core s \<Longrightarrow> core \<in> C"
  shows "touches C s (snd (deliver_interrupt vm apic dm sh vector t))"
  using assms unfolding deliver_interrupt_def
  by (cases sh; cases dm; cases "icr_destination apic")
    (auto simp: return_state_def intro!: for_each_invariant [where I = "touches C s"]
      touches_interrupt_other_core touches_interrupt_logical_core)

lemma touches_process_interrupt_command:
  "touches (command_targets (this_core s) vm apic val) s (snd (process_interrupt_command vm apic val s))"
proof (cases "(ucast (drop_bit 8 val) :: u8) AND 0b111 = delivery_mode_code StartUp")
  case True
  then have "process_interrupt_command vm apic val s = process_sipi_request apic val s"
    by (simp add: process_interrupt_command_def enum_from_def True delivery_mode.try_from_disc
        bind_state_def lift_state_def del: delivery_mode_code.simps)
  then show ?thesis
    using True by (simp add: touches_process_sipi_request command_targets_def)
next
  case False
  let ?C = "set (vm_cpus vm) - {this_core s}"
  have "mode \<noteq> StartUp"
    if "enum_from delivery_modes delivery_mode_code (ucast (drop_bit 8 val) AND 0b111) = Ok mode" for mode
    using that False
    by (cases "try_from_primitive delivery_modes delivery_mode_code (ucast (drop_bit 8 val) AND 0b111)")
      (auto simp: enum_from_def delivery_mode.try_from_Some_iff)
  then have "touches ?C s (snd (process_interrupt_command vm apic val s))"
    by (auto simp: process_interrupt_command_def bind_lift return_state_def touches_deliver_interrupt
        split: outcome.split)
  with False show ?thesis by (simp add: command_targets_def)
qed

lemma pending_update_logical [simp]:
  "pending (snd (update_core_logical_destination v dest s)) = pending s"
  "this_core (snd (update_core_logical_destination v dest s)) = this_core s"
  by (simp_all add: update_core_logical_destination_def pending_def fun_eq_iff Let_def split: option.split)

lemma write_icr_low_eq:
  "snd (snd (write_icr_low v val (apic, s))) = snd (process_interrupt_command (vms s ! v) apic val s)"
  "is_ok (fst (write_icr_low v val (apic, s))) \<longleftrightarrow> is_ok (fst (process_interrupt_command (vms s ! v) apic val s))"
  "returns (fst (write_icr_low v val (apic, s))) \<longleftrightarrow> returns (fst (process_interrupt_command (vms s ! v) apic val s))"
  by (simp_all add: write_icr_low_def bind_state_def on_fst_def on_snd_def split: prod.split outcome.split)

lemma register_write_cases:
  assumes "register_offset_try_from offset = Ok reg"
  obtains (low) "register_write v offset val p = write_icr_low v val p"
  | (high) "register_write v offset val p = on_fst (\<lambda>apic. (Ok (), apic\<lparr>icr_destination := Some val\<rparr>)) p"
  | (logical) "register_write v offset val p = on_snd (update_core_logical_destination v val) p"
  | (ignored) "register_write v offset val p = return_state () p"
proof (cases reg)
  case (Simple x)
  with assms logical ignored show thesis by (cases x) (simp_all add: register_write_def bind_lift)
next
  case (InterruptCommand n)
  with assms interrupt_command_offsets [of offset n] low high show thesis
    by (auto simp: register_write_def bind_lift)
qed (use assms ignored in \<open>simp_all add: register_write_def bind_lift\<close>)

lemma register_write_error:
  assumes "\<nexists>reg. register_offset_try_from offset = Ok reg"
  shows "register_write v offset val p = (Err InvalidValue, p)"
proof -
  have "register_offset_try_from offset = Err InvalidValue"
    using assms by (auto simp: register_offset_try_from_def split: option.splits if_splits)
  then show ?thesis by (simp add: register_write_def bind_lift)
qed

lemma touches_register_write:
  "touches (command_targets (this_core s) (vms s ! v) apic val) s (snd (snd (register_write v offset val (apic, s))))"
proof (cases "\<exists>reg. register_offset_try_from offset = Ok reg")
  case True
  then obtain reg where "register_offset_try_from offset = Ok reg" by blast
  then show ?thesis
  proof (cases rule: register_write_cases [of offset reg v val "(apic, s)"])
    case low
    then show ?thesis by (simp add: write_icr_low_eq touches_process_interrupt_command)
  qed (simp_all add: return_state_def touches_def)
qed (simp add: register_write_error)

section \<open>Properties\<close>

text \<open>
  C13: \<open>register_read\<close> and \<open>register_write\<close> return for every offset and every value: no write
  panics (the \<open>unreachable!\<close> arm of the interrupt command register is unreachable) as long as
  the machine keeps the logical APIC state of its cores, which every write preserves.
\<close>

theorem register_write_returns:
  assumes "lapic_ok v s"
  shows "returns (fst (register_write v offset val (apic, s))) \<and>
    lapic_ok v (snd (snd (register_write v offset val (apic, s)))) \<and>
    returns (register_read offset s)"
proof -
  have states: "\<forall>c \<in> set (vm_cpus (vms s ! v)). logical_apic_state (vms s ! v) c \<noteq> None"
    using assms by (simp add: lapic_ok_def)
  note command = safeD [OF safe_process_interrupt_command [OF states] assms, of apic val]
  have "returns (register_read offset s)"
    using register_offset_returns [of offset]
    by (cases "register_offset_try_from offset") (simp_all add: register_read_def)
  moreover have "returns (fst (register_write v offset val (apic, s))) \<and>
    lapic_ok v (snd (snd (register_write v offset val (apic, s))))"
  proof (cases "\<exists>reg. register_offset_try_from offset = Ok reg")
    case True
    then obtain reg where "register_offset_try_from offset = Ok reg" by blast
    then show ?thesis
      by (cases rule: register_write_cases [of offset reg v val "(apic, s)"])
        (simp_all add: write_icr_low_eq command lapic_ok_update [OF assms] assms return_state_def)
  qed (simp add: register_write_error assms)
  ultimately show ?thesis by blast
qed

definition one_machine :: "unit VirtualMachine" where
  "one_machine =
    \<lparr>vm_id = 0, vm_cpus = [1, 2], vm_memory = 0, host_serial = None, vm_devices = [],
     virtual_device_map = device_map_default, guest_space = \<lparr>root = 0\<rparr>, apic_access_page = 0,
     logical_apic_state = [1 \<mapsto> logical_apic_state_default, 2 \<mapsto> logical_apic_state_default\<lparr>logical_destination := 2\<rparr>],
     cpus_ready = 0\<rparr>"

definition machine_set :: "unit vmset_state" where
  "machine_set = two_cores\<lparr>this_core := 1, vms := [one_machine]\<rparr>"

theorem register_write_returns_witness:
  "returns (fst (register_write 0 0x300 0x4030 (\<lparr>icr_destination = Some 2\<rparr>, machine_set)))"
proof -
  have "lapic_ok 0 machine_set"
    by (simp add: lapic_ok_def machine_set_def one_machine_def)
  then show ?thesis using register_write_returns [of 0 machine_set] by blast
qed

text \<open>
  C14: Which cores a guest can reach through its local APIC. A write leaves the queue
  of every core untouched, except that an interrupt command may send to the other
  cores of the machine of the guest, and that a start-up command sends to the core
  whose number is the upper byte of the destination that was written before.
\<close>

theorem register_write_targets:
  assumes "pending (snd (snd (register_write v offset val (apic, s)))) core \<noteq> pending s core"
  shows "core \<in> command_targets (this_core s) (vms s ! v) apic val"
  using touches_register_write [of s v apic val offset] assms by (auto simp: touches_def)

theorem register_write_targets_witness:
  "2 \<in> command_targets 1 one_machine \<lparr>icr_destination = Some 2\<rparr> 0x4830"
proof -
  have "pending (snd (snd (register_write 0 0x300 0x4830 (\<lparr>icr_destination = Some 2\<rparr>, machine_set)))) 2 =
      Some [GuestInterrupt ExternalInterrupt 0x30]"
    by code_simp
  moreover have "pending machine_set 2 = Some []"
    by (simp add: pending_def machine_set_def two_cores_def)
  ultimately show ?thesis
    using register_write_targets [of 0 "0x300" "0x4830" "\<lparr>icr_destination = Some 2\<rparr>" machine_set 2]
    by (simp add: machine_set_def)
qed


end
