(* ===== verification/Emulated_Device.thy ===== *)
theory Emulated_Device
  imports Virtdev
begin

text \<open>
  The interface of a virtual device, the trait \<open>EmulatedDevice\<close> of \<open>virtdev/mod.rs\<close>: the
  regions a device services and its reaction to an event. The laws say that a device
  returns from every event on a region it services, keeps its own invariant and its
  regions, and answers a read with a value of the width that was asked for.
\<close>

section \<open>Handlers of port accesses\<close>

text \<open>
  Most devices have the same \<open>on_event\<close>: reads and writes of ports go to two methods,
  other events are ignored. A read fills the buffer of the request.
\<close>

definition port_handler ::
  "(Port \<Rightarrow> PortReadRequest \<Rightarrow> ('d, PortReadRequest, Error) action) \<Rightarrow>
   (Port \<Rightarrow> PortWriteRequest \<Rightarrow> ('d, unit, Error) action) \<Rightarrow> 'd handler" where
  "port_handler on_port_read on_port_write =
    (\<lambda>(d, ev). case event_kind ev of
       PortRead port val \<Rightarrow>
         bind_state (on_fst (on_port_read port val))
           (\<lambda>val'. on_snd (\<lambda>ev. (Ok (), ev\<lparr>event_kind := PortRead port val'\<rparr>))) (d, ev)
     | PortWrite port val \<Rightarrow> on_fst (on_port_write port val) (d, ev)
     | _ \<Rightarrow> (Ok (), (d, ev)))"

text \<open>\<open>event.responses.push\<close> panics when the array is full.\<close>

definition respond :: "DeviceEventResponse \<Rightarrow> 'd handler" where
  "respond r = (\<lambda>(d, ev).
    case push_response r ev of
      Ok ev' \<Rightarrow> (Ok (), (d, ev'))
    | Err e \<Rightarrow> (Err e, (d, ev))
    | Panic \<Rightarrow> (Panic, (d, ev))
    | Undefined \<Rightarrow> (Undefined, (d, ev)))"

lemma copy_byte [simp]: "copy_from_u32 (ucast (b :: u8)) (ReadOneByte x) = ReadOneByte b"
proof -
  have "ucast (ucast b :: u32) = b" by (intro bit_word_eqI) (simp add: bit_simps)
  then show ?thesis by (simp add: copy_from_u32_def read_len_def be_bytes_def numeral_eq_Suc)
qed

section \<open>The laws\<close>

text \<open>The events that reach a device with the given regions.\<close>

fun served :: "DeviceRegion list \<Rightarrow> DeviceEvent \<Rightarrow> bool" where
  "served rs (PortRead p r) \<longleftrightarrow> (\<exists>reg \<in> set rs. in_region (AtPort p) reg)"
| "served rs (PortWrite p w) \<longleftrightarrow> (\<exists>reg \<in> set rs. in_region (AtPort p) reg)"
| "served rs (MemRead a r) \<longleftrightarrow> (\<exists>reg \<in> set rs. in_region (AtAddr a) reg)"
| "served rs (MemWrite a w) \<longleftrightarrow> (\<exists>reg \<in> set rs. in_region (AtAddr a) reg)"
| "served rs (HostUartReceived b) \<longleftrightarrow> True"

fun same_shape :: "DeviceEvent \<Rightarrow> DeviceEvent \<Rightarrow> bool" where
  "same_shape (PortRead p r) k \<longleftrightarrow> (\<exists>r'. k = PortRead p r' \<and> read_len r' = read_len r)"
| "same_shape k k' \<longleftrightarrow> k' = k"

lemma same_shape_refl [simp]: "same_shape k k"
  by (cases k) auto

fun outcomes :: "'d handler \<Rightarrow> Event list \<Rightarrow> 'd \<Rightarrow> unit res list" where
  "outcomes on_event [] d = []"
| "outcomes on_event (ev # evs) d =
    (case on_event (d, ev) of (r, (d', ev')) \<Rightarrow> r # outcomes on_event evs d')"

text \<open>A device adds at most two responses to an event.\<close>

definition has_room :: "Event \<Rightarrow> bool" where
  "has_room ev \<longleftrightarrow> length (event_responses ev) + 2 \<le> MAX_EVENT_RESPONSES"

text \<open>An event of a machine without memory.\<close>

definition idle_event :: "DeviceEvent \<Rightarrow> Event" where
  "idle_event k = \<lparr>event_kind = k, event_space = \<lparr>view_space = \<lparr>root = 0\<rparr>, view_cr3 = 0\<rparr>, event_responses = [],
    event_mem = \<lparr>tables = (\<lambda>_. None), ram = (\<lambda>_. 0), live = []\<rparr>\<rparr>"

locale emulated_device =
  fixes services :: "'d \<Rightarrow> DeviceRegion list"
    and on_event :: "'d handler"
    and inv :: "'d \<Rightarrow> bool"
  assumes serve: "inv d \<Longrightarrow> served (services d) (event_kind ev) \<Longrightarrow> has_room ev \<Longrightarrow>
      on_event (d, ev) = (r, (d', ev')) \<Longrightarrow>
      returns r \<and> inv d' \<and> services d' = services d \<and> same_shape (event_kind ev) (event_kind ev')"
begin

lemma never_panics:
  assumes "inv d" "\<forall>ev \<in> set evs. served (services d) (event_kind ev) \<and> has_room ev"
  shows "list_all returns (outcomes on_event evs d)"
  using assms
proof (induction evs arbitrary: d)
  case (Cons ev evs)
  obtain r d' ev' where e: "on_event (d, ev) = (r, (d', ev'))" by (cases "on_event (d, ev)") auto
  with Cons(2,3) serve [of d ev r d' ev'] have "returns r" "inv d'" "services d' = services d" by auto
  with Cons(1) [of d'] Cons(3) show ?case by (simp add: e)
qed simp

end

lemma respond_room:
  "length (event_responses ev) < MAX_EVENT_RESPONSES \<Longrightarrow>
    respond r (d, ev) = (Ok (), (d, ev\<lparr>event_responses := event_responses ev @ [r]\<rparr>))"
  by (simp add: respond_def push_response_def array_push_def)

text \<open>A device whose methods return on its ports obeys the laws.\<close>

lemma port_handler_serve:
  assumes reads: "\<And>p r. \<exists>reg \<in> set (services d). in_region (AtPort p) reg \<Longrightarrow>
      returns (fst (rd p r d)) \<and> I (snd (rd p r d)) \<and> services (snd (rd p r d)) = services d \<and>
      (\<forall>r'. fst (rd p r d) = Ok r' \<longrightarrow> read_len r' = read_len r)"
    and writes: "\<And>p w. \<exists>reg \<in> set (services d). in_region (AtPort p) reg \<Longrightarrow>
      returns (fst (wr p w d)) \<and> I (snd (wr p w d)) \<and> services (snd (wr p w d)) = services d"
    and "I d" "served (services d) (event_kind ev)" "port_handler rd wr (d, ev) = (r, (d', ev'))"
  shows "returns r \<and> I d' \<and> services d' = services d \<and> same_shape (event_kind ev) (event_kind ev')"
proof (cases "event_kind ev")
  case (PortRead p q)
  with assms(4) have p: "\<exists>reg \<in> set (services d). in_region (AtPort p) reg" by simp
  show ?thesis
    using reads [OF p, of q] assms(5) PortRead
    by (cases "fst (rd p q d)")
      (auto simp: port_handler_def bind_state_def on_fst_def on_snd_def split: prod.splits)
next
  case (PortWrite p w)
  with assms(4) have p: "\<exists>reg \<in> set (services d). in_region (AtPort p) reg" by simp
  show ?thesis
    using writes [OF p, of w] assms(5) PortWrite
    by (auto simp: port_handler_def on_fst_def split: prod.splits)
qed (use assms(3,5) in \<open>auto simp: port_handler_def\<close>)

end
