(* ===== verification/Chipset.thy ===== *)
theory Chipset
  imports Emulated_Device Apic
begin

text \<open>
  The small virtual devices under \<open>virtdev/\<close>: the interrupt controller (\<open>pic.rs\<close>), the
  keyboard controller (\<open>keyboard.rs\<close>), the debug port (\<open>debug.rs\<close>), the I/O APIC
  (\<open>ioapic.rs\<close>), the VGA registers (\<open>vga.rs\<close>) and the CMOS clock (\<open>rtc.rs\<close>). Each is a
  record, its regions and its \<open>on_event\<close>; each obeys the laws of a device.
\<close>

section \<open>Interrupt controller\<close>

record PicState =
  imr :: u8

record Pic8259 =
  master_state :: PicState
  slave_state :: PicState

definition PIC_MASTER_COMMAND :: Port where "PIC_MASTER_COMMAND = 0x20"
definition PIC_MASTER_DATA :: Port where "PIC_MASTER_DATA = PIC_MASTER_COMMAND + 1"
definition PIC_SLAVE_COMMAND :: Port where "PIC_SLAVE_COMMAND = 0xa0"
definition PIC_SLAVE_DATA :: Port where "PIC_SLAVE_DATA = PIC_SLAVE_COMMAND + 1"
definition PIC_ECLR_COMMAND :: Port where "PIC_ECLR_COMMAND = 0x4d0"
definition PIC_ECLR_DATA :: Port where "PIC_ECLR_DATA = PIC_ECLR_COMMAND + 1"

definition pic_new :: Pic8259 where
  "pic_new = \<lparr>master_state = \<lparr>imr = 0\<rparr>, slave_state = \<lparr>imr = 0\<rparr>\<rparr>"

definition pic_services :: "Pic8259 \<Rightarrow> DeviceRegion list" where
  "pic_services d = [PortIo PIC_MASTER_COMMAND PIC_MASTER_DATA, PortIo PIC_SLAVE_COMMAND PIC_SLAVE_DATA,
    PortIo PIC_ECLR_COMMAND PIC_ECLR_DATA]"

definition pic_on_port_read :: "Port \<Rightarrow> PortReadRequest \<Rightarrow> (Pic8259, PortReadRequest, Error) action" where
  "pic_on_port_read port val d =
    (if port = PIC_MASTER_DATA then (Ok (copy_from_u32 (ucast (imr (master_state d))) val), d)
     else if port = PIC_SLAVE_DATA then (Ok (copy_from_u32 (ucast (imr (master_state d))) val), d)
     else (Ok val, d))"

definition pic_on_port_write :: "Port \<Rightarrow> PortWriteRequest \<Rightarrow> (Pic8259, unit, Error) action" where
  "pic_on_port_write port val =
    (if port = PIC_MASTER_DATA \<or> port = PIC_SLAVE_DATA then
       bind_state (lift_state (write_try_into_u8 val))
         (\<lambda>v d. (Ok (), d\<lparr>master_state := (master_state d)\<lparr>imr := v\<rparr>\<rparr>))
     else return_state ())"

definition pic_on_event :: "Pic8259 handler" where
  "pic_on_event = port_handler pic_on_port_read pic_on_port_write"

section \<open>Keyboard controller, debug port, I/O APIC\<close>

definition PS2_DATA :: Port where "PS2_DATA = 0x60"
definition PS2_STATUS :: Port where "PS2_STATUS = 0x64"

definition keyboard_services :: "unit \<Rightarrow> DeviceRegion list" where
  "keyboard_services d = [PortIo PS2_DATA PS2_DATA, PortIo PS2_STATUS PS2_STATUS]"

definition keyboard_on_event :: "unit handler" where
  "keyboard_on_event = port_handler (\<lambda>port val d. (Ok (copy_from_u32 0xff val), d)) (\<lambda>port val. return_state ())"

record DebugPort =
  debug_port :: Port

definition debug_new :: "Port \<Rightarrow> DebugPort" where
  "debug_new port = \<lparr>debug_port = port\<rparr>"

definition debug_services :: "DebugPort \<Rightarrow> DeviceRegion list" where
  "debug_services d = [PortIo (debug_port d) (debug_port d)]"

definition debug_on_event :: "DebugPort handler" where
  "debug_on_event = (\<lambda>(d, ev).
    case event_kind ev of
      PortRead port val \<Rightarrow> (Ok (), (d, ev\<lparr>event_kind := PortRead port (copy_from_u32 0xe9 val)\<rparr>))
    | PortWrite port val \<Rightarrow>
        bind_state (lift_state (write_try_into_u8 val)) (\<lambda>b. respond (GuestUartTransmitted b)) (d, ev)
    | _ \<Rightarrow> (Ok (), (d, ev)))"

definition ioapic_services :: "unit \<Rightarrow> DeviceRegion list" where
  "ioapic_services d = [MemIo 0xfec00000 0xfec010f0, MemIo 0xfed00000 0xfed010f0]"

definition ioapic_on_event :: "unit handler" where
  "ioapic_on_event = return_state ()"

section \<open>VGA registers\<close>

datatype VgaRegister =
    HorizontalTotalChars | HorizontalCharsPerLine | HorizontalSyncPosition
  | HorizontalSyncWidthInChars | VirticalTotalLines | VirticalTotalAdjust
  | VirticalDisplayedRows | VirticalSyncPosition | InterlaceMode | MaxScanLineAddr
  | CursorStart | CursorEnd | StartAddrMsb | StartAddrLsb | CursorAddrMsb | CursorAddrLsb

primrec vga_register_code :: "VgaRegister \<Rightarrow> u8" where
  "vga_register_code HorizontalTotalChars = 0x00"
| "vga_register_code HorizontalCharsPerLine = 0x01"
| "vga_register_code HorizontalSyncPosition = 0x02"
| "vga_register_code HorizontalSyncWidthInChars = 0x03"
| "vga_register_code VirticalTotalLines = 0x04"
| "vga_register_code VirticalTotalAdjust = 0x05"
| "vga_register_code VirticalDisplayedRows = 0x06"
| "vga_register_code VirticalSyncPosition = 0x07"
| "vga_register_code InterlaceMode = 0x08"
| "vga_register_code MaxScanLineAddr = 0x09"
| "vga_register_code CursorStart = 0x0a"
| "vga_register_code CursorEnd = 0x0b"
| "vga_register_code StartAddrMsb = 0x0c"
| "vga_register_code StartAddrLsb = 0x0d"
| "vga_register_code CursorAddrMsb = 0x0e"
| "vga_register_code CursorAddrLsb = 0x0f"

definition vga_registers :: "VgaRegister list" where
  "vga_registers =
    [HorizontalTotalChars, HorizontalCharsPerLine, HorizontalSyncPosition,
     HorizontalSyncWidthInChars, VirticalTotalLines, VirticalTotalAdjust,
     VirticalDisplayedRows, VirticalSyncPosition, InterlaceMode, MaxScanLineAddr,
     CursorStart, CursorEnd, StartAddrMsb, StartAddrLsb, CursorAddrMsb, CursorAddrLsb]"

record VgaController =
  vga_index :: VgaRegister
  vga_data :: "u8 list"

definition VGA_INDEX :: Port where "VGA_INDEX = 0x03d4"
definition VGA_DATA :: Port where "VGA_DATA = 0x03d5"

definition vga_new :: VgaController where
  "vga_new = \<lparr>vga_index = HorizontalTotalChars,
    vga_data = [0x61, 0x50, 0x52, 0x0f, 0x19, 0x06, 0x19, 0x19, 0x02, 0x0d, 0x0b, 0x0c, 0, 0, 0, 0]\<rparr>"

definition vga_services :: "VgaController \<Rightarrow> DeviceRegion list" where
  "vga_services d = [PortIo VGA_INDEX VGA_DATA]"

definition vga_on_port_read :: "Port \<Rightarrow> PortReadRequest \<Rightarrow> (VgaController, PortReadRequest, Error) action" where
  "vga_on_port_read port val d =
    (if port = VGA_DATA then
       (and_then (index_at (vga_data d) (unat (vga_register_code (vga_index d))))
          (\<lambda>b. Ok (copy_from_u32 (ucast b) val)), d)
     else (Err NotImplemented, d))"

text \<open>\<open>self.registers[self.index as usize] = data\<close>\<close>

definition vga_store :: "u8 \<Rightarrow> (VgaController, unit, Error) action" where
  "vga_store b d =
    bind_state (lift_state (store_at (vga_data d) (unat (vga_register_code (vga_index d))) b))
      (\<lambda>regs d. (Ok (), d\<lparr>vga_data := regs\<rparr>)) d"

definition vga_select :: "u8 \<Rightarrow> (VgaController, unit, Error) action" where
  "vga_select i =
    bind_state (lift_state (enum_from vga_registers vga_register_code i))
      (\<lambda>reg d. (Ok (), d\<lparr>vga_index := reg\<rparr>))"

definition vga_on_port_write :: "Port \<Rightarrow> PortWriteRequest \<Rightarrow> (VgaController, unit, Error) action" where
  "vga_on_port_write port val =
    (if port = VGA_INDEX then
       (case val of
          WriteOneByte b \<Rightarrow> vga_select b
        | WriteTwoBytes b0 b1 \<Rightarrow> bind_state (vga_select b1) (\<lambda>_. vga_store b0)
        | _ \<Rightarrow> lift_state (Err InvalidValue))
     else if port = VGA_DATA then
       bind_state (lift_state (write_try_into_u8 val)) vga_store
     else lift_state (Err NotImplemented))"

definition vga_on_event :: "VgaController handler" where
  "vga_on_event = port_handler vga_on_port_read vga_on_port_write"

section \<open>CMOS clock\<close>

datatype CmosRegister =
    Seconds | SecondsAlarm | Minutes | MinutesAlarm | Hours | HoursAlarm | DayOfWeek
  | DayOfMonth | Month | Year | StatusRegisterA | StatusRegisterB | StatusRegisterC
  | StatusRegisterD | DiagnosticStatus | ShutdownStatus | DisketteDriveType
  | FixedDiskDriveType | Equipment | BaseSystemMemoryLsb | BaseSystemMemoryMsb
  | TotalExtendedMemoryLsb | TotalExtendedMemoryMsb | DriveCExtension | DriveDExtension
  | CmosChecksumMsb | CmosChecksumLsb | ExtendedPostMemLsb | ExtendedPostMemMsb
  | BcdCenturyDate | InfoFlags | QemuMemAbove16MbLsb | QemuMemAbove16MbMsb
  | QemuMemAbove4GbLsb | QemuMemAbove4GbMmsb | QemuMemAbove4GbMsb | UnknownRegister

primrec cmos_register_code :: "CmosRegister \<Rightarrow> u8" where
  "cmos_register_code Seconds = 0x00"
| "cmos_register_code SecondsAlarm = 0x01"
| "cmos_register_code Minutes = 0x02"
| "cmos_register_code MinutesAlarm = 0x03"
| "cmos_register_code Hours = 0x04"
| "cmos_register_code HoursAlarm = 0x05"
| "cmos_register_code DayOfWeek = 0x06"
| "cmos_register_code DayOfMonth = 0x07"
| "cmos_register_code Month = 0x08"
| "cmos_register_code Year = 0x09"
| "cmos_register_code StatusRegisterA = 0x0a"
| "cmos_register_code StatusRegisterB = 0x0b"
| "cmos_register_code StatusRegisterC = 0x0c"
| "cmos_register_code StatusRegisterD = 0x0d"
| "cmos_register_code DiagnosticStatus = 0x0e"
| "cmos_register_code ShutdownStatus = 0x0f"
| "cmos_register_code DisketteDriveType = 0x10"
| "cmos_register_code FixedDiskDriveType = 0x12"
| "cmos_register_code Equipment = 0x14"
| "cmos_register_code BaseSystemMemoryLsb = 0x15"
| "cmos_register_code BaseSystemMemoryMsb = 0x16"
| "cmos_register_code TotalExtendedMemoryLsb = 0x17"
| "cmos_register_code TotalExtendedMemoryMsb = 0x18"
| "cmos_register_code DriveCExtension = 0x19"
| "cmos_register_code DriveDExtension = 0x1a"
| "cmos_register_code CmosChecksumMsb = 0x2e"
| "cmos_register_code CmosChecksumLsb = 0x2f"
| "cmos_register_code ExtendedPostMemLsb = 0x30"
| "cmos_register_code ExtendedPostMemMsb = 0x31"
| "cmos_register_code BcdCenturyDate = 0x32"
| "cmos_register_code InfoFlags = 0x33"
| "cmos_register_code QemuMemAbove16MbLsb = 0x34"
| "cmos_register_code QemuMemAbove16MbMsb = 0x35"
| "cmos_register_code QemuMemAbove4GbLsb = 0x5b"
| "cmos_register_code QemuMemAbove4GbMmsb = 0x5c"
| "cmos_register_code QemuMemAbove4GbMsb = 0x5d"
| "cmos_register_code UnknownRegister = 0xff"

definition cmos_registers :: "CmosRegister list" where
  "cmos_registers =
    [Seconds, SecondsAlarm, Minutes, MinutesAlarm, Hours, HoursAlarm, DayOfWeek, DayOfMonth,
     Month, Year, StatusRegisterA, StatusRegisterB, StatusRegisterC, StatusRegisterD,
     DiagnosticStatus, ShutdownStatus, DisketteDriveType, FixedDiskDriveType, Equipment,
     BaseSystemMemoryLsb, BaseSystemMemoryMsb, TotalExtendedMemoryLsb,
     TotalExtendedMemoryMsb, DriveCExtension, DriveDExtension, CmosChecksumMsb,
     CmosChecksumLsb, ExtendedPostMemLsb, ExtendedPostMemMsb, BcdCenturyDate, InfoFlags,
     QemuMemAbove16MbLsb, QemuMemAbove16MbMsb, QemuMemAbove4GbLsb, QemuMemAbove4GbMmsb,
     QemuMemAbove4GbMsb, UnknownRegister]"

record CmosRtc =
  cmos_addr :: CmosRegister
  cmos_data :: "u8 list"

definition RTC_ADDRESS :: Port where "RTC_ADDRESS = 0x70"
definition RTC_DATA :: Port where "RTC_DATA = 0x71"

text \<open>
  \<open>default_register_values\<close>: the array is written only at the discriminants of
  registers, which are below its length.
\<close>

definition blocks_under_4gb :: "u64 \<Rightarrow> u16" where
  "blocks_under_4gb mem = ucast (push_bit 4 ((mem AND 0xfff) - 16))"

definition default_register_values :: "u64 \<Rightarrow> u8 list" where
  "default_register_values mem =
    (replicate 256 0)
      [unat (cmos_register_code StatusRegisterD) := 0b10000000,
       unat (cmos_register_code QemuMemAbove16MbLsb) := ucast (blocks_under_4gb mem),
       unat (cmos_register_code QemuMemAbove16MbMsb) := ucast (drop_bit 8 (blocks_under_4gb mem))]"

definition rtc_new :: "u64 \<Rightarrow> CmosRtc" where
  "rtc_new mem = \<lparr>cmos_addr = Seconds, cmos_data = default_register_values mem\<rparr>"

definition rtc_services :: "CmosRtc \<Rightarrow> DeviceRegion list" where
  "rtc_services d = [PortIo RTC_ADDRESS RTC_DATA]"

definition rtc_on_port_read :: "Port \<Rightarrow> PortReadRequest \<Rightarrow> (CmosRtc, PortReadRequest, Error) action" where
  "rtc_on_port_read port val d =
    (if port = RTC_ADDRESS then (Ok (copy_from_u32 (ucast (cmos_register_code (cmos_addr d))) val), d)
     else if port = RTC_DATA then
       (and_then (index_at (cmos_data d) (unat (cmos_register_code (cmos_addr d))))
          (\<lambda>b. Ok (copy_from_u32 (ucast b) val)), d)
     else (Panic, d))"

definition rtc_on_port_write :: "Port \<Rightarrow> PortWriteRequest \<Rightarrow> (CmosRtc, unit, Error) action" where
  "rtc_on_port_write port req =
    bind_state (lift_state (write_try_into_u8 req)) (\<lambda>v d.
      let val = v AND 0x7f in
      if port = RTC_ADDRESS then
        (Ok (), d\<lparr>cmos_addr :=
           (case try_from_primitive cmos_registers cmos_register_code val of
              Some reg \<Rightarrow> reg
            | None \<Rightarrow> UnknownRegister)\<rparr>)
      else if port = RTC_DATA then
        (case cmos_addr d of
           ShutdownStatus \<Rightarrow> (Ok (), d)
         | StatusRegisterD \<Rightarrow> (Ok (), d)
         | StatusRegisterC \<Rightarrow> (Ok (), d)
         | addr \<Rightarrow>
             bind_state (lift_state (store_at (cmos_data d) (unat (cmos_register_code addr)) val))
               (\<lambda>bs d. (Ok (), d\<lparr>cmos_data := bs\<rparr>)) d)
      else (Panic, d))"

definition rtc_on_event :: "CmosRtc handler" where
  "rtc_on_event = port_handler rtc_on_port_read rtc_on_port_write"

section \<open>Each is a device\<close>

lemma read_len_copy_from [simp]: "read_len (copy_from_u32 v r) = read_len r"
  by (rule read_len_copy)

lemma write_try_into_u8_returns [simp]:
  "write_try_into_u8 w \<noteq> Panic" "write_try_into_u8 w \<noteq> Undefined" "returns (write_try_into_u8 w)"
  by (cases w; simp add: write_try_into_u8_def)+

interpretation pic: emulated_device pic_services pic_on_event "\<lambda>_. True"
proof
  show "returns r \<and> True \<and> pic_services d' = pic_services d \<and> same_shape (event_kind ev) (event_kind ev')"
    if "served (pic_services d) (event_kind ev)" "pic_on_event (d, ev) = (r, (d', ev'))" for d ev r d' ev'
    using that unfolding pic_on_event_def
    by (intro port_handler_serve [where I = "\<lambda>_. True"])
      (auto simp: pic_on_port_read_def pic_on_port_write_def pic_services_def bind_lift return_state_def
        split: outcome.split)
qed

interpretation keyboard: emulated_device keyboard_services keyboard_on_event "\<lambda>_. True"
proof
  show "returns r \<and> True \<and> keyboard_services d' = keyboard_services d \<and> same_shape (event_kind ev) (event_kind ev')"
    if "served (keyboard_services d) (event_kind ev)" "keyboard_on_event (d, ev) = (r, (d', ev'))" for d ev r d' ev'
    using that unfolding keyboard_on_event_def
    by (intro port_handler_serve [where I = "\<lambda>_. True"]) (auto simp: return_state_def)
qed

interpretation debug: emulated_device debug_services debug_on_event "\<lambda>_. True"
proof
  show "returns r \<and> True \<and> debug_services d' = debug_services d \<and> same_shape (event_kind ev) (event_kind ev')"
    if "has_room ev" "debug_on_event (d, ev) = (r, (d', ev'))" for d ev r d' ev'
    using that
    by (cases "event_kind ev")
      (auto simp: debug_on_event_def has_room_def bind_lift respond_room split: outcome.splits)
qed

interpretation virtual_ioapic: emulated_device ioapic_services ioapic_on_event "\<lambda>_. True"
  by unfold_locales (auto simp: ioapic_on_event_def return_state_def ioapic_services_def)

interpretation vga_register: primitive_enum vga_registers vga_register_code
proof
  show "v \<in> set vga_registers" for v by (cases v) (simp_all add: vga_registers_def)
  show "distinct (map vga_register_code vga_registers)" by (simp add: vga_registers_def)
qed

lemma vga_register_bound: "unat (vga_register_code r) < 16"
  by (cases r) simp_all

text \<open>The controller has its sixteen registers.\<close>

definition vga_ok :: "VgaController \<Rightarrow> bool" where
  "vga_ok d \<longleftrightarrow> length (vga_data d) = 16"

lemma vga_store_ok:
  "vga_ok d \<Longrightarrow> vga_store b d = (Ok (), d\<lparr>vga_data := (vga_data d)[unat (vga_register_code (vga_index d)) := b]\<rparr>)"
  by (simp add: vga_store_def bind_lift store_at_def vga_ok_def vga_register_bound)

lemma vga_select_cases:
  "vga_select i d = (Err InvalidValue, d) \<or> (\<exists>reg. vga_register_code reg = i \<and> vga_select i d = (Ok (), d\<lparr>vga_index := reg\<rparr>))"
proof (cases "try_from_primitive vga_registers vga_register_code i")
  case (Some reg)
  then have "vga_register_code reg = i" by (simp add: vga_register.try_from_Some_iff)
  with Some show ?thesis by (auto simp: vga_select_def bind_lift enum_from_def)
qed (simp add: vga_select_def bind_lift enum_from_def)

lemma vga_read_returns: "vga_ok d \<Longrightarrow> returns (fst (vga_on_port_read p r d))"
  by (simp add: vga_on_port_read_def index_at_def vga_ok_def vga_register_bound)

lemma vga_ok_update [simp]:
  "vga_ok d \<Longrightarrow> vga_ok (d\<lparr>vga_index := reg\<rparr>)" "vga_ok d \<Longrightarrow> vga_ok (d\<lparr>vga_data := (vga_data d)[i := b]\<rparr>)"
  by (simp_all add: vga_ok_def)

lemma safe_vga_store [safe_intros]: "safe vga_ok (vga_store b)"
  by (simp add: safe_def vga_store_ok)

lemma safe_vga_select [safe_intros]: "safe vga_ok (vga_select i)"
  unfolding safe_def
proof (intro allI impI)
  fix d assume "vga_ok d"
  with vga_select_cases [of i d] show "returns (fst (vga_select i d)) \<and> vga_ok (snd (vga_select i d))" by auto
qed

lemma safe_vga_write: "safe vga_ok (vga_on_port_write p w)"
  unfolding vga_on_port_write_def by (cases w) (auto intro!: safe_intros)

interpretation vga: emulated_device vga_services vga_on_event vga_ok
proof
  show "returns r \<and> vga_ok d' \<and> vga_services d' = vga_services d \<and> same_shape (event_kind ev) (event_kind ev')"
    if "vga_ok d" "served (vga_services d) (event_kind ev)" "vga_on_event (d, ev) = (r, (d', ev'))" for d ev r d' ev'
    using that safeD [OF safe_vga_write] vga_read_returns [of d] unfolding vga_on_event_def
    by (intro port_handler_serve [where I = vga_ok])
      (auto simp: vga_services_def vga_on_port_read_def and_then_Ok_iff)
qed

interpretation cmos_register: primitive_enum cmos_registers cmos_register_code
proof
  show "v \<in> set cmos_registers" for v by (cases v) (simp_all add: cmos_registers_def)
  show "distinct (map cmos_register_code cmos_registers)" by (simp add: cmos_registers_def)
qed

text \<open>The clock has its 256 bytes.\<close>

definition rtc_ok :: "CmosRtc \<Rightarrow> bool" where
  "rtc_ok d \<longleftrightarrow> length (cmos_data d) = 256"

lemma cmos_register_bound: "unat (cmos_register_code r) < 256"
  using unat_bound [of "cmos_register_code r"] by simp

text \<open>The registers a guest can write.\<close>

definition writable :: "CmosRegister \<Rightarrow> bool" where
  "writable reg \<longleftrightarrow> reg \<notin> {ShutdownStatus, StatusRegisterC, StatusRegisterD}"

lemma rtc_write_data:
  assumes "rtc_ok d"
  shows "rtc_on_port_write RTC_DATA (WriteOneByte b) d =
    (Ok (), if writable (cmos_addr d)
            then d\<lparr>cmos_data := (cmos_data d)[unat (cmos_register_code (cmos_addr d)) := b AND 0x7f]\<rparr> else d)"
  using assms cmos_register_bound [of "cmos_addr d"]
  by (cases "cmos_addr d")
    (simp_all add: rtc_on_port_write_def write_try_into_u8_def bind_lift RTC_ADDRESS_def RTC_DATA_def Let_def
      writable_def store_at_def rtc_ok_def)

lemma rtc_write_address:
  "rtc_on_port_write RTC_ADDRESS (WriteOneByte i) d =
    (Ok (), d\<lparr>cmos_addr := (case try_from_primitive cmos_registers cmos_register_code (i AND 0x7f) of
       Some reg \<Rightarrow> reg | None \<Rightarrow> UnknownRegister)\<rparr>)"
  by (simp add: rtc_on_port_write_def write_try_into_u8_def bind_lift)

lemma rtc_read_data:
  "rtc_ok d \<Longrightarrow> rtc_on_port_read RTC_DATA r d =
    (Ok (copy_from_u32 (ucast (cmos_data d ! unat (cmos_register_code (cmos_addr d)))) r), d)"
  by (simp add: rtc_on_port_read_def RTC_ADDRESS_def RTC_DATA_def index_at_def rtc_ok_def cmos_register_bound)

lemma rtc_ports: "\<exists>reg \<in> set (rtc_services d). in_region (AtPort p) reg \<Longrightarrow> p = RTC_ADDRESS \<or> p = RTC_DATA"
proof -
  assume "\<exists>reg \<in> set (rtc_services d). in_region (AtPort p) reg"
  then have "0x70 \<le> p" "p \<le> 0x71" by (simp_all add: rtc_services_def RTC_ADDRESS_def RTC_DATA_def)
  then have "unat p = 0x70 \<or> unat p = 0x71" by (auto simp: word_le_nat_alt)
  then show ?thesis by (auto simp: RTC_ADDRESS_def RTC_DATA_def word_unat_eq_iff)
qed

lemma rtc_write_returns:
  assumes "rtc_ok d" "p = RTC_ADDRESS \<or> p = RTC_DATA"
  shows "returns (fst (rtc_on_port_write p w d)) \<and> rtc_ok (snd (rtc_on_port_write p w d))"
proof (cases "\<exists>b. w = WriteOneByte b")
  case True
  with assms rtc_write_data [OF assms(1)] show ?thesis by (auto simp: rtc_write_address rtc_ok_def)
next
  case False
  then have "write_try_into_u8 w = Err InvalidValue" by (cases w) (simp_all add: write_try_into_u8_def)
  with assms show ?thesis by (simp add: rtc_on_port_write_def bind_lift)
qed

lemma rtc_read_returns:
  assumes "rtc_ok d" "p = RTC_ADDRESS \<or> p = RTC_DATA"
  shows "\<exists>v. rtc_on_port_read p r d = (Ok (copy_from_u32 v r), d)"
proof (cases "p = RTC_ADDRESS")
  case True
  then show ?thesis by (auto simp: rtc_on_port_read_def)
qed (use assms rtc_read_data in auto)

interpretation rtc: emulated_device rtc_services rtc_on_event rtc_ok
proof
  show "returns r \<and> rtc_ok d' \<and> rtc_services d' = rtc_services d \<and> same_shape (event_kind ev) (event_kind ev')"
    if "rtc_ok d" "served (rtc_services d) (event_kind ev)" "rtc_on_event (d, ev) = (r, (d', ev'))" for d ev r d' ev'
    unfolding rtc_on_event_def
  proof (rule port_handler_serve [where I = rtc_ok and services = rtc_services, OF _ _ that(1,2)])
    show "returns (fst (rtc_on_port_read p r d)) \<and> rtc_ok (snd (rtc_on_port_read p r d)) \<and>
        rtc_services (snd (rtc_on_port_read p r d)) = rtc_services d \<and>
        (\<forall>r'. fst (rtc_on_port_read p r d) = Ok r' \<longrightarrow> read_len r' = read_len r)"
      if "\<exists>reg \<in> set (rtc_services d). in_region (AtPort p) reg" for p r
      using rtc_read_returns [OF \<open>rtc_ok d\<close> rtc_ports [OF that], of r] \<open>rtc_ok d\<close> by auto
    show "returns (fst (rtc_on_port_write p w d)) \<and> rtc_ok (snd (rtc_on_port_write p w d)) \<and>
        rtc_services (snd (rtc_on_port_write p w d)) = rtc_services d"
      if "\<exists>reg \<in> set (rtc_services d). in_region (AtPort p) reg" for p w
      using rtc_write_returns [OF \<open>rtc_ok d\<close> rtc_ports [OF that], of w] by (simp add: rtc_services_def)
  qed (use that(3) in \<open>simp add: rtc_on_event_def\<close>)
qed

section \<open>Properties\<close>

text \<open>
  What a guest writes to a VGA register is what it reads back: selecting a register
  and writing its data, or doing both in one two-byte access, makes the next read of
  the data port give that byte, and no other register changes.
\<close>

theorem vga_write_read:
  assumes "vga_ok d" "p = VGA_INDEX"
    and "vga_on_port_write p (WriteTwoBytes b (vga_register_code reg)) d = (r, d')"
  shows "r = Ok () \<and> vga_ok d' \<and>
    vga_on_port_read VGA_DATA (ReadOneByte x) d' = (Ok (ReadOneByte b), d') \<and>
    (\<forall>other. other \<noteq> reg \<longrightarrow>
      vga_data d' ! unat (vga_register_code other) = vga_data d ! unat (vga_register_code other)) \<and>
    bind_state (vga_on_port_write p (WriteOneByte (vga_register_code reg)))
      (\<lambda>_. vga_on_port_write VGA_DATA (WriteOneByte b)) d = (r, d')"
proof -
  have sel: "vga_select (vga_register_code reg) d = (Ok (), d\<lparr>vga_index := reg\<rparr>)"
    by (simp add: vga_select_def bind_lift enum_from_def vga_register.try_from_disc)
  have d': "r = Ok ()" "d' = d\<lparr>vga_index := reg, vga_data := (vga_data d)[unat (vga_register_code reg) := b]\<rparr>"
    using assms by (auto simp: vga_on_port_write_def VGA_INDEX_def bind_state_def sel vga_store_ok)
  have inj: "unat (vga_register_code other) \<noteq> unat (vga_register_code reg)" if "other \<noteq> reg" for other
    using that vga_register.try_from_disc [of other] vga_register.try_from_disc [of reg]
    by (metis option.inject word_unat_eq_iff)
  have idx: "unat (vga_register_code reg) < length (vga_data d)"
    using assms(1) by (simp add: vga_ok_def vga_register_bound)
  have "vga_on_port_read VGA_DATA (ReadOneByte x) d' = (Ok (ReadOneByte b), d')"
    using idx by (simp add: d' vga_on_port_read_def index_at_def)
  moreover have "bind_state (vga_on_port_write p (WriteOneByte (vga_register_code reg)))
      (\<lambda>_. vga_on_port_write VGA_DATA (WriteOneByte b)) d = (r, d')"
    using assms(1,2)
    by (simp add: d' bind_state_def vga_on_port_write_def sel VGA_INDEX_def VGA_DATA_def write_try_into_u8_def
        lift_state_def vga_store_ok)
  ultimately show ?thesis
    using assms(1) inj by (simp add: d' vga_ok_def nth_list_update_neq [OF inj [THEN not_sym]])
qed

theorem vga_write_read_witness:
  "\<exists>d'. vga_on_port_write VGA_INDEX (WriteTwoBytes 0x07 (vga_register_code CursorAddrMsb)) vga_new = (Ok (), d') \<and>
    vga_on_port_read VGA_DATA (ReadOneByte 0) d' = (Ok (ReadOneByte 0x07), d')"
proof -
  let ?w = "vga_on_port_write VGA_INDEX (WriteTwoBytes 0x07 (vga_register_code CursorAddrMsb)) vga_new"
  have "vga_ok vga_new" by (simp add: vga_ok_def vga_new_def)
  from vga_write_read [OF this refl, of "0x07" CursorAddrMsb "fst ?w" "snd ?w" 0] show ?thesis
    by (cases ?w) auto
qed

text \<open>
  C21: The CMOS clock. After its address has been written, the data port reads back what
  was last written there without its top bit, except for the three registers a guest
  cannot write, which keep their value; all other registers keep theirs.
\<close>

theorem rtc_write_read:
  assumes "rtc_ok d" "i AND 0x7f = cmos_register_code reg"
    and "bind_state (rtc_on_port_write RTC_ADDRESS (WriteOneByte i)) (\<lambda>_. rtc_on_port_write RTC_DATA (WriteOneByte b)) d = (r, d')"
  shows "r = Ok () \<and> rtc_ok d' \<and>
    rtc_on_port_read RTC_DATA (ReadOneByte x) d' =
      (Ok (ReadOneByte (if writable reg then b AND 0x7f else cmos_data d ! unat (cmos_register_code reg))), d') \<and>
    (\<forall>other. other \<noteq> reg \<longrightarrow>
      cmos_data d' ! unat (cmos_register_code other) = cmos_data d ! unat (cmos_register_code other))"
proof -
  let ?d = "d\<lparr>cmos_addr := reg\<rparr>"
  have a: "rtc_on_port_write RTC_ADDRESS (WriteOneByte i) d = (Ok (), ?d)"
    by (simp add: rtc_write_address assms(2) cmos_register.try_from_disc)
  have ok: "rtc_ok ?d" using assms(1) by (simp add: rtc_ok_def)
  have d': "r = Ok ()" "d' = (if writable reg
      then ?d\<lparr>cmos_data := (cmos_data d)[unat (cmos_register_code reg) := b AND 0x7f]\<rparr> else ?d)"
    using assms(3) by (auto simp: bind_state_def a rtc_write_data [OF ok])
  then have ok': "rtc_ok d'" using assms(1) by (simp add: rtc_ok_def)
  have idx: "unat (cmos_register_code reg) < length (cmos_data d)"
    using assms(1) cmos_register_bound [of reg] by (simp add: rtc_ok_def)
  have inj: "unat (cmos_register_code other) \<noteq> unat (cmos_register_code reg)" if "other \<noteq> reg" for other
    using that cmos_register.try_from_disc [of other] cmos_register.try_from_disc [of reg]
    by (metis option.inject word_unat_eq_iff)
  have "rtc_on_port_read RTC_DATA (ReadOneByte x) d' =
      (Ok (ReadOneByte (if writable reg then b AND 0x7f else cmos_data d ! unat (cmos_register_code reg))), d')"
    using idx by (simp only: rtc_read_data [OF ok']) (simp add: d')
  with ok' show ?thesis by (simp add: d' nth_list_update_neq [OF inj [THEN not_sym]])
qed

theorem rtc_write_read_witness:
  "\<exists>d'. snd (bind_state (rtc_on_port_write RTC_ADDRESS (WriteOneByte 0x8b))
      (\<lambda>_. rtc_on_port_write RTC_DATA (WriteOneByte 0x82)) (rtc_new 64)) = d' \<and>
    rtc_on_port_read RTC_DATA (ReadOneByte 0) d' = (Ok (ReadOneByte 0x02), d')"
proof -
  let ?w = "bind_state (rtc_on_port_write RTC_ADDRESS (WriteOneByte 0x8b))
      (\<lambda>_. rtc_on_port_write RTC_DATA (WriteOneByte 0x82)) (rtc_new 64)"
  have "rtc_ok (rtc_new 64)" by (simp add: rtc_ok_def rtc_new_def default_register_values_def)
  moreover have "(0x8b :: u8) AND 0x7f = cmos_register_code StatusRegisterB" by simp
  ultimately show ?thesis
    using rtc_write_read [of "rtc_new 64" "0x8b" StatusRegisterB "0x82" "fst ?w" "snd ?w" 0]
    by (simp add: writable_def)
qed

text \<open>
  The memory size a guest with 16 to 4095 MiB finds in the clock's registers is its
  size above 16 MiB in blocks of 64 KiB.
\<close>

theorem rtc_memory_size:
  assumes "16 \<le> mem" "mem < 4096"
  shows "default_register_values mem ! 0x34 = ucast (blocks_under_4gb mem) \<and>
    default_register_values mem ! 0x35 = ucast (drop_bit 8 (blocks_under_4gb mem)) \<and>
    unat (blocks_under_4gb mem) = (unat mem - 16) * 16"
proof -
  have m: "unat mem < 4096" "16 \<le> unat mem" using assms by (simp_all add: word_less_nat_alt word_le_nat_alt)
  have "mem AND 0xfff = take_bit 12 mem" by (simp add: take_bit_eq_mask mask_eq_exp_minus_1)
  also have "\<dots> = mem" using assms(2) by (intro take_bit_less) simp_all
  finally have "mem AND 0xfff = mem" .
  moreover have "unat (mem - 16) = unat mem - 16" using assms(1) by (simp add: unat_sub)
  moreover have "unat (push_bit 4 w) = unat w * 16" if "unat w < 4096" for w :: u64
    using that by (simp add: push_bit_eq_mult unat_word_ariths)
  ultimately have "unat (blocks_under_4gb mem) = (unat mem - 16) * 16"
    using m by (simp add: blocks_under_4gb_def unsigned_ucast_eq take_bit_nat_eq_self_iff del: push_bit_of_1)
  then show ?thesis by (simp add: default_register_values_def nth_list_update)
qed

theorem rtc_memory_size_witness: "unat (blocks_under_4gb 512) = (unat (512 :: u64) - 16) * 16"
  using rtc_memory_size [of 512] by simp

end
