(* ===== verification/Serial.thy ===== *)
theory Serial
  imports Emulated_Device Apic
begin

text \<open>
  The virtual serial port (\<open>virtdev/com.rs\<close>) with the register numbers and flags of
  \<open>physdev/com.rs\<close>. Bytes from the host are put into the receive buffer and raise a
  GSI; bytes the guest writes become responses the machine forwards to the host.
\<close>

section \<open>Registers\<close>

definition SerialOffset_DATA :: u16 where "SerialOffset_DATA = 0"
definition SerialOffset_DLL :: u16 where "SerialOffset_DLL = 0"
definition SerialOffset_IER :: u16 where "SerialOffset_IER = 1"
definition SerialOffset_IIR :: u16 where "SerialOffset_IIR = 2"
definition SerialOffset_LSR :: u16 where "SerialOffset_LSR = 5"

definition THR_EMPTY_INTERRUPT :: u8 where "THR_EMPTY_INTERRUPT = push_bit 1 1"
definition DATA_READY :: u8 where "DATA_READY = push_bit 0 1"
definition EMPTY_TRANSMIT_HOLDING_REGISTER :: u8 where "EMPTY_TRANSMIT_HOLDING_REGISTER = push_bit 5 1"
definition EMPTY_DATA_HOLDING_REGISTER :: u8 where "EMPTY_DATA_HOLDING_REGISTER = push_bit 6 1"

lemmas serial_defs = SerialOffset_DATA_def SerialOffset_DLL_def SerialOffset_IER_def SerialOffset_IIR_def
  SerialOffset_LSR_def THR_EMPTY_INTERRUPT_def DATA_READY_def EMPTY_TRANSMIT_HOLDING_REGISTER_def
  EMPTY_DATA_HOLDING_REGISTER_def

text \<open>
  Every bit of an \<open>IerFlags\<close> is a flag, so \<open>from_bits_truncate\<close> keeps the byte.
\<close>

record Uart8250 =
  base_port :: Port
  divisor :: u16
  receive_buffer :: "u8 option"
  interrupt_enable_register :: u8
  interrupt_identification_register :: u8
  line_control_register :: u8
  modem_control_register :: u8
  line_status_register :: u8
  modem_status_register :: u8
  scratch_register :: u8
  ctrl_a_count :: u8

definition uart_new :: "Port \<Rightarrow> Uart8250" where
  "uart_new base =
    \<lparr>base_port = base, divisor = 0, receive_buffer = None, interrupt_enable_register = 0,
     interrupt_identification_register = 0x01, line_control_register = 0, modem_control_register = 0,
     line_status_register = 0, modem_status_register = 0, scratch_register = 0, ctrl_a_count = 0\<rparr>"

definition divisor_latch_bit_set :: "Uart8250 \<Rightarrow> bool" where
  "divisor_latch_bit_set u \<longleftrightarrow> line_control_register u AND push_bit 7 1 \<noteq> 0"

definition uart_write :: "u8 \<Rightarrow> Uart8250 \<Rightarrow> Uart8250" where
  "uart_write data u = u\<lparr>receive_buffer := Some data, interrupt_identification_register := 0b100\<rparr>"

definition uart_services :: "Uart8250 \<Rightarrow> DeviceRegion list" where
  "uart_services u = [PortIo (base_port u) (base_port u + 7)]"

section \<open>Events\<close>

definition uart_host_received :: "u8 \<Rightarrow> Uart8250 handler" where
  "uart_host_received key =
    bind_state (respond (GSI gsi_UART)) (\<lambda>_.
    bind_state (on_fst (\<lambda>u. (Ok (), if key = 0x01 then u\<lparr>ctrl_a_count := ctrl_a_count u + 1\<rparr> else u))) (\<lambda>_.
    bind_state (\<lambda>(u, ev).
        if ctrl_a_count u = 3
        then bind_state (respond NextConsole) (\<lambda>_. on_fst (\<lambda>u. (Ok (), u\<lparr>ctrl_a_count := 0\<rparr>))) (u, ev)
        else (Ok (), (u, ev))) (\<lambda>_.
    on_fst (\<lambda>u. (Ok (), uart_write key u)))))"

definition uart_line_status :: "Uart8250 \<Rightarrow> u8" where
  "uart_line_status u =
    (EMPTY_TRANSMIT_HOLDING_REGISTER OR EMPTY_DATA_HOLDING_REGISTER)
      OR (if receive_buffer u \<noteq> None then DATA_READY else 0)"

definition uart_on_port_read :: "Port \<Rightarrow> PortReadRequest \<Rightarrow> (Uart8250, PortReadRequest, Error) action" where
  "uart_on_port_read port val u =
    (let offset = port - base_port u;
         (val, u) =
           (if offset = SerialOffset_DATA \<and> \<not> divisor_latch_bit_set u then
              (case receive_buffer u of
                 Some b \<Rightarrow> (copy_from_u32 (ucast b) val,
                   u\<lparr>receive_buffer := None, interrupt_identification_register := 1\<rparr>)
               | None \<Rightarrow> (val, u))
            else if offset = SerialOffset_DATA \<and> divisor_latch_bit_set u then
              (copy_from_u32 (ucast (divisor u AND 0xff)) val, u)
            else if offset = SerialOffset_DLL \<and> divisor_latch_bit_set u then
              (copy_from_u32 (ucast (drop_bit 8 (divisor u))) val, u)
            else (val, u));
         (val, u) =
           (if offset = SerialOffset_IIR then
              (copy_from_u32 (ucast (interrupt_identification_register u)) val,
               u\<lparr>interrupt_identification_register := 1\<rparr>)
            else if offset = SerialOffset_IER then
              (copy_from_u32 (ucast (interrupt_enable_register u)) val, u)
            else (val, u));
         val = (if offset = SerialOffset_LSR then copy_from_u32 (ucast (uart_line_status u)) val else val)
     in (Ok val, u))"

definition uart_on_port_write :: "Port \<Rightarrow> PortWriteRequest \<Rightarrow> Uart8250 handler" where
  "uart_on_port_write port req =
    bind_state (lift_state (write_try_into_u8 req)) (\<lambda>val.
    bind_state (\<lambda>(u, ev).
        if port - base_port u = SerialOffset_DATA then
          if divisor_latch_bit_set u then
            (Ok (), (u\<lparr>divisor := divisor u AND (0xff00 OR ucast val)\<rparr>, ev))
          else
            bind_state (respond (GuestUartTransmitted val)) (\<lambda>_.
            bind_state (if interrupt_enable_register u AND THR_EMPTY_INTERRUPT = THR_EMPTY_INTERRUPT
                        then respond (GSI gsi_UART) else return_state ()) (\<lambda>_.
            on_fst (\<lambda>u. (Ok (), u\<lparr>interrupt_identification_register := 0b10\<rparr>)))) (u, ev)
        else if port - base_port u = SerialOffset_DLL \<and> divisor_latch_bit_set u then
          (Ok (), (u\<lparr>divisor := (divisor u AND 0xff) OR push_bit 8 (ucast val)\<rparr>, ev))
        else (Ok (), (u, ev))) (\<lambda>_.
    on_fst (\<lambda>u. (Ok (), if port - base_port u = SerialOffset_IER then u\<lparr>interrupt_enable_register := val\<rparr> else u))))"

definition uart_on_event :: "Uart8250 handler" where
  "uart_on_event = (\<lambda>(u, ev).
    case event_kind ev of
      HostUartReceived key \<Rightarrow> uart_host_received key (u, ev)
    | PortRead port val \<Rightarrow>
        bind_state (on_fst (uart_on_port_read port val))
          (\<lambda>val'. on_snd (\<lambda>ev. (Ok (), ev\<lparr>event_kind := PortRead port val'\<rparr>))) (u, ev)
    | PortWrite port val \<Rightarrow> uart_on_port_write port val (u, ev)
    | _ \<Rightarrow> (Ok (), (u, ev)))"

section \<open>The invariant\<close>

text \<open>
  The line control register is never written, so the divisor latch is never open
  and the divisor stays 0.
\<close>

definition uart_ok :: "Uart8250 \<Rightarrow> bool" where
  "uart_ok u \<longleftrightarrow> line_control_register u = 0 \<and> divisor u = 0 \<and> ctrl_a_count u < 3"

lemma uart_ok_latch [simp]: "uart_ok u \<Longrightarrow> \<not> divisor_latch_bit_set u"
  by (simp add: uart_ok_def divisor_latch_bit_set_def)

lemma uart_host_received_eq:
  fixes key
  assumes "uart_ok u" "has_room ev"
  defines "count \<equiv> (if key = 0x01 then ctrl_a_count u + 1 else ctrl_a_count u)"
  shows "uart_host_received key (u, ev) =
    (Ok (), (u\<lparr>ctrl_a_count := (if count = 3 then 0 else count), receive_buffer := Some key,
               interrupt_identification_register := 0b100\<rparr>,
             ev\<lparr>event_responses := event_responses ev @ [GSI gsi_UART] @ (if count = 3 then [NextConsole] else [])\<rparr>))"
  using assms(1,2)
  by (auto simp: uart_host_received_def bind_state_def respond_room has_room_def on_fst_def uart_write_def count_def)

lemma uart_count_step:
  assumes "(c :: u8) < 3"
  shows "(if c + 1 = 3 then 0 else c + 1) < 3"
proof -
  from assms have "unat c = 0 \<or> unat c = 1 \<or> unat c = 2" by (auto simp: word_less_nat_alt)
  then have "c = 0 \<or> c = 1 \<or> c = 2" by (auto simp: word_unat_eq_iff)
  then show ?thesis by auto
qed

lemma uart_read_returns:
  assumes "uart_ok u"
  shows "\<exists>val' u'. uart_on_port_read p r u = (Ok val', u') \<and> uart_ok u' \<and> base_port u' = base_port u \<and>
    read_len val' = read_len r"
proof (cases "p - base_port u = SerialOffset_DATA")
  case True
  then show ?thesis
    using assms
    by (cases "receive_buffer u") (auto simp: uart_on_port_read_def serial_defs uart_ok_def divisor_latch_bit_set_def)
next
  case False
  then show ?thesis
    using assms by (auto simp: uart_on_port_read_def Let_def uart_ok_def)
qed

lemma uart_write_eq:
  assumes "uart_ok u" "has_room ev"
  shows "uart_on_port_write p (WriteOneByte b) (u, ev) =
    (if p - base_port u = SerialOffset_DATA then
       (Ok (), (u\<lparr>interrupt_identification_register := 0b10\<rparr>,
          ev\<lparr>event_responses := event_responses ev @ [GuestUartTransmitted b] @
            (if interrupt_enable_register u AND THR_EMPTY_INTERRUPT = THR_EMPTY_INTERRUPT then [GSI gsi_UART] else [])\<rparr>))
     else (Ok (), (if p - base_port u = SerialOffset_IER then u\<lparr>interrupt_enable_register := b\<rparr> else u, ev)))"
  using assms
  by (auto simp: uart_on_port_write_def write_try_into_u8_def lift_state_def bind_state_def respond_room has_room_def
      on_fst_def return_state_def SerialOffset_DATA_def SerialOffset_IER_def)

lemma uart_write_wide:
  assumes "\<nexists>b. w = WriteOneByte b"
  shows "uart_on_port_write p w (u, ev) = (Err InvalidValue, (u, ev))"
proof -
  have "write_try_into_u8 w = Err InvalidValue" using assms by (cases w) (simp_all add: write_try_into_u8_def)
  then show ?thesis by (simp add: uart_on_port_write_def bind_lift)
qed

interpretation uart: emulated_device uart_services uart_on_event uart_ok
proof
  show "returns r \<and> uart_ok u' \<and> uart_services u' = uart_services u \<and> same_shape (event_kind ev) (event_kind ev')"
    if "uart_ok u" "has_room ev" "uart_on_event (u, ev) = (r, (u', ev'))" for u ev r u' ev'
  proof (cases "event_kind ev")
    case (HostUartReceived key)
    then show ?thesis
      using that uart_count_step [of "ctrl_a_count u"]
      by (auto simp: uart_on_event_def uart_host_received_eq uart_ok_def uart_services_def split: if_splits)
  next
    case (PortRead p v)
    then show ?thesis
      using that(3) uart_read_returns [OF that(1), of p v]
      by (auto simp: uart_on_event_def bind_state_def on_fst_def on_snd_def uart_services_def)
  next
    case (PortWrite p w)
    then show ?thesis
      using that uart_write_eq [OF that(1,2), of p] uart_write_wide [of w p u ev]
      by (cases "\<exists>b. w = WriteOneByte b")
        (auto simp: uart_on_event_def uart_ok_def uart_services_def split: if_splits)
  qed (use that in \<open>auto simp: uart_on_event_def\<close>)
qed

section \<open>Properties\<close>

text \<open>
  C22: A byte from the host reaches the guest. The event raises the UART interrupt and
  makes the line status show data ready; the next read of the data port gives the byte,
  and after it the line status shows no data.
\<close>

theorem uart_delivers:
  assumes "uart_ok u" "has_room ev" "event_kind ev = HostUartReceived b"
    and "uart_on_event (u, ev) = (r, (u', ev'))"
  shows "r = Ok () \<and> GSI gsi_UART \<in> set (event_responses ev') \<and> bit (uart_line_status u') 0 \<and>
    (\<exists>u''. uart_on_port_read (base_port u + SerialOffset_DATA) (ReadOneByte x) u' = (Ok (ReadOneByte b), u'') \<and>
      \<not> bit (uart_line_status u'') 0)"
proof -
  from assms have e: "r = Ok ()" "receive_buffer u' = Some b" "base_port u' = base_port u"
      "line_control_register u' = 0" "GSI gsi_UART \<in> set (event_responses ev')"
    by (auto simp: uart_on_event_def uart_host_received_eq uart_ok_def)
  then have l: "\<not> divisor_latch_bit_set u'" by (simp add: divisor_latch_bit_set_def)
  have "uart_on_port_read (base_port u + SerialOffset_DATA) (ReadOneByte x) u' =
      (Ok (ReadOneByte b), u'\<lparr>receive_buffer := None, interrupt_identification_register := 1\<rparr>)"
    using e l by (simp add: uart_on_port_read_def serial_defs Let_def)
  then show ?thesis
    using e by (simp add: uart_line_status_def serial_defs bit_or_iff bit_push_bit_iff bit_1_iff)
qed

theorem uart_delivers_witness:
  "\<exists>u'. fst (snd (uart_on_event (uart_new 0x3f8, idle_event (HostUartReceived 0x41)))) = u' \<and>
    bit (uart_line_status u') 0"
proof -
  let ?r = "uart_on_event (uart_new 0x3f8, idle_event (HostUartReceived 0x41))"
  have "uart_ok (uart_new 0x3f8)" "has_room (idle_event (HostUartReceived 0x41))"
    "event_kind (idle_event (HostUartReceived 0x41)) = HostUartReceived 0x41"
    by (simp_all add: uart_ok_def uart_new_def has_room_def idle_event_def MAX_EVENT_RESPONSES_def)
  from uart_delivers [OF this, of "fst ?r" "fst (snd ?r)" "snd (snd ?r)" 0] show ?thesis by simp
qed

text \<open>The machine of a serial port the host sends bytes to: the responses, in order.\<close>

fun host_bytes :: "u8 list \<Rightarrow> Event \<Rightarrow> Uart8250 \<Rightarrow> DeviceEventResponse list" where
  "host_bytes [] ev u = []"
| "host_bytes (b # bs) ev u =
    (case uart_on_event (u, ev\<lparr>event_kind := HostUartReceived b, event_responses := []\<rparr>) of
       (r, (u', ev')) \<Rightarrow> event_responses ev' @ host_bytes bs ev u')"

text \<open>
  C23: Every third ctrl-a (byte 1) the host sends asks for the next console, no matter what is
  typed in between, and every byte raises the interrupt once.
\<close>

theorem uart_next_console:
  assumes "uart_ok u"
  shows "count_list (host_bytes bs ev u) NextConsole = (unat (ctrl_a_count u) + count_list bs 1) div 3 \<and>
    count_list (host_bytes bs ev u) (GSI gsi_UART) = length bs"
  using assms
proof (induction bs arbitrary: u)
  case Nil
  then show ?case by (simp add: uart_ok_def word_less_nat_alt)
next
  case (Cons b bs)
  let ?c = "if b = 0x01 then ctrl_a_count u + 1 else ctrl_a_count u"
  let ?ev = "ev\<lparr>event_kind := HostUartReceived b, event_responses := []\<rparr>"
  let ?u = "u\<lparr>ctrl_a_count := (if ?c = 3 then 0 else ?c), receive_buffer := Some b, interrupt_identification_register := 0b100\<rparr>"
  have room: "has_room ?ev" by (simp add: has_room_def MAX_EVENT_RESPONSES_def)
  have c: "unat (ctrl_a_count u) < 3" using Cons(2) by (simp add: uart_ok_def word_less_nat_alt)
  then have c1: "unat (ctrl_a_count u + 1) = unat (ctrl_a_count u) + 1" by (simp add: unat_word_ariths)
  have ok: "uart_ok ?u"
    using Cons(2) uart_count_step [of "ctrl_a_count u"] by (auto simp: uart_ok_def)
  have run: "host_bytes (b # bs) ev u = [GSI gsi_UART] @ (if ?c = 3 then [NextConsole] else []) @ host_bytes bs ev ?u"
    using uart_host_received_eq [OF Cons(2) room, of b] by (simp add: uart_on_event_def)
  have "?c = 3 \<longleftrightarrow> unat ?c = 3" by (simp add: word_unat_eq_iff)
  moreover have "(if unat ?c = 3 then 1 else 0) + (unat (if unat ?c = 3 then 0 else ?c) + n) div 3 =
      (unat (ctrl_a_count u) + (if b = 0x01 then Suc n else n)) div 3" for n
    using c c1 by auto
  ultimately show ?case
    unfolding run using Cons(1) [OF ok] by (auto simp: run)
qed

theorem uart_next_console_witness:
  "count_list (host_bytes [1, 0x61, 1, 1, 0x62] (idle_event (HostUartReceived 0)) (uart_new 0x3f8)) NextConsole = 1"
proof -
  have "uart_ok (uart_new 0x3f8)" by (simp add: uart_ok_def uart_new_def)
  moreover have "ctrl_a_count (uart_new 0x3f8) = 0" by (simp add: uart_new_def)
  ultimately show ?thesis using uart_next_console [of "uart_new 0x3f8"] by (simp del: host_bytes.simps)
qed

end
