(* ===== verification/Pci.thy ===== *)
theory Pci
  imports Emulated_Device
begin

text \<open>
  The virtual PCI root complex (\<open>virtdev/pci.rs\<close>): configuration spaces, bus addresses
  and the two configuration ports.

  A configuration space is a packed C structure whose 256 bytes are read as 64
  little-endian registers; the model lays the bytes out and reads the registers from
  them.
\<close>

section \<open>Configuration spaces\<close>

definition VendorId_Intel :: u16 where "VendorId_Intel = 0x8086"
definition DeviceId_P35Mch :: u16 where "DeviceId_P35Mch = 0x29c0"
definition DeviceId_Ich9 :: u16 where "DeviceId_Ich9 = 0x2918"

record PciNonBridgeHeader =
  vendor_id :: u16
  device_id :: u16
  command :: u16
  pci_status :: u16
  revision_id :: u8
  prog_if :: u8
  pci_subclass :: u8
  pci_class :: u8
  cache_line_size :: u8
  latency_timer :: u8
  header_type :: u8
  bist :: u8
  bar_0 :: u32
  bar_1 :: u32
  bar_2 :: u32
  bar_3 :: u32
  bar_4 :: u32
  bar_5 :: u32
  cardbus_cis :: u32
  subsystem_vendor_id :: u16
  subsystem_id :: u16
  expansion_rom_addr :: u32
  capabilities :: u8
  pci_reserved :: "u8 list"
  interrupt_line :: u8
  interrupt_pin :: u8
  min_grant :: u8
  max_latency :: u8

definition header_default :: PciNonBridgeHeader where
  "header_default =
    \<lparr>vendor_id = 0, device_id = 0, command = 0, pci_status = 0, revision_id = 0, prog_if = 0,
     pci_subclass = 0, pci_class = 0, cache_line_size = 0, latency_timer = 0, header_type = 0, bist = 0,
     bar_0 = 0, bar_1 = 0, bar_2 = 0, bar_3 = 0, bar_4 = 0, bar_5 = 0, cardbus_cis = 0,
     subsystem_vendor_id = 0, subsystem_id = 0, expansion_rom_addr = 0, capabilities = 0,
     pci_reserved = replicate 7 0, interrupt_line = 0, interrupt_pin = 0, min_grant = 0, max_latency = 0\<rparr>"

definition header_bytes :: "PciNonBridgeHeader \<Rightarrow> u8 list" where
  "header_bytes h =
    le_bytes 2 (vendor_id h) @ le_bytes 2 (device_id h) @ le_bytes 2 (command h) @ le_bytes 2 (pci_status h) @
    [revision_id h, prog_if h, pci_subclass h, pci_class h, cache_line_size h, latency_timer h, header_type h, bist h] @
    le_bytes 4 (bar_0 h) @ le_bytes 4 (bar_1 h) @ le_bytes 4 (bar_2 h) @ le_bytes 4 (bar_3 h) @
    le_bytes 4 (bar_4 h) @ le_bytes 4 (bar_5 h) @ le_bytes 4 (cardbus_cis h) @
    le_bytes 2 (subsystem_vendor_id h) @ le_bytes 2 (subsystem_id h) @ le_bytes 4 (expansion_rom_addr h) @
    [capabilities h] @ pci_reserved h @ [interrupt_line h, interrupt_pin h, min_grant h, max_latency h]"

record PciNonBridgeSpace =
  space_header :: PciNonBridgeHeader
  space_data :: "u32 list"

definition non_bridge_new :: "PciNonBridgeHeader \<Rightarrow> PciNonBridgeSpace" where
  "non_bridge_new h = \<lparr>space_header = h, space_data = replicate 48 0\<rparr>"

datatype PciConfigSpace =
    Type0 PciNonBridgeSpace
  | Type1 "u32 list"
  | Type2 "u32 list"

fun le_words :: "nat \<Rightarrow> u8 list \<Rightarrow> u32 list" where
  "le_words 0 bs = []"
| "le_words (Suc n) bs = from_le_bytes (take 4 bs) # le_words n (drop 4 bs)"

primrec as_registers :: "PciConfigSpace \<Rightarrow> u32 list" where
  "as_registers (Type0 s) = le_words 16 (header_bytes (space_header s)) @ space_data s"
| "as_registers (Type1 regs) = regs"
| "as_registers (Type2 regs) = regs"

definition read_register :: "PciConfigSpace \<Rightarrow> u8 \<Rightarrow> u32 res" where
  "read_register s r = index_at (as_registers s) (unat r)"

section \<open>Bus addresses\<close>

record PciBdf =
  bdf_bus :: u8
  bdf_device :: "5 word"
  bdf_function :: "3 word"

definition bdf_from :: "u16 \<Rightarrow> PciBdf" where
  "bdf_from bytes =
    \<lparr>bdf_bus = ucast (drop_bit 8 (bytes AND 0xff00)), bdf_device = ucast (drop_bit 3 (bytes AND 0b11111000)),
     bdf_function = ucast (bytes AND 0b111)\<rparr>"

definition bdf_into :: "PciBdf \<Rightarrow> u16" where
  "bdf_into b = push_bit 8 (ucast (bdf_bus b)) OR push_bit 3 (ucast (bdf_device b)) OR ucast (bdf_function b)"

section \<open>The root complex\<close>

record PciDevice =
  config_space :: PciConfigSpace
  pci_bdf :: PciBdf

record PciRootComplex =
  current_address :: u32
  pci_devices :: "u16 \<rightharpoonup> PciDevice"

definition PCI_CONFIG_ADDRESS :: Port where "PCI_CONFIG_ADDRESS = 0xcf8"
definition PCI_CONFIG_TYPE :: Port where "PCI_CONFIG_TYPE = 0xcfb"
definition PCI_CONFIG_DATA :: Port where "PCI_CONFIG_DATA = 0xcfc"
definition PCI_CONFIG_DATA_MAX :: Port where "PCI_CONFIG_DATA_MAX = PCI_CONFIG_DATA + 3"

lemmas pci_port_defs = PCI_CONFIG_ADDRESS_def PCI_CONFIG_TYPE_def PCI_CONFIG_DATA_def PCI_CONFIG_DATA_MAX_def

definition intel_device :: "u16 \<Rightarrow> u16 \<Rightarrow> PciDevice" where
  "intel_device bdf dev =
    \<lparr>config_space = Type0 (non_bridge_new (header_default\<lparr>vendor_id := VendorId_Intel, device_id := dev\<rparr>)),
     pci_bdf = bdf_from bdf\<rparr>"

definition pci_new :: PciRootComplex where
  "pci_new =
    (let host_bridge = intel_device 0x0000 DeviceId_P35Mch;
         ich9 = intel_device 0b1000 DeviceId_Ich9
     in \<lparr>current_address = 0,
         pci_devices = [bdf_into (pci_bdf host_bridge) \<mapsto> host_bridge, bdf_into (pci_bdf ich9) \<mapsto> ich9]\<rparr>)"

definition pci_services :: "PciRootComplex \<Rightarrow> DeviceRegion list" where
  "pci_services d =
    [PortIo PCI_CONFIG_ADDRESS PCI_CONFIG_ADDRESS, PortIo PCI_CONFIG_DATA PCI_CONFIG_DATA_MAX,
     PortIo PCI_CONFIG_TYPE PCI_CONFIG_TYPE]"

text \<open>\<open>&\<close> binds weaker than \<open>>>\<close>: the register number is masked with \<open>0xff >> 2\<close>.\<close>

definition pci_on_port_read :: "Port \<Rightarrow> PortReadRequest \<Rightarrow> (PciRootComplex, PortReadRequest, Error) action" where
  "pci_on_port_read port val d =
    (if port = PCI_CONFIG_ADDRESS then (Ok (copy_from_u32 (0x80000000 OR current_address d) val), d)
     else if PCI_CONFIG_DATA \<le> port \<and> port \<le> PCI_CONFIG_DATA_MAX then
       let bdf = ucast (drop_bit 8 (current_address d AND 0xffff00)) :: u16;
           reg = ucast (current_address d AND drop_bit 2 0xff) :: u8;
           offset = ucast (port - PCI_CONFIG_DATA) :: u8
       in (case pci_devices d bdf of
             Some device \<Rightarrow>
               (and_then (read_register (config_space device) reg)
                  (\<lambda>v. Ok (copy_from_u32 (drop_bit (unat (offset * 8)) v) val)), d)
           | None \<Rightarrow> (Ok (copy_from_u32 0xffffffff val), d))
     else (Err InvalidValue, d))"

definition pci_on_port_write :: "Port \<Rightarrow> PortWriteRequest \<Rightarrow> (PciRootComplex, unit, Error) action" where
  "pci_on_port_write port val =
    (if port = PCI_CONFIG_ADDRESS then
       bind_state (lift_state (write_try_into_u32 val))
         (\<lambda>addr d. (Ok (), d\<lparr>current_address := addr AND 0x7fffffff\<rparr>))
     else return_state ())"

definition pci_on_event :: "PciRootComplex handler" where
  "pci_on_event = port_handler pci_on_port_read pci_on_port_write"

section \<open>It is a device\<close>

definition pci_ok :: "PciRootComplex \<Rightarrow> bool" where
  "pci_ok d \<longleftrightarrow> (\<forall>dev \<in> ran (pci_devices d). length (as_registers (config_space dev)) = 64)"

lemma length_le_words [simp]: "length (le_words n bs) = n"
  by (induction n bs rule: le_words.induct) auto

lemma pci_new_ok: "pci_ok pci_new"
proof -
  have "length (as_registers (config_space (intel_device bdf dev))) = 64" for bdf dev
    by (simp add: intel_device_def non_bridge_new_def)
  then show ?thesis by (auto simp: pci_ok_def pci_new_def Let_def ran_def split: if_splits)
qed

lemma pci_register_index: "unat (ucast (a AND drop_bit 2 0xff) :: u8) = unat (a AND 0x3f)" for a :: u32
proof -
  have m: "drop_bit 2 0xff = (mask 6 :: u32)" "(0x3f :: u32) = mask 6"
    by (simp_all add: mask_eq_exp_minus_1)
  have "unat (a AND mask 6) < 2 ^ 6"
    using take_bit_nat_less_exp [of 6 "unat a"]
    by (simp add: take_bit_eq_mask [symmetric] unsigned_take_bit_eq)
  then show ?thesis unfolding m by (simp add: unsigned_ucast_eq take_bit_nat_eq_self_iff)
qed

lemma pci_register_bound: "unat (ucast (a AND drop_bit 2 0xff) :: u8) < 64" for a :: u32
proof -
  have "(0x3f :: u32) = mask 6" by (simp add: mask_eq_exp_minus_1)
  then have "unat (a AND 0x3f) < 2 ^ 6"
    by (simp only: take_bit_eq_mask [symmetric] unsigned_take_bit_eq) (rule take_bit_nat_less_exp)
  then show ?thesis by (simp only: pci_register_index) simp
qed

lemma pci_read_returns:
  assumes "pci_ok d"
  shows "fst (pci_on_port_read p r d) = Err InvalidValue \<or> (\<exists>v. fst (pci_on_port_read p r d) = Ok (copy_from_u32 v r))"
    and "snd (pci_on_port_read p r d) = d"
proof -
  have ex: "\<exists>v. read_register (config_space dev) (ucast (current_address d AND drop_bit 2 0xff)) = Ok v"
    if "pci_devices d i = Some dev" for i dev
  proof -
    have "length (as_registers (config_space dev)) = 64" using assms that by (auto simp: pci_ok_def ran_def)
    then show ?thesis
      using pci_register_bound [of "current_address d"] by (simp add: read_register_def index_at_def)
  qed
  show "fst (pci_on_port_read p r d) = Err InvalidValue \<or> (\<exists>v. fst (pci_on_port_read p r d) = Ok (copy_from_u32 v r))"
  proof (cases "pci_devices d (ucast (drop_bit 8 (current_address d AND 0xffff00)))")
    case (Some dev)
    with ex obtain v where "read_register (config_space dev) (ucast (current_address d AND drop_bit 2 0xff)) = Ok v"
      by blast
    with Some show ?thesis by (auto simp: pci_on_port_read_def Let_def)
  qed (auto simp: pci_on_port_read_def Let_def)
  show "snd (pci_on_port_read p r d) = d"
    by (simp add: pci_on_port_read_def Let_def split: option.split)
qed

lemma pci_write_returns:
  "pci_ok d \<Longrightarrow> returns (fst (pci_on_port_write p w d)) \<and> pci_ok (snd (pci_on_port_write p w d))"
  by (cases w) (simp_all add: pci_on_port_write_def bind_lift write_try_into_u32_def return_state_def pci_ok_def)

interpretation pci: emulated_device pci_services pci_on_event pci_ok
proof
  show "returns r \<and> pci_ok d' \<and> pci_services d' = pci_services d \<and> same_shape (event_kind ev) (event_kind ev')"
    if "pci_ok d" "served (pci_services d) (event_kind ev)" "pci_on_event (d, ev) = (r, (d', ev'))" for d ev r d' ev'
    unfolding pci_on_event_def
  proof (rule port_handler_serve [where I = pci_ok and services = pci_services, OF _ _ that(1,2)])
    show "returns (fst (pci_on_port_read p r d)) \<and> pci_ok (snd (pci_on_port_read p r d)) \<and>
        pci_services (snd (pci_on_port_read p r d)) = pci_services d \<and>
        (\<forall>r'. fst (pci_on_port_read p r d) = Ok r' \<longrightarrow> read_len r' = read_len r)" for p r
      using pci_read_returns [OF that(1), of p r] that(1) by (auto simp: read_len_copy)
    show "returns (fst (pci_on_port_write p w d)) \<and> pci_ok (snd (pci_on_port_write p w d)) \<and>
        pci_services (snd (pci_on_port_write p w d)) = pci_services d" for p w
      using pci_write_returns [OF that(1), of p w] by (simp add: pci_services_def)
  qed (use that(3) in \<open>simp add: pci_on_event_def\<close>)
qed

section \<open>Properties\<close>

text \<open>A bus, device and function number and its 16-bit encoding determine each other.\<close>

theorem pci_bdf_roundtrip: "bdf_into (bdf_from w) = w \<and> bdf_from (bdf_into b) = b"
proof
  have m: "(0xff00 :: u16) = push_bit 8 (mask 8)" "(0b11111000 :: u16) = push_bit 3 (mask 5)" "(0b111 :: u16) = mask 3"
    by (simp_all add: mask_eq_exp_minus_1 push_bit_eq_mult)
  show "bdf_into (bdf_from w) = w"
  proof (rule bit_word_eqI)
    show "bit (bdf_into (bdf_from w)) n = bit w n" if "n < LENGTH(16)" for n
      unfolding bdf_into_def bdf_from_def m
      using that by (cases "n < 3"; cases "n < 8") (auto simp: bit_simps)
  qed
  have bits: "\<not> bit (bdf_device b) n" if "5 \<le> n" for n using that bit_imp_le_length [of "bdf_device b" n] by auto
  have bits3: "\<not> bit (bdf_function b) n" if "3 \<le> n" for n using that bit_imp_le_length [of "bdf_function b" n] by auto
  have "bdf_bus (bdf_from (bdf_into b)) = bdf_bus b" "bdf_device (bdf_from (bdf_into b)) = bdf_device b"
    "bdf_function (bdf_from (bdf_into b)) = bdf_function b"
    unfolding bdf_into_def bdf_from_def m
    by (intro bit_word_eqI; auto simp: bit_simps bits bits3)+
  then show "bdf_from (bdf_into b) = b" by simp
qed

text \<open>
  C24: Configuration reads. After a four-byte write of \<open>addr\<close> to the address port, a read of
  the data port gives the register \<open>addr AND 0x3f\<close> of the device whose number is in
  bits 23:8 of \<open>addr\<close>, all ones if there is none, and the address port reads back
  \<open>addr\<close> with the enable bit set. (The register number of the PCI specification is
  in bits 7:2 of \<open>addr\<close>.)
\<close>

theorem pci_config_read:
  assumes "pci_ok d" "write_try_into_u32 w = Ok addr" "pci_on_port_write PCI_CONFIG_ADDRESS w d = (r, d')"
  shows "r = Ok () \<and>
    pci_on_port_read PCI_CONFIG_ADDRESS val d' = (Ok (copy_from_u32 (0x80000000 OR addr AND 0x7fffffff) val), d') \<and>
    pci_on_port_read PCI_CONFIG_DATA val d' =
      (Ok (copy_from_u32
        (case pci_devices d (ucast (drop_bit 8 addr)) of
           None \<Rightarrow> 0xffffffff
         | Some dev \<Rightarrow> as_registers (config_space dev) ! unat (addr AND 0x3f)) val), d')"
proof -
  have d': "r = Ok ()" "d' = d\<lparr>current_address := addr AND 0x7fffffff\<rparr>"
    using assms(2,3) by (auto simp: pci_on_port_write_def bind_lift)
  have cur: "current_address d' = addr AND 0x7fffffff" "pci_devices d' = pci_devices d" by (simp_all add: d')
  have m: "(0x7fffffff :: u32) = mask 31" "(0xffff00 :: u32) = push_bit 8 (mask 16)" "drop_bit 2 0xff = (mask 6 :: u32)"
      "(0x3f :: u32) = mask 6"
    by (simp_all add: mask_eq_exp_minus_1 push_bit_eq_mult)
  have bdf: "(ucast (drop_bit 8 ((addr AND 0x7fffffff) AND 0xffff00)) :: u16) = ucast (drop_bit 8 addr)"
    unfolding m by (intro bit_word_eqI) (auto simp: bit_simps)
  have a: "(addr AND 0x7fffffff) AND 0x3f = addr AND 0x3f"
    unfolding m by (intro bit_word_eqI) (auto simp: bit_simps)
  have idx: "index_at (as_registers (config_space dev)) (unat (addr AND 0x3f)) = Ok (as_registers (config_space dev) ! unat (addr AND 0x3f))"
    if "pci_devices d i = Some dev" for i dev
    using assms(1) that pci_register_bound [of addr, unfolded pci_register_index]
    by (auto simp: pci_ok_def ran_def index_at_def)
  have "pci_on_port_read PCI_CONFIG_DATA val d' = (Ok (copy_from_u32
        (case pci_devices d (ucast (drop_bit 8 addr)) of
           None \<Rightarrow> 0xffffffff
         | Some dev \<Rightarrow> as_registers (config_space dev) ! unat (addr AND 0x3f)) val), d')"
    unfolding pci_on_port_read_def Let_def read_register_def pci_register_index cur bdf a
    by (cases "pci_devices d (ucast (drop_bit 8 addr))") (simp_all add: pci_port_defs idx)
  then show ?thesis by (simp add: d' pci_on_port_read_def)
qed

theorem pci_config_read_witness:
  "\<exists>d'. pci_on_port_write PCI_CONFIG_ADDRESS (WriteFourBytes 0 0 0 0) pci_new = (Ok (), d') \<and>
    pci_on_port_read PCI_CONFIG_DATA (ReadFourBytes 0 0 0 0) d' = (Ok (ReadFourBytes 0x29 0xc0 0x80 0x86), d')"
proof -
  let ?w = "pci_on_port_write PCI_CONFIG_ADDRESS (WriteFourBytes 0 0 0 0) pci_new"
  have w: "write_try_into_u32 (WriteFourBytes 0 0 0 0) = Ok 0" by code_simp
  have "map_option (\<lambda>dev. as_registers (config_space dev) ! 0) (pci_devices pci_new 0) = Some 0x29c08086"
    by code_simp
  then obtain dev where dev: "pci_devices pci_new 0 = Some dev" "as_registers (config_space dev) ! 0 = 0x29c08086"
    by auto
  have "copy_from_u32 0x29c08086 (ReadFourBytes 0 0 0 0) = ReadFourBytes 0x29 0xc0 0x80 0x86" by code_simp
  then show ?thesis
    using pci_config_read [OF pci_new_ok w, of "fst ?w" "snd ?w" "ReadFourBytes 0 0 0 0"] dev
    by (cases ?w) simp
qed

end
