(* ===== verification/Time.thy ===== *)
theory Time
  imports Messages "HOL-Library.RBT"
begin

text \<open>
  Time keeping (\<open>time.rs\<close>, the calibration of \<open>tsc.rs\<close>, the timer part of
  \<open>apic.rs\<close>): instants and durations, timers, the timer wheel of a core and the
  programming of the APIC timer for the next deadline.

  The clock is explicit: \<open>tsc s i\<close> is what the \<open>i\<close>-th read of the time stamp counter
  gives and every call of \<open>now()\<close> takes the next one. An \<open>Instant\<close> is a \<open>u64\<close> of
  ticks, a \<open>Duration\<close> a number of nanoseconds. The arithmetic goes through \<open>u128\<close>, so
  the products are taken modulo \<open>2 ^ 128\<close>; a division by a frequency of 0 panics.
  A \<open>BTreeMap\<close> is a search tree, iterated in the order of its keys.
\<close>

section \<open>Instants\<close>

type_synonym Instant = u64
type_synonym Duration = nat

definition duration_ticks :: "u64 \<Rightarrow> Duration \<Rightarrow> u64" where
  "duration_ticks frequency d = of_nat ((unat frequency * d) mod 2 ^ 128 div 1000000000)"

definition instant_add :: "u64 \<Rightarrow> Instant \<Rightarrow> Duration \<Rightarrow> Instant" where
  "instant_add frequency t d = t + duration_ticks frequency d"

definition instant_sub :: "u64 \<Rightarrow> Instant \<Rightarrow> Duration \<Rightarrow> Instant" where
  "instant_sub frequency t d = t - duration_ticks frequency d"

text \<open>The difference of two instants is absolute.\<close>

definition instant_diff :: "u64 \<Rightarrow> Instant \<Rightarrow> Instant \<Rightarrow> Duration res" where
  "instant_diff frequency t u =
    (let ticks = nat \<bar>int (unat t) - int (unat u)\<bar>
     in if frequency = 0 then Panic
        else Ok (unat (of_nat ((ticks * 1000000000) div unat frequency) :: u64)))"

section \<open>Timers\<close>

datatype TimerInterruptType =
    Direct u8 InjectedInterruptType
  | TimerGSI u32

datatype TimerMode = OneShot | Periodic

record ReadyTimer =
  ready_duration :: Duration
  ready_mode :: TimerMode
  ready_kind :: TimerInterruptType

record RunningTimer =
  timer_duration :: Duration
  timer_mode :: TimerMode
  started :: Instant
  timer_kind :: TimerInterruptType

record TimerWheel =
  wheel_counter :: u64
  wheel_timers :: "(TimerId, RunningTimer) RBT.rbt"

text \<open>The state of a core: its clock and its timer wheel.\<close>

record 'd time_state = "'d vmset_state" +
  frequency :: u64
  tsc :: "nat \<Rightarrow> u64"
  tsc_reads :: nat
  timer_wheel :: "TimerWheel option"

definition now :: "(('d, 'a) time_state_scheme, Instant, Error) action" where
  "now s = (Ok (tsc s (tsc_reads s)), s\<lparr>tsc_reads := Suc (tsc_reads s)\<rparr>)"

definition one_shot :: "Duration \<Rightarrow> TimerInterruptType \<Rightarrow> ReadyTimer" where
  "one_shot d k = \<lparr>ready_duration = d, ready_mode = OneShot, ready_kind = k\<rparr>"

definition periodic :: "Duration \<Rightarrow> TimerInterruptType \<Rightarrow> ReadyTimer" where
  "periodic d k = \<lparr>ready_duration = d, ready_mode = Periodic, ready_kind = k\<rparr>"

definition start :: "ReadyTimer \<Rightarrow> (('d, 'a) time_state_scheme, RunningTimer, Error) action" where
  "start timer = bind_state now (\<lambda>t. return_state
    \<lparr>timer_duration = ready_duration timer, timer_mode = ready_mode timer, started = t,
     timer_kind = ready_kind timer\<rparr>)"

definition stop :: "RunningTimer \<Rightarrow> ReadyTimer" where
  "stop timer = \<lparr>ready_duration = timer_duration timer, ready_mode = timer_mode timer,
    ready_kind = timer_kind timer\<rparr>"

definition is_periodic :: "RunningTimer \<Rightarrow> bool" where
  "is_periodic timer = (case timer_mode timer of Periodic \<Rightarrow> True | OneShot \<Rightarrow> False)"

text \<open>Whether a timer has elapsed at a reading of the clock.\<close>

definition elapsed_at :: "u64 \<Rightarrow> Instant \<Rightarrow> RunningTimer \<Rightarrow> bool res" where
  "elapsed_at f t timer = and_then (instant_diff f t (started timer)) (\<lambda>d. Ok (timer_duration timer < d))"

definition elapsed :: "RunningTimer \<Rightarrow> (('d, 'a) time_state_scheme, bool, Error) action" where
  "elapsed timer s = bind_state now (\<lambda>t. lift_state (elapsed_at (frequency s) t timer)) s"

definition elapses_at :: "u64 \<Rightarrow> RunningTimer \<Rightarrow> Instant" where
  "elapses_at f timer = instant_add f (started timer) (timer_duration timer)"

definition reset :: "RunningTimer \<Rightarrow> (('d, 'a) time_state_scheme, RunningTimer, Error) action" where
  "reset timer s =
    (if is_periodic timer then return_state (timer\<lparr>started := elapses_at (frequency s) timer\<rparr>)
     else bind_state now (\<lambda>t. return_state (timer\<lparr>started := t\<rparr>))) s"

section \<open>The APIC timer\<close>

definition schedule_interrupt :: "Instant \<Rightarrow> u8 \<Rightarrow> (('d, 'a) time_state_scheme, unit, Error) action" where
  "schedule_interrupt when vector =
    bind_state now (\<lambda>t.
    bind_state (\<lambda>s. (instant_diff (frequency s) when t, s)) (\<lambda>d s.
      (Ok (), schedule_ticks (d div 1000) vector s)))"

section \<open>The timer wheel\<close>

definition timer_wheel_new :: TimerWheel where
  "timer_wheel_new = \<lparr>wheel_counter = 0, wheel_timers = RBT.empty\<rparr>"

definition init_timer_wheel :: "(('d, 'a) time_state_scheme, unit, Error) action" where
  "init_timer_wheel s = (Ok (), s\<lparr>timer_wheel := Some timer_wheel_new\<rparr>)"

definition get_timer_wheel :: "(('d, 'a) time_state_scheme, TimerWheel, Error) action" where
  "get_timer_wheel s = (unwrap (timer_wheel s), s)"

text \<open>\<open>Iterator::min_by\<close> gives the first of several minimal elements.\<close>

fun soonest :: "u64 \<Rightarrow> RunningTimer list \<Rightarrow> Instant option" where
  "soonest f [] = None"
| "soonest f (timer # timers) =
    (case soonest f timers of
       None \<Rightarrow> Some (elapses_at f timer)
     | Some t \<Rightarrow> Some (if elapses_at f timer \<le> t then elapses_at f timer else t))"

definition timer_values :: "TimerWheel \<Rightarrow> RunningTimer list" where
  "timer_values w = map snd (RBT.entries (wheel_timers w))"

definition update_interrupt_timer :: "TimerWheel \<Rightarrow> (('d, 'a) time_state_scheme, unit, Error) action" where
  "update_interrupt_timer w s =
    (case soonest (frequency s) (timer_values w) of
       None \<Rightarrow> (Ok (), s)
     | Some when \<Rightarrow> schedule_interrupt when vector_TIMER s)"

definition is_local_timer :: "TimerId \<Rightarrow> ('d, 'a) time_state_scheme \<Rightarrow> bool" where
  "is_local_timer i s \<longleftrightarrow> timer_core_id i = this_core s"

definition put_wheel :: "TimerWheel \<Rightarrow> (('d, 'a) time_state_scheme, unit, Error) action" where
  "put_wheel w s = (Ok (), s\<lparr>timer_wheel := Some w\<rparr>)"

definition get_timer :: "TimerId \<Rightarrow> TimerWheel \<Rightarrow> RunningTimer option" where
  "get_timer i w = RBT.lookup (wheel_timers w) i"

definition register_timer :: "ReadyTimer \<Rightarrow> (('d, 'a) time_state_scheme, TimerId, Error) action" where
  "register_timer timer s =
    bind_state get_timer_wheel (\<lambda>w.
    let i = TimerId (wheel_counter w) (this_core s) in
    bind_state (start timer) (\<lambda>running.
    let w' = \<lparr>wheel_counter = wheel_counter w + 1, wheel_timers = RBT.insert i running (wheel_timers w)\<rparr> in
    bind_state (put_wheel w') (\<lambda>_.
    bind_state (update_interrupt_timer w') (\<lambda>_. return_state i)))) s"

definition remove_timer :: "TimerId \<Rightarrow> (('d, 'a) time_state_scheme, unit, Error) action" where
  "remove_timer i =
    bind_state get_timer_wheel (\<lambda>w.
    let w' = w\<lparr>wheel_timers := RBT.delete i (wheel_timers w)\<rparr> in
    bind_state (put_wheel w') (\<lambda>_. update_interrupt_timer w'))"

text \<open>The three loops of \<open>expire_elapsed_timers\<close>.\<close>

primrec elapsed_oneshots ::
  "(TimerId \<times> RunningTimer) list \<Rightarrow> (('d, 'a) time_state_scheme, TimerId list, Error) action" where
  "elapsed_oneshots [] = return_state []"
| "elapsed_oneshots (p # ts) =
    (case p of (i, timer) \<Rightarrow>
      bind_state (elapsed timer) (\<lambda>e.
      bind_state (elapsed_oneshots ts) (\<lambda>ids.
        return_state (if e \<and> \<not> is_periodic timer then i # ids else ids))))"

primrec remove_oneshots ::
  "TimerId list \<Rightarrow> TimerWheel \<Rightarrow> TimerInterruptType list \<Rightarrow> (TimerWheel \<times> TimerInterruptType list) res" where
  "remove_oneshots [] w interrupts = Ok (w, interrupts)"
| "remove_oneshots (i # ids) w interrupts =
    and_then (unwrap (get_timer i w)) (\<lambda>timer.
      remove_oneshots ids (w\<lparr>wheel_timers := RBT.delete i (wheel_timers w)\<rparr>) (interrupts @ [timer_kind timer]))"

primrec reset_periodics ::
  "(TimerId \<times> RunningTimer) list \<Rightarrow> TimerWheel \<Rightarrow> TimerInterruptType list \<Rightarrow>
    (('d, 'a) time_state_scheme, TimerWheel \<times> TimerInterruptType list, Error) action" where
  "reset_periodics [] w interrupts = return_state (w, interrupts)"
| "reset_periodics (p # ts) w interrupts =
    (case p of (i, timer) \<Rightarrow>
      bind_state (elapsed timer) (\<lambda>e.
        if e \<and> is_periodic timer then
          bind_state (reset timer) (\<lambda>timer'.
            reset_periodics ts (w\<lparr>wheel_timers := RBT.insert i timer' (wheel_timers w)\<rparr>)
              (interrupts @ [timer_kind timer]))
        else reset_periodics ts w interrupts))"

definition expire_elapsed_timers ::
  "(('d, 'a) time_state_scheme, TimerInterruptType list, Error) action" where
  "expire_elapsed_timers =
    bind_state get_timer_wheel (\<lambda>w.
    bind_state (elapsed_oneshots (RBT.entries (wheel_timers w))) (\<lambda>ids.
    bind_state (lift_state (remove_oneshots ids w [])) (\<lambda>(w', interrupts).
    bind_state (reset_periodics (RBT.entries (wheel_timers w')) w' interrupts) (\<lambda>(w'', interrupts').
    bind_state (put_wheel w'') (\<lambda>_.
    bind_state (update_interrupt_timer w'') (\<lambda>_. return_state interrupts'))))))"

section \<open>Operations of other components\<close>

definition cancel_timer :: "TimerId \<Rightarrow> (('d, 'a) time_state_scheme, unit, Error) action" where
  "cancel_timer i =
    bind_state get_timer_wheel (\<lambda>w s.
      if is_local_timer i s then remove_timer i s
      else send_msg_core (CancelTimer i) (timer_core_id i) True s)"

definition set_oneshot_timer ::
  "Duration \<Rightarrow> TimerInterruptType \<Rightarrow> (('d, 'a) time_state_scheme, TimerId, Error) action" where
  "set_oneshot_timer d k = register_timer (one_shot d k)"

definition set_periodic_timer ::
  "Duration \<Rightarrow> TimerInterruptType \<Rightarrow> (('d, 'a) time_state_scheme, TimerId, Error) action" where
  "set_periodic_timer d k = register_timer (periodic d k)"

text \<open>
  \<open>busy_wait\<close> polls the clock until the deadline; \<open>None\<close> is a wait that never ends.
\<close>

partial_function (option) wait_until :: "Instant \<Rightarrow> ('d, 'a) time_state_scheme \<Rightarrow> ('d, 'a) time_state_scheme option" where
  "wait_until deadline s =
    (let t = tsc s (tsc_reads s); s' = s\<lparr>tsc_reads := Suc (tsc_reads s)\<rparr>
     in if t < deadline then wait_until deadline s' else Some s')"

definition busy_wait :: "Duration \<Rightarrow> ('d, 'a) time_state_scheme \<Rightarrow> ('d, 'a) time_state_scheme option" where
  "busy_wait duration s =
    (let begin_at = tsc s (tsc_reads s)
     in wait_until (instant_add (frequency s) begin_at duration) (s\<lparr>tsc_reads := Suc (tsc_reads s)\<rparr>))"

section \<open>Calibration\<close>

text \<open>
  \<open>calibrate_tsc\<close> lets counter 2 of the physical timer run for \<open>CALIBRATE_COUNT\<close>
  ticks and polls the control port until the output of the counter is high. The model takes what the
  hardware gives: \<open>port n\<close> is the byte that the read \<open>n\<close> of the control port gives, and \<open>clock n\<close> the
  time stamp counter after \<open>n\<close> reads of it. It yields the bytes written to the ports and the frequency;
  \<open>None\<close> is a calibration that never ends.
\<close>

definition CALIBRATE_COUNT :: u16 where "CALIBRATE_COUNT = 0x800"
definition PPCB_T2GATE :: u8 where "PPCB_T2GATE = push_bit 0 1"
definition PPCB_SPKR :: u8 where "PPCB_SPKR = push_bit 1 1"
definition PPCB_T2OUT :: u8 where "PPCB_T2OUT = push_bit 5 1"
definition PIT_HZ :: u64 where "PIT_HZ = 1193182"

definition tsc_frequency :: "u64 \<Rightarrow> u64 \<Rightarrow> u64" where
  "tsc_frequency t0 t1 = (t1 - t0) * PIT_HZ div (ucast CALIBRATE_COUNT * 1000) * 1000"

partial_function (option) wait_counter :: "(nat \<Rightarrow> u8) \<Rightarrow> nat \<Rightarrow> nat option" where
  "wait_counter port n = (if port n AND PPCB_T2OUT = 0 then wait_counter port (Suc n) else Some (Suc n))"

definition calibrate_tsc :: "bool \<Rightarrow> (nat \<Rightarrow> u8) \<Rightarrow> (nat \<Rightarrow> u64) \<Rightarrow> (u64 \<times> (Port \<times> u8) list) res option" where
  "calibrate_tsc initialized port clock =
    (if initialized then Some (Err InvalidValue)
     else
       let orig = port 0 in
       map_option (\<lambda>n. Ok (tsc_frequency (clock 1) (clock n),
         [(0x61, (orig AND NOT PPCB_SPKR) OR PPCB_T2GATE),
          (0x43, push_bit 6 2 OR push_bit 4 3 OR push_bit 1 0 OR 0),
          (0x42, ucast (CALIBRATE_COUNT AND 0xff)),
          (0x42, ucast (drop_bit 8 CALIBRATE_COUNT)),
          (0x61, orig)])) (wait_counter port 1))"

definition calibrate_timer :: "('d, 'a) time_state_scheme \<Rightarrow> ('d, 'a) time_state_scheme option" where
  "calibrate_timer s =
    (let start_tick = 0xFFFFFFFF;
         s = wrmsr IA32_X2APIC_INIT_COUNT start_tick (wrmsr IA32_X2APIC_DIV_CONF 0x3 s)
     in map_option
         (\<lambda>s. let s = wrmsr IA32_X2APIC_LVT_TIMER (push_bit 16 1) s
              in s\<lparr>ticks_per_ms := start_tick - apic_regs s IA32_X2APIC_CUR_COUNT\<rparr>)
         (busy_wait 1000000 s))"

text \<open>
  \<open>LocalApic::init\<close>; \<open>x2apic\<close> is the feature bit of \<open>cpuid\<close>, if \<open>cpuid\<close> reports
  features at all. The result is \<open>None\<close> when the calibration does not end.
\<close>

definition local_apic_init ::
  "bool option \<Rightarrow> ('d, 'a) time_state_scheme \<Rightarrow> (unit res \<times> ('d, 'a) time_state_scheme) option" where
  "local_apic_init x2apic s =
    (if x2apic \<noteq> Some True then Some (Err NotSupported, s)
     else
       let raw_base = apic_regs s IA32_APIC_BASE;
           s = (if raw_base AND IA32_APIC_BASE_EXD = 0
                then wrmsr IA32_APIC_BASE (raw_base OR IA32_APIC_BASE_EN OR IA32_APIC_BASE_EXD) s
                else s);
           s = s\<lparr>base_reg := apic_regs s IA32_APIC_BASE, ticks_per_ms := 0\<rparr>;
           s = clear_esr (wrmsr IA32_X2APIC_SIVR (push_bit 8 1) s)
       in map_option (Pair (Ok ())) (calibrate_timer s))"

section \<open>Reading the clock\<close>

text \<open>The answer of \<open>elapsed\<close> at a reading, when the frequency is not 0.\<close>

definition timer_elapsed :: "u64 \<Rightarrow> Instant \<Rightarrow> RunningTimer \<Rightarrow> bool" where
  "timer_elapsed f t timer \<longleftrightarrow>
    timer_duration timer <
      unat (of_nat (nat \<bar>int (unat t) - int (unat (started timer))\<bar> * 1000000000 div unat f) :: u64)"

definition after_reads :: "nat \<Rightarrow> ('d, 'a) time_state_scheme \<Rightarrow> ('d, 'a) time_state_scheme" where
  "after_reads n s = s\<lparr>tsc_reads := tsc_reads s + n\<rparr>"

lemma after_reads_simps [simp]:
  "ticks_per_ms (after_reads n s) = ticks_per_ms s"
  "after_reads 0 s = s" "after_reads m (after_reads n s) = after_reads (n + m) s"
  "tsc (after_reads n s) = tsc s" "frequency (after_reads n s) = frequency s"
  "tsc_reads (after_reads n s) = tsc_reads s + n" "timer_wheel (after_reads n s) = timer_wheel s"
  "this_core (after_reads n s) = this_core s" "msr_writes (after_reads n s) = msr_writes s"
  by (simp_all add: after_reads_def)

lemma now_eq: "now s = (Ok (tsc s (tsc_reads s)), after_reads 1 s)"
  by (simp add: now_def after_reads_def)

lemma elapsed_eq:
  "frequency s \<noteq> 0 \<Longrightarrow>
    elapsed timer s = (Ok (timer_elapsed (frequency s) (tsc s (tsc_reads s)) timer), after_reads 1 s)"
  by (simp add: elapsed_def bind_state_def now_eq lift_state_def elapsed_at_def instant_diff_def
      timer_elapsed_def Let_def)

text \<open>
  \<open>F\<close> tells which of the timers \<open>ts\<close> have elapsed, each judged at one of the next
  \<open>n\<close> readings of the clock.
\<close>

definition judges :: "('d, 'a) time_state_scheme \<Rightarrow> nat \<Rightarrow> (TimerId \<times> RunningTimer) list \<Rightarrow> (TimerId \<Rightarrow> bool) \<Rightarrow> bool" where
  "judges s n ts F \<longleftrightarrow>
    (\<forall>(i, timer) \<in> set ts. \<exists>k < n. F i = timer_elapsed (frequency s) (tsc s (tsc_reads s + k)) timer)"

lemma judges_Cons:
  assumes "judges (after_reads 1 s) n ts F" "\<forall>t. (i, t) \<notin> set ts"
  shows "judges s (Suc n) ((i, timer) # ts) (F(i := timer_elapsed (frequency s) (tsc s (tsc_reads s)) timer))"
proof -
  have "\<exists>k < Suc n. F j = timer_elapsed (frequency s) (tsc s (tsc_reads s + k)) t \<and> j \<noteq> i"
    if jt: "(j, t) \<in> set ts" for j t
  proof -
    from assms(1) jt obtain k where "k < n" "F j = timer_elapsed (frequency s) (tsc s (tsc_reads s + 1 + k)) t"
      by (fastforce simp: judges_def)
    moreover have "j \<noteq> i" using assms(2) jt by blast
    ultimately show ?thesis by (auto intro!: exI [of _ "Suc k"])
  qed
  then show ?thesis by (fastforce simp: judges_def intro: exI [of _ "0 :: nat"])
qed

lemma judges_two_phases:
  assumes "judges s n es F" "judges (after_reads n s) m es' G" "m \<le> n"
    and "(i, t) \<in> set es" "is_periodic t \<Longrightarrow> (i, t) \<in> set es'"
  shows "\<exists>k < 2 * n. (if is_periodic t then G i else F i) = timer_elapsed (frequency s) (tsc s (tsc_reads s + k)) t"
proof (cases "is_periodic t")
  case True
  with assms(2,5) obtain k where "k < m" "G i = timer_elapsed (frequency s) (tsc s (tsc_reads s + n + k)) t"
    by (fastforce simp: judges_def)
  with True assms(3) show ?thesis by (intro exI [of _ "n + k"]) (simp add: add.assoc)
next
  case False
  from assms(1,4) obtain k where "k < n" "F i = timer_elapsed (frequency s) (tsc s (tsc_reads s + k)) t"
    by (fastforce simp: judges_def)
  with False show ?thesis by (intro exI [of _ k]) simp
qed

lemma filter_F_upd:
  "\<forall>t. (i, t) \<notin> set ts \<Longrightarrow>
    filter (\<lambda>(j, t). (F(i := b)) j \<and> P t) ts = filter (\<lambda>(j, t). F j \<and> P t) ts"
  by (rule filter_cong) (auto split: prod.splits)

lemma elapsed_oneshots_eq:
  assumes "frequency s \<noteq> 0" "distinct (map fst ts)"
  shows "\<exists>F. judges s (length ts) ts F \<and>
    elapsed_oneshots ts s =
      (Ok (map fst (filter (\<lambda>(i, t). F i \<and> \<not> is_periodic t) ts)), after_reads (length ts) s)"
  using assms
proof (induction ts arbitrary: s)
  case Nil
  show ?case by (simp add: judges_def return_state_def)
next
  case (Cons p ts)
  obtain i timer where p: "p = (i, timer)" by fastforce
  let ?e = "timer_elapsed (frequency s) (tsc s (tsc_reads s)) timer"
  from Cons(2,3) have i: "\<forall>t. (i, t) \<notin> set ts" and "frequency (after_reads 1 s) \<noteq> 0" "distinct (map fst ts)"
    by (auto simp: p image_iff)
  then obtain F where F: "judges (after_reads 1 s) (length ts) ts F"
    "elapsed_oneshots ts (after_reads 1 s) =
      (Ok (map fst (filter (\<lambda>(i, t). F i \<and> \<not> is_periodic t) ts)), after_reads (length ts) (after_reads 1 s))"
    using Cons(1) by blast
  define G where "G = F(i := ?e)"
  have G: "G i = ?e" "filter (\<lambda>(j, t). G j \<and> \<not> is_periodic t) ts = filter (\<lambda>(j, t). F j \<and> \<not> is_periodic t) ts"
    using filter_F_upd [OF i, of F ?e "\<lambda>t. \<not> is_periodic t"] by (simp_all add: G_def)
  have "judges s (length ((i, timer) # ts)) ((i, timer) # ts) G"
    using judges_Cons [OF F(1) i, of timer] by (simp add: G_def)
  moreover have "elapsed_oneshots ((i, timer) # ts) s =
      (Ok (map fst (filter (\<lambda>(i, t). G i \<and> \<not> is_periodic t) ((i, timer) # ts))), after_reads (length ((i, timer) # ts)) s)"
    using F(2) Cons(2) by (simp add: bind_state_def elapsed_eq return_state_def G)
  ultimately show ?case unfolding p by blast
qed

lemma remove_oneshots_eq:
  assumes "distinct ids" "\<forall>i \<in> set ids. get_timer i w \<noteq> None"
  shows "\<exists>w'. remove_oneshots ids w acc = Ok (w', acc @ map (\<lambda>i. timer_kind (the (get_timer i w))) ids) \<and>
    wheel_counter w' = wheel_counter w \<and>
    (\<forall>i. get_timer i w' = (if i \<in> set ids then None else get_timer i w))"
  using assms
proof (induction ids arbitrary: w acc)
  case (Cons i ids)
  then obtain timer where t: "get_timer i w = Some timer" by auto
  let ?w = "w\<lparr>wheel_timers := RBT.delete i (wheel_timers w)\<rparr>"
  have del: "get_timer j ?w = (if j = i then None else get_timer j w)" for j
    by (simp add: get_timer_def)
  have "map (\<lambda>j. timer_kind (the (get_timer j ?w))) ids = map (\<lambda>j. timer_kind (the (get_timer j w))) ids"
    using Cons(2) by (auto simp: del)
  moreover have "\<forall>j \<in> set ids. get_timer j ?w \<noteq> None" using Cons(2,3) by (auto simp: del)
  ultimately obtain w' where "remove_oneshots ids ?w (acc @ [timer_kind timer]) =
      Ok (w', (acc @ [timer_kind timer]) @ map (\<lambda>j. timer_kind (the (get_timer j w))) ids)"
    "wheel_counter w' = wheel_counter w" "\<forall>j. get_timer j w' = (if j \<in> set ids then None else get_timer j ?w)"
    using Cons(1) [of ?w "acc @ [timer_kind timer]"] Cons(2) by (auto simp: t)
  then show ?case by (intro exI [of _ w']) (auto simp: t del)
qed simp

text \<open>The state of a periodic timer after it has been reset.\<close>

definition advance :: "u64 \<Rightarrow> RunningTimer \<Rightarrow> RunningTimer" where
  "advance f timer = timer\<lparr>started := elapses_at f timer\<rparr>"

lemma reset_periodics_eq:
  assumes "frequency s \<noteq> 0" "distinct (map fst ts)" "\<forall>(i, t) \<in> set ts. get_timer i w = Some t"
  shows "\<exists>F w'. judges s (length ts) ts F \<and>
    reset_periodics ts w acc s =
      (Ok (w', acc @ map (timer_kind \<circ> snd) (filter (\<lambda>(i, t). F i \<and> is_periodic t) ts)), after_reads (length ts) s) \<and>
    wheel_counter w' = wheel_counter w \<and>
    (\<forall>i. get_timer i w' =
      (if \<exists>t. (i, t) \<in> set ts \<and> F i \<and> is_periodic t then map_option (advance (frequency s)) (get_timer i w)
       else get_timer i w))"
  using assms
proof (induction ts arbitrary: s w acc)
  case Nil
  show ?case by (auto simp: judges_def return_state_def)
next
  case (Cons p ts)
  obtain i timer where p: "p = (i, timer)" by fastforce
  let ?f = "frequency s"
  let ?e = "timer_elapsed ?f (tsc s (tsc_reads s)) timer"
  let ?hit = "?e \<and> is_periodic timer"
  define v where "v = (if ?hit then w\<lparr>wheel_timers := RBT.insert i (advance ?f timer) (wheel_timers w)\<rparr> else w)"
  define acc' where "acc' = (if ?hit then acc @ [timer_kind timer] else acc)"
  have step: "reset_periodics (p # ts) w acc s = reset_periodics ts v acc' (after_reads 1 s)"
    using Cons(2)
    by (simp add: p v_def acc'_def bind_state_def elapsed_eq reset_def return_state_def advance_def)
  have i: "\<forall>t. (i, t) \<notin> set ts" using Cons(3) by (force simp: p)
  have v: "get_timer j v = (if j = i \<and> ?hit then Some (advance ?f timer) else get_timer j w)" for j
    by (simp add: v_def get_timer_def)
  have "\<forall>(j, t) \<in> set ts. get_timer j v = Some t" using Cons(4) i by (auto simp: p v)
  then obtain F w' where F: "judges (after_reads 1 s) (length ts) ts F"
    "reset_periodics ts v acc' (after_reads 1 s) =
      (Ok (w', acc' @ map (timer_kind \<circ> snd) (filter (\<lambda>(i, t). F i \<and> is_periodic t) ts)), after_reads (length ts) (after_reads 1 s))"
    "wheel_counter w' = wheel_counter v"
    "\<And>j. get_timer j w' =
      (if \<exists>t. (j, t) \<in> set ts \<and> F j \<and> is_periodic t then map_option (advance ?f) (get_timer j v) else get_timer j v)"
    using Cons(1) [of "after_reads 1 s" v acc'] Cons(2,3) by (force simp: p)
  define G where "G = F(i := ?e)"
  have G: "G i = ?e" "filter (\<lambda>(j, t). G j \<and> is_periodic t) ts = filter (\<lambda>(j, t). F j \<and> is_periodic t) ts"
    and G': "\<And>j. j \<noteq> i \<Longrightarrow> G j = F j"
    using filter_F_upd [OF i, of F ?e is_periodic] by (simp_all add: G_def)
  have "judges s (length (p # ts)) (p # ts) G"
    using judges_Cons [OF F(1) i, of timer] by (simp add: G_def p)
  moreover have "reset_periodics (p # ts) w acc s =
      (Ok (w', acc @ map (timer_kind \<circ> snd) (filter (\<lambda>(i, t). G i \<and> is_periodic t) (p # ts))), after_reads (length (p # ts)) s)"
    by (simp only: step F(2)) (simp add: G acc'_def p)
  moreover have "wheel_counter w' = wheel_counter w" using F(3) by (simp add: v_def)
  moreover have "get_timer j w' =
      (if \<exists>t. (j, t) \<in> set (p # ts) \<and> G j \<and> is_periodic t then map_option (advance ?f) (get_timer j w) else get_timer j w)" for j
    using Cons(4) i by (cases "j = i") (auto simp: F(4) G G' p v)
  ultimately show ?case by blast
qed

lemma entries_removed:
  assumes "\<And>i. RBT.lookup t' i = (if i \<in> S then None else RBT.lookup t i)"
  shows "RBT.entries t' = filter (\<lambda>(i, x). i \<notin> S) (RBT.entries t)"
proof (rule map_sorted_distinct_set_unique [where f = fst])
  have set: "set (RBT.entries t') = set (filter (\<lambda>(i, x). i \<notin> S) (RBT.entries t))"
    using assms by (auto simp: RBT.lookup_in_tree [symmetric] split: if_splits)
  then show "set (RBT.entries t') = set (filter (\<lambda>(i, x). i \<notin> S) (RBT.entries t))" .
  have "inj_on fst (set (RBT.entries t))"
    using RBT.distinct_entries [of t] by (simp add: distinct_map)
  then show "inj_on fst (set (RBT.entries t') \<union> set (filter (\<lambda>(i, x). i \<notin> S) (RBT.entries t)))"
    unfolding set by (rule inj_on_subset) auto
  show "sorted (map fst (RBT.entries t'))" "distinct (map fst (RBT.entries t'))"
    by (simp_all add: RBT.sorted_entries RBT.distinct_entries)
  show "sorted (map fst (filter (\<lambda>(i, x). i \<notin> S) (RBT.entries t)))"
    by (simp add: RBT.sorted_entries sorted_filter)
  show "distinct (map fst (filter (\<lambda>(i, x). i \<notin> S) (RBT.entries t)))"
    by (simp add: RBT.distinct_entries distinct_map_filter)
qed

lemma oneshots_phase:
  fixes s w
  assumes "frequency s \<noteq> 0"
  defines "es \<equiv> RBT.entries (wheel_timers w)"
  shows "\<exists>F ids w'. judges s (length es) es F \<and>
    elapsed_oneshots es s = (Ok ids, after_reads (length es) s) \<and>
    remove_oneshots ids w [] = Ok (w', map (timer_kind \<circ> snd) (filter (\<lambda>(i, t). F i \<and> \<not> is_periodic t) es)) \<and>
    wheel_counter w' = wheel_counter w \<and>
    (\<forall>i. get_timer i w' = (case get_timer i w of None \<Rightarrow> None | Some t \<Rightarrow> if F i \<and> \<not> is_periodic t then None else Some t)) \<and>
    RBT.entries (wheel_timers w') = filter (\<lambda>(i, t). \<not> (F i \<and> \<not> is_periodic t)) es"
proof -
  have dist: "distinct (map fst es)" by (simp add: es_def RBT.distinct_entries)
  have es: "(i, t) \<in> set es \<longleftrightarrow> get_timer i w = Some t" for i t
    by (simp add: es_def get_timer_def RBT.lookup_in_tree)
  obtain F where F: "judges s (length es) es F" "elapsed_oneshots es s =
      (Ok (map fst (filter (\<lambda>(i, t). F i \<and> \<not> is_periodic t) es)), after_reads (length es) s)"
    using elapsed_oneshots_eq [OF assms(1) dist] by blast
  define hits where "hits = filter (\<lambda>(i, t). F i \<and> \<not> is_periodic t) es"
  define ids where "ids = map fst hits"
  have ids: "i \<in> set ids \<longleftrightarrow> (\<exists>t. get_timer i w = Some t \<and> F i \<and> \<not> is_periodic t)" for i
    by (force simp: ids_def hits_def es)
  have "distinct ids" using dist by (simp add: ids_def hits_def distinct_map_filter)
  moreover have "\<forall>i \<in> set ids. get_timer i w \<noteq> None" by (auto simp: ids)
  ultimately obtain w' where w': "remove_oneshots ids w [] = Ok (w', [] @ map (\<lambda>i. timer_kind (the (get_timer i w))) ids)"
    "wheel_counter w' = wheel_counter w" "\<And>i. get_timer i w' = (if i \<in> set ids then None else get_timer i w)"
    using remove_oneshots_eq [of ids w "[]"] by blast
  have kinds: "map (\<lambda>i. timer_kind (the (get_timer i w))) ids = map (timer_kind \<circ> snd) hits"
    by (auto simp: ids_def hits_def es)
  have "RBT.entries (wheel_timers w') = filter (\<lambda>(i, x). i \<notin> set ids) es"
    unfolding es_def by (rule entries_removed) (use w'(3) in \<open>simp add: get_timer_def\<close>)
  also have "\<dots> = filter (\<lambda>(i, t). \<not> (F i \<and> \<not> is_periodic t)) es"
    by (rule filter_cong) (auto simp: ids es)
  finally show ?thesis
    using F w' kinds
    by (intro exI [of _ F] exI [of _ ids] exI [of _ w'])
      (auto simp: ids ids_def [symmetric] hits_def [symmetric] split: option.split)
qed

lemma periodics_phase:
  fixes s w acc
  assumes "frequency s \<noteq> 0"
  defines "es \<equiv> RBT.entries (wheel_timers w)"
  obtains G w' where "judges s (length es) es G"
    and "reset_periodics es w acc s =
      (Ok (w', acc @ map (timer_kind \<circ> snd) (filter (\<lambda>(i, t). G i \<and> is_periodic t) es)), after_reads (length es) s)"
    and "\<And>i. get_timer i w' = (case get_timer i w of None \<Rightarrow> None | Some t \<Rightarrow>
      if G i \<and> is_periodic t then Some (advance (frequency s) t) else Some t)"
proof -
  have es: "(i, t) \<in> set es \<longleftrightarrow> get_timer i w = Some t" for i t
    by (simp add: es_def get_timer_def RBT.lookup_in_tree)
  have d: "distinct (map fst es)" "\<forall>(i, t) \<in> set es. get_timer i w = Some t"
    by (auto simp: es) (simp add: es_def RBT.distinct_entries)
  from reset_periodics_eq [OF assms(1) d, of acc] show thesis
    by (elim exE conjE) (rule that, assumption, assumption, auto simp: es split: option.split)
qed

section \<open>Programming the next interrupt\<close>

definition ticks_until :: "u64 \<Rightarrow> u64 \<Rightarrow> Instant \<Rightarrow> Instant \<Rightarrow> u64" where
  "ticks_until f per_ms when t =
    of_nat (unat (of_nat (nat \<bar>int (unat when) - int (unat t)\<bar> * 1000000000 div unat f) :: u64) div 1000
      * unat per_ms mod 2 ^ 128 div 1000)"

lemma schedule_interrupt_eq:
  assumes "frequency s \<noteq> 0"
  shows "schedule_interrupt when vector s = (Ok (),
    wrmsr IA32_X2APIC_INIT_COUNT (ticks_until (frequency s) (ticks_per_ms s) when (tsc s (tsc_reads s)))
      (wrmsr IA32_X2APIC_LVT_TIMER (ucast vector) (wrmsr IA32_X2APIC_DIV_CONF 0x3 (after_reads 1 s))))"
  using assms
  by (simp add: schedule_interrupt_def bind_state_def now_eq instant_diff_def Let_def schedule_ticks_def
      ticks_until_def after_reads_def)

lemma wrmsr_time_frame [simp]:
  "timer_wheel (wrmsr r v s) = timer_wheel s" "frequency (wrmsr r v s) = frequency s"
  "tsc (wrmsr r v s) = tsc s" "tsc_reads (wrmsr r v s) = tsc_reads s" "this_core (wrmsr r v s) = this_core s"
  "msr_writes (wrmsr r v s) = msr_writes s @ [(r, v)]" "ticks_per_ms (wrmsr r v s) = ticks_per_ms s"
  by (simp_all add: wrmsr_def)

lemma soonest_Min:
  "timers \<noteq> [] \<Longrightarrow> soonest f timers = Some (Min (elapses_at f ` set timers))"
proof (induction timers)
  case (Cons timer timers)
  then show ?case by (cases "timers = []") (auto simp: min_def)
qed simp

lemma update_interrupt_timer_frame:
  assumes "frequency s \<noteq> 0" "update_interrupt_timer w s = (r, s')"
  shows "r = Ok () \<and> timer_wheel s' = timer_wheel s \<and> this_core s' = this_core s \<and> frequency s' = frequency s"
  using assms
  by (auto simp: update_interrupt_timer_def schedule_interrupt_eq split: option.splits)

section \<open>Registering\<close>

lemma register_timer_effect:
  assumes "frequency s \<noteq> 0" "timer_wheel s = Some w"
  defines "i \<equiv> TimerId (wheel_counter w) (this_core s)"
  shows "\<exists>w' s'. register_timer timer s = (Ok i, s') \<and> timer_wheel s' = Some w' \<and>
    get_timer i w' = Some \<lparr>timer_duration = ready_duration timer, timer_mode = ready_mode timer,
      started = tsc s (tsc_reads s), timer_kind = ready_kind timer\<rparr> \<and>
    (\<forall>j. j \<noteq> i \<longrightarrow> get_timer j w' = get_timer j w) \<and>
    wheel_counter w' = wheel_counter w + 1 \<and>
    msr_writes s' = msr_writes s @ [(IA32_X2APIC_DIV_CONF, 0x3), (IA32_X2APIC_LVT_TIMER, ucast vector_TIMER),
      (IA32_X2APIC_INIT_COUNT, ticks_until (frequency s) (ticks_per_ms s)
         (Min (elapses_at (frequency s) ` set (timer_values w'))) (tsc s (Suc (tsc_reads s))))]"
proof -
  let ?running = "\<lparr>timer_duration = ready_duration timer, timer_mode = ready_mode timer,
      started = tsc s (tsc_reads s), timer_kind = ready_kind timer\<rparr>"
  define w' where "w' = \<lparr>wheel_counter = wheel_counter w + 1, wheel_timers = RBT.insert i ?running (wheel_timers w)\<rparr>"
  define s1 where "s1 = (after_reads 1 s)\<lparr>timer_wheel := Some w'\<rparr>"
  have s1: "frequency s1 = frequency s" "timer_wheel s1 = Some w'" "msr_writes s1 = msr_writes s"
    "ticks_per_ms s1 = ticks_per_ms s" "tsc s1 (tsc_reads s1) = tsc s (Suc (tsc_reads s))"
    by (simp_all add: s1_def after_reads_def)
  have "(i, ?running) \<in> set (RBT.entries (wheel_timers w'))"
    by (simp add: w'_def RBT.lookup_in_tree [symmetric])
  then have "timer_values w' \<noteq> []" by (auto simp: timer_values_def)
  then have "update_interrupt_timer w' s1 =
      schedule_interrupt (Min (elapses_at (frequency s) ` set (timer_values w'))) vector_TIMER s1"
    by (simp add: update_interrupt_timer_def s1 soonest_Min)
  moreover have "register_timer timer s = bind_state (update_interrupt_timer w') (\<lambda>_. return_state i) s1"
    by (simp add: register_timer_def bind_state_def get_timer_wheel_def assms(2) i_def start_def now_eq
        return_state_def put_wheel_def Let_def w'_def s1_def)
  moreover have "get_timer j w' = (if j = i then Some ?running else get_timer j w)" "wheel_counter w' = wheel_counter w + 1" for j
    by (simp_all add: w'_def get_timer_def)
  ultimately show ?thesis
    using assms(1) s1
    by (intro exI [of _ w']) (auto simp: bind_state_def schedule_interrupt_eq return_state_def)
qed

section \<open>Cancelling\<close>

lemma cancel_timer_local:
  assumes "frequency s \<noteq> 0" "timer_wheel s = Some w" "timer_core_id i = this_core s"
  shows "\<exists>w' s'. cancel_timer i s = (Ok (), s') \<and> timer_wheel s' = Some w' \<and> pending s' = pending s \<and>
        (\<forall>j. get_timer j w' = (if j = i then None else get_timer j w))"
proof -
  let ?w = "w\<lparr>wheel_timers := RBT.delete i (wheel_timers w)\<rparr>"
  let ?s = "s\<lparr>timer_wheel := Some ?w\<rparr>"
  obtain r s' where u: "update_interrupt_timer ?w ?s = (r, s')" by (cases "update_interrupt_timer ?w ?s")
  have f: "frequency ?s \<noteq> 0" using assms(1) by simp
  have "pending s' = pending ?s"
    using u f by (auto simp: update_interrupt_timer_def schedule_interrupt_eq pending_def after_reads_def wrmsr_def
        fun_eq_iff split: option.splits)
  then have "pending s' = pending s" by (simp add: pending_def fun_eq_iff)
  moreover have "cancel_timer i s = (r, s')"
    using u assms(3)
    by (simp add: cancel_timer_def bind_state_def get_timer_wheel_def assms(2) is_local_timer_def remove_timer_def
        put_wheel_def Let_def)
  ultimately show ?thesis
    using update_interrupt_timer_frame [OF f u] by (auto simp: get_timer_def)
qed

lemma cancel_timer_remote:
  assumes "timer_wheel s = Some w" "timer_core_id i \<noteq> this_core s"
    and q: "pending s (timer_core_id i) = Some q" "length q < MAX_PENDING_MSG"
  shows "\<exists>s' icr. cancel_timer i s = (Ok (), s') \<and> timer_wheel s' = Some w \<and>
        pending s' = (pending s)(timer_core_id i \<mapsto> q @ [CancelTimer i]) \<and>
        msr_writes s' = msr_writes s @ [(IA32_X2APIC_ICR, icr)] \<and> ucast (drop_bit 32 icr) = timer_core_id i"
proof -
  let ?send = "send_msg_core (CancelTimer i) (timer_core_id i) True s"
  have c: "cancel_timer i s = ?send"
    using assms(1,2) by (simp add: cancel_timer_def bind_state_def get_timer_wheel_def is_local_timer_def)
  obtain k where k: "context_by_core_id (timer_core_id i) (contexts s) = Some k" "msgqueue (contexts s ! k) = q"
    using q by (auto simp: pending_def)
  then have "?send = (Ok (), send_ipi (timer_core_id i) NoShorthand Edge Assert Physical Fixed vector_IPC
      (set_queue k (q @ [CancelTimer i]) s))"
    using q by (simp add: send_msg_core_def push_back_def)
  then show ?thesis
    by (simp add: c pending_set_queue [OF k(1)]) (simp add: send_ipi_def set_queue_def icr_value_fields assms(1))
qed

section \<open>Waiting\<close>

lemma wait_counter_ends:
  assumes "n \<le> k" "port k AND PPCB_T2OUT \<noteq> 0"
  shows "\<exists>j \<le> Suc k. wait_counter port n = Some j"
  using assms(1)
proof (induction rule: inc_induct)
  case base
  show ?case using assms(2) by (simp add: wait_counter.simps)
next
  case (step n)
  then show ?case by (subst wait_counter.simps) auto
qed

lemma wait_until_ends:
  assumes "\<not> tsc s (tsc_reads s + n) < deadline" "\<And>k. k < n \<Longrightarrow> tsc s (tsc_reads s + k) < deadline"
  shows "wait_until deadline s = Some (after_reads (Suc n) s)"
  using assms
proof (induction n arbitrary: s)
  case 0
  then show ?case by (subst wait_until.simps) (simp add: after_reads_def)
next
  case (Suc n)
  let ?s = "s\<lparr>tsc_reads := Suc (tsc_reads s)\<rparr>"
  have "wait_until deadline ?s = Some (after_reads (Suc n) ?s)"
    by (rule Suc(1)) (use Suc(2) Suc(3) [of "Suc k" for k] in auto)
  moreover have "tsc s (tsc_reads s) < deadline" using Suc(3) [of 0] by simp
  ultimately show ?case by (subst wait_until.simps) (simp add: after_reads_def)
qed

section \<open>Properties\<close>

text \<open>
  C16: \<open>expire_elapsed_timers\<close> fires exactly the timers it finds elapsed. There is a
  set of fired timers such that each timer is in it or not according to whether it
  had elapsed at one of the clock readings of the call; the interrupts are those of
  the fired one-shot timers, then those of the fired periodic ones, each in the order
  of the timer ids; a fired one-shot timer is gone, a fired periodic timer is
  started again at the instant it was due (no drift), all others are as before.
\<close>

theorem expire_elapsed_timers_fires:
  assumes "frequency s \<noteq> 0" "timer_wheel s = Some w"
  defines "es \<equiv> RBT.entries (wheel_timers w)"
  shows "\<exists>fired w' s'.
    expire_elapsed_timers s =
      (Ok (map (timer_kind \<circ> snd) (filter (\<lambda>(i, t). fired i \<and> \<not> is_periodic t) es) @
           map (timer_kind \<circ> snd) (filter (\<lambda>(i, t). fired i \<and> is_periodic t) es)), s') \<and>
    timer_wheel s' = Some w' \<and>
    (\<forall>i t. get_timer i w = Some t \<longrightarrow>
      (\<exists>k < 2 * length es. fired i = timer_elapsed (frequency s) (tsc s (tsc_reads s + k)) t)) \<and>
    (\<forall>i. get_timer i w' =
      (case get_timer i w of
         None \<Rightarrow> None
       | Some t \<Rightarrow>
           if \<not> fired i then Some t
           else if is_periodic t then Some (t\<lparr>started := elapses_at (frequency s) t\<rparr>)
           else None))"
proof -
  let ?f = "frequency s"
  have es: "(i, t) \<in> set es \<longleftrightarrow> get_timer i w = Some t" for i t
    by (simp add: es_def get_timer_def RBT.lookup_in_tree)
  obtain F ids w1 where F: "judges s (length es) es F"
    "elapsed_oneshots es s = (Ok ids, after_reads (length es) s)"
    "remove_oneshots ids w [] = Ok (w1, map (timer_kind \<circ> snd) (filter (\<lambda>(i, t). F i \<and> \<not> is_periodic t) es))"
    "\<And>i. get_timer i w1 = (case get_timer i w of None \<Rightarrow> None | Some t \<Rightarrow> if F i \<and> \<not> is_periodic t then None else Some t)"
    "RBT.entries (wheel_timers w1) = filter (\<lambda>(i, t). \<not> (F i \<and> \<not> is_periodic t)) es"
    using oneshots_phase [OF assms(1), of w] unfolding es_def by blast
  define acc where "acc = map (timer_kind \<circ> snd) (filter (\<lambda>(i, t). F i \<and> \<not> is_periodic t) es)"
  define s1 where "s1 = after_reads (length es) s"
  define es1 where "es1 = filter (\<lambda>(i, t). \<not> (F i \<and> \<not> is_periodic t)) es"
  have es1: "RBT.entries (wheel_timers w1) = es1" by (simp add: F(5) es1_def)
  have f: "frequency s1 = ?f" by (simp add: s1_def)
  obtain G w2 where G: "judges s1 (length es1) es1 G"
    "reset_periodics es1 w1 acc s1 = (Ok (w2, acc @ map (timer_kind \<circ> snd) (filter (\<lambda>(i, t). G i \<and> is_periodic t) es1)), after_reads (length es1) s1)"
    "\<And>i. get_timer i w2 = (case get_timer i w1 of None \<Rightarrow> None | Some t \<Rightarrow> if G i \<and> is_periodic t then Some (advance ?f t) else Some t)"
    using periodics_phase [of s1 w1 acc] assms(1) unfolding f es1 by blast
  define fired where "fired i = (case get_timer i w of None \<Rightarrow> False | Some t \<Rightarrow> if is_periodic t then G i else F i)" for i
  define s2 where "s2 = (after_reads (length es1) s1)\<lparr>timer_wheel := Some w2\<rparr>"
  obtain r s' where u: "update_interrupt_timer w2 s2 = (r, s')" by (cases "update_interrupt_timer w2 s2")
  have "frequency s2 \<noteq> 0" using assms(1) by (simp add: s2_def f)
  from update_interrupt_timer_frame [OF this u] have s': "r = Ok ()" "timer_wheel s' = Some w2"
    by (simp_all add: s2_def)
  have "filter (\<lambda>(i, t). fired i \<and> \<not> is_periodic t) es = filter (\<lambda>(i, t). F i \<and> \<not> is_periodic t) es"
    "filter (\<lambda>(i, t). fired i \<and> is_periodic t) es = filter (\<lambda>(i, t). G i \<and> is_periodic t) es1"
    by (auto simp: fired_def es es1_def intro!: filter_cong)
  moreover have "expire_elapsed_timers s = (Ok (acc @ map (timer_kind \<circ> snd) (filter (\<lambda>(i, t). G i \<and> is_periodic t) es1)), s')"
    using F(2,3) G(2) u
    by (simp add: s'(1) s2_def expire_elapsed_timers_def bind_state_def get_timer_wheel_def assms(2) es_def [symmetric]
        lift_state_def es1 s1_def acc_def put_wheel_def return_state_def)
  moreover have "\<exists>k < 2 * length es. fired i = timer_elapsed ?f (tsc s (tsc_reads s + k)) t" if "get_timer i w = Some t" for i t
    using judges_two_phases [OF F(1) G(1) [unfolded s1_def], of i t] that
    by (simp add: fired_def es es1_def)
  moreover have "get_timer i w2 = (case get_timer i w of None \<Rightarrow> None | Some t \<Rightarrow>
      if \<not> fired i then Some t else if is_periodic t then Some (t\<lparr>started := elapses_at ?f t\<rparr>) else None)" for i
    by (auto simp: G(3) F(4) fired_def es1_def es advance_def split: option.split)
  ultimately show ?thesis
    using s'(2) unfolding acc_def
    by (intro exI [of _ fired] exI [of _ w2] exI [of _ s'] conjI allI impI) simp_all
qed

definition ticking :: "TimerWheel \<Rightarrow> unit time_state" where
  "ticking w =
    \<lparr>this_core = 1, apic_regs = (\<lambda>_. 0), msr_writes = [], base_reg = 0, ticks_per_ms = 1000,
     contexts = [\<lparr>ctx_core_id = 1, ctx_vm = 0, msgqueue = []\<rparr>, \<lparr>ctx_core_id = 2, ctx_vm = 0, msgqueue = []\<rparr>],
     vms = [], frequency = 1000000000, tsc = (\<lambda>i. 5000 + of_nat i), tsc_reads = 0, timer_wheel = Some w\<rparr>"

definition tick_timer :: RunningTimer where
  "tick_timer = \<lparr>timer_duration = 1000, timer_mode = Periodic, started = 3000, timer_kind = TimerGSI 0\<rparr>"

lemma entries_single: "RBT.entries (RBT.insert k v RBT.empty) = [(k, v)]"
proof (rule map_sorted_distinct_set_unique [where f = fst])
  show "set (RBT.entries (RBT.insert k v RBT.empty)) = set [(k, v)]"
    by (auto simp: RBT.lookup_in_tree [symmetric] split: if_splits)
  then show "inj_on fst (set (RBT.entries (RBT.insert k v RBT.empty)) \<union> set [(k, v)])" by simp
qed (simp_all add: RBT.sorted_entries RBT.distinct_entries)

theorem expire_elapsed_timers_fires_witness:
  "\<exists>w' s'. expire_elapsed_timers (ticking \<lparr>wheel_counter = 1, wheel_timers = RBT.insert (TimerId 0 1) tick_timer RBT.empty\<rparr>) =
     (Ok [TimerGSI 0], s') \<and> timer_wheel s' = Some w' \<and>
     get_timer (TimerId 0 1) w' = Some (tick_timer\<lparr>started := 4000\<rparr>)"
proof -
  let ?t = "RBT.insert (TimerId 0 1) tick_timer RBT.empty"
  let ?w = "\<lparr>wheel_counter = 1, wheel_timers = ?t\<rparr>"
  have es: "RBT.entries ?t = [(TimerId 0 1, tick_timer)]" by (rule entries_single)
  have per: "is_periodic tick_timer" "elapses_at 1000000000 tick_timer = 4000"
    by (simp_all add: is_periodic_def tick_timer_def elapses_at_def instant_add_def duration_ticks_def)
  have "timer_elapsed 1000000000 5000 tick_timer" "timer_elapsed 1000000000 5001 tick_timer"
    by (simp_all add: timer_elapsed_def tick_timer_def)
  then have el: "timer_elapsed 1000000000 (5000 + of_nat k) tick_timer" if "k < 2" for k
    using that by (cases k) (auto simp: less_Suc_eq numeral_2_eq_2)
  let ?s = "ticking ?w"
  have fields: "frequency ?s = 1000000000" "timer_wheel ?s = Some ?w" "tsc_reads ?s = 0"
    "tsc ?s k = 5000 + of_nat k" "timer_kind tick_timer = TimerGSI 0" for k
    by (simp_all add: ticking_def tick_timer_def)
  have "frequency ?s \<noteq> 0" by (simp add: fields)
  from expire_elapsed_timers_fires [OF this fields(2)] show ?thesis
    apply (elim exE conjE)
    subgoal premises p for fired w' s'
    proof -
      have "get_timer (TimerId 0 1) ?w = Some tick_timer" by (simp add: get_timer_def)
      with p(3) el have "fired (TimerId 0 1)" by (fastforce simp: fields es)
      with p(1,2,4) per show ?thesis by (auto simp: fields es get_timer_def)
    qed
    done
qed

definition ids_below_counter :: "TimerWheel \<Rightarrow> bool" where
  "ids_below_counter w \<longleftrightarrow> (\<forall>j. get_timer j w \<noteq> None \<longrightarrow> timer_id j < wheel_counter w)"

text \<open>
  C17: A registered timer runs. It is started at the reading of the clock, the other timers are as before,
  and the APIC timer of the core is programmed with the count from the next reading of the clock to the
  earliest deadline of all running timers. As long as the ids of the running timers are below the counter,
  the id of the timer is a new one, and they stay below it until the counter wraps around.
\<close>

theorem register_timer_runs:
  assumes "frequency s \<noteq> 0" "timer_wheel s = Some w"
  defines "i \<equiv> TimerId (wheel_counter w) (this_core s)"
  shows "\<exists>w' s'. register_timer timer s = (Ok i, s') \<and> timer_wheel s' = Some w' \<and>
    get_timer i w' = Some \<lparr>timer_duration = ready_duration timer, timer_mode = ready_mode timer,
      started = tsc s (tsc_reads s), timer_kind = ready_kind timer\<rparr> \<and>
    (\<forall>j. j \<noteq> i \<longrightarrow> get_timer j w' = get_timer j w) \<and>
    wheel_counter w' = wheel_counter w + 1 \<and>
    msr_writes s' = msr_writes s @ [(IA32_X2APIC_DIV_CONF, 0x3), (IA32_X2APIC_LVT_TIMER, ucast vector_TIMER),
      (IA32_X2APIC_INIT_COUNT, ticks_until (frequency s) (ticks_per_ms s)
         (Min (elapses_at (frequency s) ` set (timer_values w'))) (tsc s (Suc (tsc_reads s))))] \<and>
    (ids_below_counter w \<longrightarrow> get_timer i w = None \<and> (wheel_counter w + 1 \<noteq> 0 \<longrightarrow> ids_below_counter w'))"
proof -
  obtain w' s' where "register_timer timer s = (Ok i, s')" and w': "timer_wheel s' = Some w'"
    "get_timer i w' = Some \<lparr>timer_duration = ready_duration timer, timer_mode = ready_mode timer,
      started = tsc s (tsc_reads s), timer_kind = ready_kind timer\<rparr>"
    "\<forall>j. j \<noteq> i \<longrightarrow> get_timer j w' = get_timer j w" "wheel_counter w' = wheel_counter w + 1"
    "msr_writes s' = msr_writes s @ [(IA32_X2APIC_DIV_CONF, 0x3), (IA32_X2APIC_LVT_TIMER, ucast vector_TIMER),
      (IA32_X2APIC_INIT_COUNT, ticks_until (frequency s) (ticks_per_ms s)
         (Min (elapses_at (frequency s) ` set (timer_values w'))) (tsc s (Suc (tsc_reads s))))]"
    using register_timer_effect [OF assms(1,2), of timer] unfolding i_def by blast
  moreover have "get_timer i w = None" if "ids_below_counter w"
    using that unfolding ids_below_counter_def i_def by (metis TimerId.sel(1) less_irrefl)
  moreover have "ids_below_counter w'" if "ids_below_counter w" "wheel_counter w + 1 \<noteq> 0"
  proof -
    have "wheel_counter w < wheel_counter w + 1"
      using that(2) unatSuc [of "wheel_counter w"] by (simp add: word_less_nat_alt add.commute)
    then show ?thesis
      using that(1) w'(3,4) unfolding ids_below_counter_def i_def by (metis TimerId.sel(1) less_trans)
  qed
  ultimately show ?thesis by blast
qed

theorem register_timer_runs_witness:
  "\<exists>s' w'. register_timer (one_shot 1000 (TimerGSI 0)) (ticking timer_wheel_new) = (Ok (TimerId 0 1), s') \<and>
    timer_wheel s' = Some w' \<and> ids_below_counter w'"
proof -
  have "frequency (ticking timer_wheel_new) \<noteq> 0" "timer_wheel (ticking timer_wheel_new) = Some timer_wheel_new"
    "this_core (ticking timer_wheel_new) = 1" "wheel_counter timer_wheel_new = 0" "ids_below_counter timer_wheel_new"
    by (simp_all add: ticking_def timer_wheel_new_def ids_below_counter_def get_timer_def)
  with register_timer_runs [of "ticking timer_wheel_new" timer_wheel_new] show ?thesis by fastforce
qed

text \<open>
  C18: Cancelling a timer from any core. On the core that owns it the timer is removed
  and no other is; from another core the wheel stays as it is and, when the queue of
  the owner has room, the owner finds a \<open>CancelTimer\<close> message for it at the end of
  its queue, no other core finds anything, and the owner is interrupted.
\<close>

theorem cancel_timer_effect:
  assumes "frequency s \<noteq> 0" "timer_wheel s = Some w"
  shows "(timer_core_id i = this_core s \<longrightarrow>
      (\<exists>w' s'. cancel_timer i s = (Ok (), s') \<and> timer_wheel s' = Some w' \<and> pending s' = pending s \<and>
        (\<forall>j. get_timer j w' = (if j = i then None else get_timer j w)))) \<and>
    (timer_core_id i \<noteq> this_core s \<and> pending s (timer_core_id i) = Some q \<and> length q < MAX_PENDING_MSG \<longrightarrow>
      (\<exists>s' icr. cancel_timer i s = (Ok (), s') \<and> timer_wheel s' = Some w \<and>
        pending s' = (pending s)(timer_core_id i \<mapsto> q @ [CancelTimer i]) \<and>
        msr_writes s' = msr_writes s @ [(IA32_X2APIC_ICR, icr)] \<and> ucast (drop_bit 32 icr) = timer_core_id i))"
  using cancel_timer_local [OF assms] cancel_timer_remote [OF assms(2)] by blast

theorem cancel_timer_effect_witness:
  "\<exists>s'. cancel_timer (TimerId 7 2) (ticking timer_wheel_new) = (Ok (), s') \<and>
    pending s' 2 = Some [CancelTimer (TimerId 7 2)]"
proof -
  have "frequency (ticking timer_wheel_new) \<noteq> 0" "timer_wheel (ticking timer_wheel_new) = Some timer_wheel_new"
    "this_core (ticking timer_wheel_new) = 1" "pending (ticking timer_wheel_new) 2 = Some []"
    by (simp_all add: ticking_def pending_def)
  with cancel_timer_effect [of "ticking timer_wheel_new" timer_wheel_new "TimerId 7 2" "[]"] show ?thesis
    by (auto simp: MAX_PENDING_MSG_def)
qed

text \<open>
  C19: \<open>busy_wait\<close> returns as soon as the clock shows the deadline: if the clock does
  reach it, the wait ends with the first reading that is not before the deadline, and
  nothing but the position in the clock's readings has changed.
\<close>

theorem busy_wait_returns:
  assumes "\<exists>n. \<not> tsc s (tsc_reads s + 1 + n) < instant_add (frequency s) (tsc s (tsc_reads s)) d"
  shows "\<exists>n. busy_wait d s = Some (after_reads (n + 2) s) \<and>
    \<not> tsc s (tsc_reads s + 1 + n) < instant_add (frequency s) (tsc s (tsc_reads s)) d \<and>
    (\<forall>k < n. tsc s (tsc_reads s + 1 + k) < instant_add (frequency s) (tsc s (tsc_reads s)) d)"
proof -
  let ?D = "instant_add (frequency s) (tsc s (tsc_reads s)) d"
  define n where "n = (LEAST n. \<not> tsc s (tsc_reads s + 1 + n) < ?D)"
  have n: "\<not> tsc s (tsc_reads s + 1 + n) < ?D" unfolding n_def by (rule LeastI_ex) (rule assms)
  moreover have less: "tsc s (tsc_reads s + 1 + k) < ?D" if "k < n" for k
    using that unfolding n_def by (blast dest: not_less_Least)
  moreover have "busy_wait d s = Some (after_reads (n + 2) s)"
    using wait_until_ends [of "after_reads 1 s" n ?D] n less
    by (simp add: busy_wait_def Let_def after_reads_def)
  ultimately show ?thesis by blast
qed

theorem busy_wait_returns_witness:
  "\<exists>n. busy_wait 3 (ticking timer_wheel_new) = Some (after_reads (n + 2) (ticking timer_wheel_new))"
proof -
  have "\<not> tsc (ticking timer_wheel_new) (tsc_reads (ticking timer_wheel_new) + 1 + 2) <
      instant_add (frequency (ticking timer_wheel_new)) (tsc (ticking timer_wheel_new) (tsc_reads (ticking timer_wheel_new))) 3"
    by (simp add: ticking_def instant_add_def duration_ticks_def)
  with busy_wait_returns [of "ticking timer_wheel_new" 3] show ?thesis by blast
qed

text \<open>
  C20: A deadline less than a microsecond away, in either direction, is programmed as
  an initial count of 0, which stops the APIC timer instead of making it fire: the
  interrupt for that deadline never comes.
\<close>

theorem near_deadline_stops_timer:
  assumes "frequency s \<noteq> 0"
    and "nat \<bar>int (unat when) - int (unat (tsc s (tsc_reads s)))\<bar> * 1000000000 div unat (frequency s) < 1000"
  shows "\<exists>s' ws. schedule_interrupt when vector s = (Ok (), s') \<and>
    msr_writes s' = ws @ [(IA32_X2APIC_INIT_COUNT, 0)]"
proof -
  let ?ns = "nat \<bar>int (unat when) - int (unat (tsc s (tsc_reads s)))\<bar> * 1000000000 div unat (frequency s)"
  have "unat (of_nat ?ns :: u64) = ?ns" using assms(2) by (simp add: unat_of_nat)
  with assms(2) have "ticks_until (frequency s) (ticks_per_ms s) when (tsc s (tsc_reads s)) = 0"
    by (simp add: ticks_until_def)
  then show ?thesis by (simp add: schedule_interrupt_eq [OF assms(1)])
qed

theorem near_deadline_stops_timer_witness:
  "\<exists>s' ws. schedule_interrupt 5900 vector_TIMER (ticking timer_wheel_new) = (Ok (), s') \<and>
    msr_writes s' = ws @ [(IA32_X2APIC_INIT_COUNT, 0)]"
proof -
  have "frequency (ticking timer_wheel_new) = 1000000000"
    "tsc (ticking timer_wheel_new) (tsc_reads (ticking timer_wheel_new)) = 5000"
    by (simp_all add: ticking_def)
  then show ?thesis using near_deadline_stops_timer [of "ticking timer_wheel_new" "5900"] by simp
qed

end
