(* ===== verification/Pit.thy ===== *)
theory Pit
  imports Emulated_Device Time
begin

text \<open>
  The devices that use the clock: the virtual interval timer (\<open>virtdev/pit.rs\<close>, with
  the constants and modes of \<open>physdev/pit.rs\<close>) and the ACPI runtime registers
  (\<open>virtdev/acpi.rs\<close>). Their state is the device together with the state of the core:
  its clock, its timer wheel and the message queues.
\<close>

section \<open>Modes\<close>

definition PIT_NS_PER_TICK :: u64 where "PIT_NS_PER_TICK = 838"
definition PIT_COUNTER_0 :: Port where "PIT_COUNTER_0 = 0x40"
definition PIT_COUNTER_1 :: Port where "PIT_COUNTER_1 = 0x41"
definition PIT_COUNTER_2 :: Port where "PIT_COUNTER_2 = 0x42"
definition PIT_MODE_CONTROL :: Port where "PIT_MODE_CONTROL = 0x43"
definition PIT_PS2_CTRL_B :: Port where "PIT_PS2_CTRL_B = 0x61"

lemmas pit_port_defs = PIT_COUNTER_0_def PIT_COUNTER_1_def PIT_COUNTER_2_def PIT_MODE_CONTROL_def PIT_PS2_CTRL_B_def

text \<open>The fields of a mode: the counter, the timer and the time it was started at.\<close>

datatype OperatingModeState =
    Mode0 "u16 option" "TimerId option" "Instant option"
  | Mode2 "u16 option" "TimerId option" "Instant option"

datatype AccessModeState = LatchCount | LoByte | HiByte | AccessWord "u8 option"

record ChannelState =
  channel_mode :: OperatingModeState
  channel_access :: AccessModeState

definition channel_default :: ChannelState where
  "channel_default = \<lparr>channel_mode = Mode0 None None None, channel_access = LoByte\<rparr>"

record Pit8254 =
  channel0 :: ChannelState
  channel2 :: ChannelState

definition pit_new :: Pit8254 where
  "pit_new = \<lparr>channel0 = channel_default, channel2 = channel_default\<rparr>"

type_synonym ('s, 'd, 'a) timed = "'s \<times> ('d, 'a) time_state_scheme"

primrec mode_timer :: "OperatingModeState \<Rightarrow> TimerId option" where
  "mode_timer (Mode0 counter timer since) = timer"
| "mode_timer (Mode2 counter timer since) = timer"

section \<open>The interval timer\<close>

definition pit_services :: "Pit8254 \<Rightarrow> DeviceRegion list" where
  "pit_services d = [PortIo PIT_COUNTER_0 PIT_MODE_CONTROL, PortIo PIT_PS2_CTRL_B PIT_PS2_CTRL_B]"

definition pit_on_port_read ::
  "Port \<Rightarrow> PortReadRequest \<Rightarrow> ((Pit8254, 'd, 'a) timed, PortReadRequest, Error) action" where
  "pit_on_port_read port val = (\<lambda>(d, s).
    if port = PIT_PS2_CTRL_B then
      (case channel_mode (channel2 d) of
         Mode0 (Some start_counter) timer (Some start_time) \<Rightarrow>
           bind_state (on_snd now) (\<lambda>t.
           bind_state (lift_state (instant_diff (frequency s) t start_time)) (\<lambda>duration.
             let ticks = duration div unat PIT_NS_PER_TICK
             in return_state (if start_counter < of_nat ticks then copy_from_u32 (push_bit 5 1) val else val))) (d, s)
       | _ \<Rightarrow> (Ok val, (d, s)))
    else (Ok val, (d, s)))"

text \<open>The result of \<open>cancel_timer\<close> is dropped, a panic in it is not.\<close>

definition ignore_error :: "('s, unit, 'e) action \<Rightarrow> ('s, unit, 'e) action" where
  "ignore_error f s = (case f s of (Err e, s') \<Rightarrow> (Ok (), s') | r \<Rightarrow> r)"

definition cancel_mode_timer :: "OperatingModeState \<Rightarrow> (('d, 'a) time_state_scheme, unit, Error) action" where
  "cancel_mode_timer m =
    (case mode_timer m of
       Some i \<Rightarrow> ignore_error (cancel_timer i)
     | None \<Rightarrow> return_state ())"

definition decode_operating :: "u8 \<Rightarrow> OperatingModeState res" where
  "decode_operating operating =
    (if operating = 0b000 then Ok (Mode0 None None None)
     else if operating = 0b010 then Ok (Mode2 None None None)
     else Err InvalidValue)"

definition decode_access :: "u8 \<Rightarrow> AccessModeState res" where
  "decode_access acc =
    (if acc = 0b00 then Ok LatchCount
     else if acc = 0b01 then Ok LoByte
     else if acc = 0b10 then Ok HiByte
     else if acc = 0b11 then Ok (AccessWord None)
     else Err InvalidValue)"

definition pit_mode_control :: "u8 \<Rightarrow> ((Pit8254, 'd, 'a) timed, unit, Error) action" where
  "pit_mode_control val =
    (let channel = drop_bit 6 (0b11000000 AND val);
         acc = drop_bit 4 (0b00110000 AND val);
         operating = drop_bit 1 (0b00001110 AND val)
     in if val AND 1 \<noteq> 0 then lift_state (Err InvalidValue)
        else
          bind_state (lift_state (decode_operating operating)) (\<lambda>operating_state.
          bind_state (lift_state (decode_access acc)) (\<lambda>access_state.
          let channel_state = \<lparr>channel_mode = operating_state, channel_access = access_state\<rparr> in
          if channel = 0b00 then
            bind_state (\<lambda>(d, s). on_snd (cancel_mode_timer (channel_mode (channel0 d))) (d, s))
              (\<lambda>_. on_fst (\<lambda>d. (Ok (), d\<lparr>channel0 := channel_state\<rparr>)))
          else if channel = 0b10 then
            bind_state (\<lambda>(d, s). on_snd (cancel_mode_timer (channel_mode (channel2 d))) (d, s))
              (\<lambda>_. on_fst (\<lambda>d. (Ok (), d\<lparr>channel2 := channel_state\<rparr>)))
          else lift_state (Err InvalidValue))))"

text \<open>
  The counter a byte completes, if it does, and the new access state. A byte for a
  channel in the latch mode hits \<open>unreachable!\<close>.
\<close>

definition load_counter :: "u8 \<Rightarrow> AccessModeState \<Rightarrow> (u16 option \<times> AccessModeState) res" where
  "load_counter val acc =
    (case acc of
       LoByte \<Rightarrow> Ok (Some (ucast val), acc)
     | HiByte \<Rightarrow> Ok (Some (push_bit 8 (ucast val)), acc)
     | AccessWord (Some lo) \<Rightarrow> Ok (Some (push_bit 8 (ucast val) OR ucast lo), acc)
     | AccessWord None \<Rightarrow> Ok (None, AccessWord (Some val))
     | LatchCount \<Rightarrow> Panic)"

text \<open>
  Starting the counter: only counter 0 gets a timer, one-shot in mode 0 and periodic
  in mode 2.
\<close>

definition start_counter ::
  "Port \<Rightarrow> u16 \<Rightarrow> ChannelState \<Rightarrow> (('d, 'a) time_state_scheme, ChannelState, Error) action" where
  "start_counter port counter ch =
    (let duration = unat (PIT_NS_PER_TICK * ucast counter) in
     bind_state now (\<lambda>t.
     case channel_mode ch of
       Mode0 _ timer _ \<Rightarrow>
         (if port = PIT_COUNTER_0 then
            bind_state (set_oneshot_timer duration (TimerGSI gsi_PIT))
              (\<lambda>i. return_state (ch\<lparr>channel_mode := Mode0 (Some counter) (Some i) (Some t)\<rparr>))
          else return_state (ch\<lparr>channel_mode := Mode0 (Some counter) timer (Some t)\<rparr>))
     | Mode2 _ timer _ \<Rightarrow>
         (if port = PIT_COUNTER_0 then
            bind_state (set_periodic_timer duration (TimerGSI gsi_PIT))
              (\<lambda>i. return_state (ch\<lparr>channel_mode := Mode2 (Some counter) (Some i) (Some t)\<rparr>))
          else return_state (ch\<lparr>channel_mode := Mode2 (Some counter) timer (Some t)\<rparr>))))"

text \<open>A byte for one channel, with the channel's place in the device.\<close>

definition pit_counter_write ::
  "Port \<Rightarrow> u8 \<Rightarrow> (Pit8254 \<Rightarrow> ChannelState) \<Rightarrow> (ChannelState \<Rightarrow> Pit8254 \<Rightarrow> Pit8254) \<Rightarrow>
    ((Pit8254, 'd, 'a) timed, unit, Error) action" where
  "pit_counter_write port val get put = (\<lambda>(d, s).
    bind_state (lift_state (load_counter val (channel_access (get d)))) (\<lambda>(counter, acc).
      let ch = (get d)\<lparr>channel_access := acc\<rparr> in
      bind_state (on_fst (\<lambda>d. (Ok (), put ch d))) (\<lambda>_.
      case counter of
        None \<Rightarrow> return_state ()
      | Some c \<Rightarrow>
          if c = 0 then return_state ()
          else bind_state (on_snd (start_counter port c ch)) (\<lambda>ch'. on_fst (\<lambda>d. (Ok (), put ch' d))))) (d, s))"

definition pit_on_port_write :: "Port \<Rightarrow> PortWriteRequest \<Rightarrow> ((Pit8254, 'd, 'a) timed, unit, Error) action" where
  "pit_on_port_write port req =
    (if port = PIT_MODE_CONTROL then
       bind_state (lift_state (write_try_into_u8 req)) pit_mode_control
     else if PIT_COUNTER_0 \<le> port \<and> port \<le> PIT_COUNTER_2 then
       bind_state (lift_state (write_try_into_u8 req)) (\<lambda>val.
         if port = PIT_COUNTER_0 then pit_counter_write port val channel0 (\<lambda>ch d. d\<lparr>channel0 := ch\<rparr>)
         else if port = PIT_COUNTER_1 then lift_state (Err InvalidValue)
         else pit_counter_write port val channel2 (\<lambda>ch d. d\<lparr>channel2 := ch\<rparr>))
     else return_state ())"

definition pit_on_event :: "(Pit8254, 'd, 'a) timed handler" where
  "pit_on_event = port_handler pit_on_port_read pit_on_port_write"

section \<open>ACPI runtime registers\<close>

record AcpiRuntime =
  pm_base :: Port

definition PMTIMER_HZ :: u64 where "PMTIMER_HZ = 3579545"
definition FADT_SMI_COMMAND :: Port where "FADT_SMI_COMMAND = 0xb2"

definition acpi_runtime_new :: "Port \<Rightarrow> AcpiRuntime" where
  "acpi_runtime_new base = \<lparr>pm_base = base\<rparr>"

definition pm1a_cnt :: "AcpiRuntime \<Rightarrow> Port" where
  "pm1a_cnt d = pm_base d + 0x04"

definition pmtimer :: "AcpiRuntime \<Rightarrow> Port" where
  "pmtimer d = pm_base d + 0x08"

definition acpi_services :: "AcpiRuntime \<Rightarrow> DeviceRegion list" where
  "acpi_services d =
    [PortIo FADT_SMI_COMMAND FADT_SMI_COMMAND, PortIo (pm1a_cnt d) (pm1a_cnt d), PortIo (pmtimer d) (pmtimer d),
     PortIo 0xafe0 0xafe3, PortIo 0xae00 0xae03, PortIo 0xae04 0xae07, PortIo 0xae08 0xae0b, PortIo 0xae0c 0xae0f]"

text \<open>\<open>system_start_time()\<close> is the clock's value when the time source was set up.\<close>

definition acpi_on_port_read ::
  "Instant \<Rightarrow> Port \<Rightarrow> PortReadRequest \<Rightarrow> ((AcpiRuntime, 'd, 'a) timed, PortReadRequest, Error) action" where
  "acpi_on_port_read system_start_time port val = (\<lambda>(d, s).
    if port = pmtimer d then
      bind_state (on_snd now) (\<lambda>t.
      bind_state (lift_state (instant_diff (frequency s) t system_start_time)) (\<lambda>on_duration.
        let pm_time = on_duration * unat PMTIMER_HZ mod 2 ^ 128 div 1000000000
        in return_state (copy_from_u32 (of_nat pm_time) val))) (d, s)
    else (Ok val, (d, s)))"

definition acpi_on_event :: "Instant \<Rightarrow> (AcpiRuntime, 'd, 'a) timed handler" where
  "acpi_on_event system_start_time =
    port_handler (acpi_on_port_read system_start_time) (\<lambda>port val. return_state ())"

section \<open>Counters\<close>

text \<open>The timer a channel's mode asks for.\<close>

primrec mode_kind :: "OperatingModeState \<Rightarrow> TimerMode" where
  "mode_kind (Mode0 counter timer since) = OneShot"
| "mode_kind (Mode2 counter timer since) = Periodic"

definition counter_timer :: "OperatingModeState \<Rightarrow> u16 \<Rightarrow> Instant \<Rightarrow> RunningTimer" where
  "counter_timer m counter t =
    \<lparr>timer_duration = unat (PIT_NS_PER_TICK * ucast counter), timer_mode = mode_kind m, started = t,
     timer_kind = TimerGSI gsi_PIT\<rparr>"

lemma start_counter_0:
  assumes "frequency s \<noteq> 0" "timer_wheel s = Some w"
  defines "i \<equiv> TimerId (wheel_counter w) (this_core s)"
  shows "\<exists>ch' s' w'. start_counter PIT_COUNTER_0 counter ch s = (Ok ch', s') \<and>
    mode_timer (channel_mode ch') = Some i \<and> channel_access ch' = channel_access ch \<and>
    timer_wheel s' = Some w' \<and>
    get_timer i w' = Some (counter_timer (channel_mode ch) counter (tsc s (Suc (tsc_reads s)))) \<and>
    (\<forall>j. j \<noteq> i \<longrightarrow> get_timer j w' = get_timer j w)"
proof -
  let ?s = "after_reads 1 s"
  have pre: "frequency ?s \<noteq> 0" "timer_wheel ?s = Some w" using assms(1,2) by simp_all
  show ?thesis
  proof (cases "channel_mode ch")
    case (Mode0 a b c)
    then show ?thesis
      using register_timer_effect [OF pre, of "one_shot (unat (PIT_NS_PER_TICK * ucast counter)) (TimerGSI gsi_PIT)"]
      by (auto simp: start_counter_def bind_state_def now_eq set_oneshot_timer_def one_shot_def return_state_def
          i_def counter_timer_def)
  next
    case (Mode2 a b c)
    then show ?thesis
      using register_timer_effect [OF pre, of "periodic (unat (PIT_NS_PER_TICK * ucast counter)) (TimerGSI gsi_PIT)"]
      by (auto simp: start_counter_def bind_state_def now_eq set_periodic_timer_def periodic_def return_state_def
          i_def counter_timer_def)
  qed
qed

lemma pit_write_0:
  "pit_on_port_write PIT_COUNTER_0 (WriteOneByte b) =
    pit_counter_write PIT_COUNTER_0 b channel0 (\<lambda>ch d. d\<lparr>channel0 := ch\<rparr>)"
  by (simp add: fun_eq_iff pit_on_port_write_def pit_port_defs write_try_into_u8_def bind_lift)

lemma acpi_read_returns:
  assumes "frequency s \<noteq> 0"
  shows "\<exists>v. acpi_on_port_read t0 p r (d, s) = (Ok v, (d, if p = pmtimer d then after_reads 1 s else s)) \<and>
    read_len v = read_len r"
  using assms
  by (auto simp: acpi_on_port_read_def bind_state_def now_eq lift_state_def instant_diff_def Let_def return_state_def
      on_snd_def read_len_copy)

interpretation acpi: emulated_device "\<lambda>d. acpi_services (fst d)" "acpi_on_event t0" "\<lambda>d. frequency (snd d) \<noteq> 0" for t0
proof
  show "returns r \<and> frequency (snd d') \<noteq> 0 \<and> acpi_services (fst d') = acpi_services (fst d) \<and>
      same_shape (event_kind ev) (event_kind ev')"
    if "frequency (snd d) \<noteq> 0" "served (acpi_services (fst d)) (event_kind ev)" "acpi_on_event t0 (d, ev) = (r, (d', ev'))"
    for d ev r d' ev'
    unfolding acpi_on_event_def
  proof (rule port_handler_serve [where I = "\<lambda>d. frequency (snd d) \<noteq> 0" and services = "\<lambda>d. acpi_services (fst d)", OF _ _ that(1,2)])
    show "returns (fst (acpi_on_port_read t0 p r d)) \<and> frequency (snd (snd (acpi_on_port_read t0 p r d))) \<noteq> 0 \<and>
        acpi_services (fst (snd (acpi_on_port_read t0 p r d))) = acpi_services (fst d) \<and>
        (\<forall>r'. fst (acpi_on_port_read t0 p r d) = Ok r' \<longrightarrow> read_len r' = read_len r)" for p r
      using acpi_read_returns [OF that(1), of t0 p r "fst d"] that(1) by (auto split: if_splits)
  qed (use that in \<open>simp_all add: acpi_on_event_def return_state_def\<close>)
qed

text \<open>The fields of a mode word for channel 0.\<close>

lemma mode_word_channel_0:
  fixes val :: u8
  assumes "val AND 0b11000001 = 0"
  shows "val AND 1 = 0 \<and> drop_bit 6 (0b11000000 AND val) = 0"
proof -
  have m: "(0b11000001 :: u8) = 1 OR push_bit 6 (mask 2)" "(0b11000000 :: u8) = push_bit 6 (mask 2)"
    by (simp_all add: mask_eq_exp_minus_1 push_bit_eq_mult)
  have bits: "\<not> bit (val AND (1 OR push_bit 6 (mask 2))) k" for k using assms by (simp add: m)
  have "\<not> bit val 0" using bits [of 0] by (simp add: bit_simps bit_1_iff)
  moreover have "drop_bit 6 (push_bit 6 (mask 2) AND val) = 0"
  proof (rule bit_word_eqI)
    show "bit (drop_bit 6 (push_bit 6 (mask 2) AND val)) n = bit 0 n" for n
      using bits [of "6 + n"] by (auto simp: bit_simps bit_1_iff)
  qed
  ultimately show ?thesis by (simp add: m and_one_eq bit_0 mod2_eq_if)
qed

lemma mode_word_access:
  fixes val :: u8
  shows "\<exists>acc. decode_access (drop_bit 4 (0b00110000 AND val)) = Ok acc"
proof -
  have m: "(0b00110000 :: u8) = push_bit 4 (mask 2)" by (simp add: mask_eq_exp_minus_1 push_bit_eq_mult)
  have "drop_bit 4 (0b00110000 AND val) = take_bit 2 (drop_bit 4 val)"
    unfolding m by (intro bit_word_eqI) (auto simp: bit_simps)
  moreover have "unat (take_bit 2 (drop_bit 4 val)) < 4"
    using take_bit_nat_less_exp [of 2 "unat (drop_bit 4 val)"] by (simp add: unsigned_take_bit_eq)
  ultimately have "unat (drop_bit 4 (0b00110000 AND val)) \<in> {0, 1, 2, 3}" by auto
  then show ?thesis by (auto simp: decode_access_def word_unat_eq_iff)
qed

section \<open>Properties\<close>

text \<open>
  C25: Programming counter 0 in word mode. Writing a low and then a high byte to a channel
  that awaits a word starts a timer for the counter made of the two bytes, at 838 ns a
  tick, one-shot in mode 0 and periodic in mode 2, which delivers the timer's GSI; no
  other timer of the core is affected.
\<close>

theorem pit_word_starts_timer:
  assumes "frequency s \<noteq> 0" "timer_wheel s = Some w" "channel_access (channel0 d) = AccessWord None"
    and "push_bit 8 (ucast hi) OR ucast lo \<noteq> (0 :: u16)"
  shows "\<exists>d' s' w' i t.
    bind_state (pit_on_port_write PIT_COUNTER_0 (WriteOneByte lo))
      (\<lambda>_. pit_on_port_write PIT_COUNTER_0 (WriteOneByte hi)) (d, s) = (Ok (), (d', s')) \<and>
    timer_wheel s' = Some w' \<and> mode_timer (channel_mode (channel0 d')) = Some i \<and>
    get_timer i w' = Some (counter_timer (channel_mode (channel0 d)) (push_bit 8 (ucast hi) OR ucast lo) t) \<and>
    (\<forall>j. j \<noteq> i \<longrightarrow> get_timer j w' = get_timer j w)"
proof -
  let ?c = "push_bit 8 (ucast hi) OR ucast lo :: u16"
  let ?ch = "(channel0 d)\<lparr>channel_access := AccessWord (Some lo)\<rparr>"
  let ?d = "d\<lparr>channel0 := ?ch\<rparr>"
  have "pit_on_port_write PIT_COUNTER_0 (WriteOneByte lo) (d, s) = (Ok (), (?d, s))"
    using assms(3) by (simp add: pit_write_0 pit_counter_write_def lift_state_def Let_def load_counter_def bind_state_def
        on_fst_def return_state_def)
  moreover obtain ch' s' w' i t where c: "start_counter PIT_COUNTER_0 ?c ?ch s = (Ok ch', s')"
    "mode_timer (channel_mode ch') = Some i" "timer_wheel s' = Some w'"
    "get_timer i w' = Some (counter_timer (channel_mode ?ch) ?c t)" "\<forall>j. j \<noteq> i \<longrightarrow> get_timer j w' = get_timer j w"
    using start_counter_0 [OF assms(1,2), of ?c ?ch] by blast
  moreover have "pit_on_port_write PIT_COUNTER_0 (WriteOneByte hi) (?d, s) = (Ok (), (?d\<lparr>channel0 := ch'\<rparr>, s'))"
    using c(1) assms(4) by (simp add: pit_write_0 pit_counter_write_def lift_state_def Let_def load_counter_def bind_state_def
        on_fst_def on_snd_def)
  ultimately show ?thesis by (auto simp: bind_state_def)
qed

theorem pit_word_starts_timer_witness:
  "\<exists>d' s'. bind_state (pit_on_port_write PIT_COUNTER_0 (WriteOneByte 0x34))
      (\<lambda>_. pit_on_port_write PIT_COUNTER_0 (WriteOneByte 0x12))
      (\<lparr>channel0 = \<lparr>channel_mode = Mode2 None None None, channel_access = AccessWord None\<rparr>, channel2 = channel_default\<rparr>,
       ticking timer_wheel_new) = (Ok (), (d', s'))"
proof -
  have "frequency (ticking timer_wheel_new) \<noteq> 0" "timer_wheel (ticking timer_wheel_new) = Some timer_wheel_new"
    by (simp_all add: ticking_def)
  moreover have "push_bit 8 (ucast (0x12 :: u8)) OR ucast (0x34 :: u8) \<noteq> (0 :: u16)" by code_simp
  ultimately show ?thesis
    using pit_word_starts_timer [of "ticking timer_wheel_new" timer_wheel_new
        "\<lparr>channel0 = \<lparr>channel_mode = Mode2 None None None, channel_access = AccessWord None\<rparr>, channel2 = channel_default\<rparr>"
        "0x12" "0x34"] by auto
qed

text \<open>
  C26: Reprogramming stops the old timer. A mode word for counter 0 that is accepted removes
  the timer of the counter from the wheel of the core, and only that one, before the
  counter waits for its new value.
\<close>

theorem pit_mode_cancels_timer:
  assumes "frequency s \<noteq> 0" "timer_wheel s = Some w"
    and "mode_timer (channel_mode (channel0 d)) = Some i" "timer_core_id i = this_core s"
    and "val AND 0b11000001 = 0" "drop_bit 1 (0b00001110 AND val) \<in> {0b000, 0b010}"
  shows "\<exists>d' s' w'. pit_on_port_write PIT_MODE_CONTROL (WriteOneByte val) (d, s) = (Ok (), (d', s')) \<and>
    timer_wheel s' = Some w' \<and> mode_timer (channel_mode (channel0 d')) = None \<and> channel2 d' = channel2 d \<and>
    (\<forall>j. get_timer j w' = (if j = i then None else get_timer j w))"
proof -
  have v: "val AND 1 = 0" "drop_bit 6 (0b11000000 AND val) = 0"
    using mode_word_channel_0 [OF assms(5)] by simp_all
  obtain acc where acc: "decode_access (drop_bit 4 (0b00110000 AND val)) = Ok acc"
    using mode_word_access by blast
  obtain m where m: "decode_operating (drop_bit 1 (0b00001110 AND val)) = Ok m" "mode_timer m = None"
    using assms(6) by (auto simp: decode_operating_def)
  obtain s' w' where c: "cancel_timer i s = (Ok (), s')" "timer_wheel s' = Some w'"
    "\<forall>j. get_timer j w' = (if j = i then None else get_timer j w)"
    using cancel_timer_local [OF assms(1,2,4)] by blast
  have "pit_on_port_write PIT_MODE_CONTROL (WriteOneByte val) (d, s) =
      (Ok (), (d\<lparr>channel0 := \<lparr>channel_mode = m, channel_access = acc\<rparr>\<rparr>, s'))"
    using assms(3) c(1) v acc m
    by (simp add: pit_on_port_write_def write_try_into_u8_def bind_lift pit_mode_control_def bind_state_def
        lift_state_def on_fst_def on_snd_def cancel_mode_timer_def ignore_error_def Let_def)
  with c m(2) show ?thesis by auto
qed

theorem pit_mode_cancels_timer_witness:
  "\<exists>d' s'. pit_on_port_write PIT_MODE_CONTROL (WriteOneByte 0b00110100)
     (pit_new\<lparr>channel0 := channel_default\<lparr>channel_mode := Mode0 (Some 5) (Some (TimerId 0 1)) (Some 0)\<rparr>\<rparr>,
      ticking timer_wheel_new) = (Ok (), (d', s'))"
proof -
  have "frequency (ticking timer_wheel_new) \<noteq> 0" "timer_wheel (ticking timer_wheel_new) = Some timer_wheel_new"
    "this_core (ticking timer_wheel_new) = 1"
    by (simp_all add: ticking_def)
  then show ?thesis
    using pit_mode_cancels_timer [of "ticking timer_wheel_new" timer_wheel_new
        "pit_new\<lparr>channel0 := channel_default\<lparr>channel_mode := Mode0 (Some 5) (Some (TimerId 0 1)) (Some 0)\<rparr>\<rparr>"
        "TimerId 0 1" "0b00110100"] by auto
qed

text \<open>
  A guest can make the interval timer panic: after a mode word that latches counter 0,
  any byte written to the counter reaches \<open>unreachable!\<close>.
\<close>

theorem pit_latch_panics:
  assumes "mode_timer (channel_mode (channel0 d)) = None"
  shows "fst (bind_state (pit_on_port_write PIT_MODE_CONTROL (WriteOneByte 0))
    (\<lambda>_. pit_on_port_write PIT_COUNTER_0 (WriteOneByte b)) (d, s)) = Panic"
proof -
  have "pit_on_port_write PIT_MODE_CONTROL (WriteOneByte 0) (d, s) =
      (Ok (), (d\<lparr>channel0 := \<lparr>channel_mode = Mode0 None None None, channel_access = LatchCount\<rparr>\<rparr>, s))"
    using assms
    by (simp add: pit_on_port_write_def write_try_into_u8_def bind_lift pit_mode_control_def bind_state_def
        lift_state_def on_fst_def on_snd_def cancel_mode_timer_def return_state_def decode_operating_def
        decode_access_def Let_def)
  then show ?thesis
    by (simp add: bind_state_def pit_write_0) (simp add: pit_counter_write_def bind_lift load_counter_def)
qed

theorem pit_latch_panics_witness:
  "fst (bind_state (pit_on_port_write PIT_MODE_CONTROL (WriteOneByte 0))
    (\<lambda>_. pit_on_port_write PIT_COUNTER_0 (WriteOneByte 0x10)) (pit_new, ticking timer_wheel_new)) = Panic"
  by (rule pit_latch_panics) (simp add: pit_new_def channel_default_def)

end
