(* ===== verification/Fw_Cfg.thy ===== *)
theory Fw_Cfg
  imports Emulated_Device Guest_Bytes "HOL-Library.RBT"
begin

text \<open>
  The firmware configuration device (\<open>virtdev/qemu_fw_cfg.rs\<close>): the builder that
  assigns selectors to files, the selector and data ports, and the DMA interface,
  which reads its request from guest memory and writes the data there.

  The structures the guest sees are big-endian; \<open>to_be\<close> and \<open>from_be\<close> on the
  little-endian host exchange the bytes.
\<close>

section \<open>Selectors and structures\<close>

definition SIGNATURE :: u16 where "SIGNATURE = 0x00"
definition FW_CFG_ID :: u16 where "FW_CFG_ID = 0x01"
definition FILE_DIR :: u16 where "FILE_DIR = 0x19"
definition FILE_FIRST :: u16 where "FILE_FIRST = 0x20"
definition FILE_LAST :: u16 where "FILE_LAST = 0x7fff"

definition FW_CFG_MAX_FILE_NAME :: nat where "FW_CFG_MAX_FILE_NAME = 55"

definition swap_bytes :: "nat \<Rightarrow> 'a::len word \<Rightarrow> 'a word" where
  "swap_bytes n w = from_le_bytes (be_bytes n w)"

record FWCfgFile =
  file_size :: u32
  file_select :: u16
  file_reserved :: u16
  file_name :: "u8 list"

definition file_bytes :: "FWCfgFile \<Rightarrow> u8 list" where
  "file_bytes f =
    le_bytes 4 (file_size f) @ le_bytes 2 (file_select f) @ le_bytes 2 (file_reserved f) @ file_name f"

record RawFWCfgDmaAccess =
  be_control :: u32
  be_length :: u32
  be_address :: u64

definition DMA_ERROR :: u16 where "DMA_ERROR = push_bit 0 1"
definition DMA_READ :: u16 where "DMA_READ = push_bit 1 1"
definition DMA_SKIP :: u16 where "DMA_SKIP = push_bit 2 1"
definition DMA_SELECT :: u16 where "DMA_SELECT = push_bit 3 1"
definition DMA_WRITE :: u16 where "DMA_WRITE = push_bit 4 1"
definition DMA_ALL :: u16 where "DMA_ALL = DMA_ERROR OR DMA_READ OR DMA_SKIP OR DMA_SELECT OR DMA_WRITE"

lemmas dma_defs = DMA_ERROR_def DMA_READ_def DMA_SKIP_def DMA_SELECT_def DMA_WRITE_def DMA_ALL_def

record FWCfgDmaAccess =
  dma_control :: u16
  dma_select :: u16
  dma_length :: u32
  dma_address :: u64

definition raw_from_dma :: "FWCfgDmaAccess \<Rightarrow> RawFWCfgDmaAccess" where
  "raw_from_dma dma =
    \<lparr>be_control = swap_bytes 4 (ucast (dma_control dma)), be_length = swap_bytes 4 (dma_length dma),
     be_address = swap_bytes 8 (dma_address dma)\<rparr>"

definition dma_from_raw :: "RawFWCfgDmaAccess \<Rightarrow> FWCfgDmaAccess" where
  "dma_from_raw raw =
    (let control = swap_bytes 4 (be_control raw)
     in \<lparr>dma_control = ucast control AND DMA_ALL, dma_select = ucast (drop_bit 16 control),
         dma_length = swap_bytes 4 (be_length raw), dma_address = swap_bytes 8 (be_address raw)\<rparr>)"

text \<open>The 16 bytes of a raw request in memory.\<close>

definition raw_bytes :: "RawFWCfgDmaAccess \<Rightarrow> u8 list" where
  "raw_bytes raw = le_bytes 4 (be_control raw) @ le_bytes 4 (be_length raw) @ le_bytes 8 (be_address raw)"

definition raw_of_bytes :: "u8 list \<Rightarrow> RawFWCfgDmaAccess" where
  "raw_of_bytes bs =
    \<lparr>be_control = from_le_bytes (take 4 bs), be_length = from_le_bytes (take 4 (drop 4 bs)),
     be_address = from_le_bytes (take 8 (drop 8 bs))\<rparr>"

section \<open>The builder\<close>

record QemuFwCfgBuilder =
  file_info :: "FWCfgFile list"
  builder_data :: "(u16, u8 list) RBT.rbt"

definition add_bytes :: "u16 \<Rightarrow> u8 list \<Rightarrow> QemuFwCfgBuilder \<Rightarrow> QemuFwCfgBuilder" where
  "add_bytes selector data b = b\<lparr>builder_data := RBT.insert selector data (builder_data b)\<rparr>"

definition add_i32 :: "u16 \<Rightarrow> u32 \<Rightarrow> QemuFwCfgBuilder \<Rightarrow> QemuFwCfgBuilder" where
  "add_i32 selector data = add_bytes selector (le_bytes 4 data)"

definition builder_new :: QemuFwCfgBuilder where
  "builder_new = add_i32 FW_CFG_ID 0b11 (add_i32 SIGNATURE 0x554d4551 \<lparr>file_info = [], builder_data = RBT.empty\<rparr>)"

definition next_file_selector :: "QemuFwCfgBuilder \<Rightarrow> u16" where
  "next_file_selector b =
    (let files = filter (\<lambda>s. FILE_FIRST \<le> s \<and> s \<le> FILE_LAST) (RBT.keys (builder_data b))
     in (if files = [] then FILE_FIRST - 1 else Max (set files)) + 1)"

definition add_file :: "u8 list \<Rightarrow> u8 list \<Rightarrow> (QemuFwCfgBuilder, unit, Error) action" where
  "add_file name data b =
    (if FW_CFG_MAX_FILE_NAME < length name then (Err InvalidValue, b)
     else
       let selector = next_file_selector b in
       if FILE_LAST < selector then (Err InvalidValue, b)
       else
         let info = \<lparr>file_size = swap_bytes 4 (of_nat (length data)), file_select = swap_bytes 2 selector,
                     file_reserved = 0,
                     file_name = name @ replicate (FW_CFG_MAX_FILE_NAME + 1 - length name) 0\<rparr>
         in (Ok (), b\<lparr>file_info := file_info b @ [info],
                      builder_data := RBT.insert selector data (builder_data b)\<rparr>))"

record QemuFwCfg =
  fw_selector :: u16
  fw_data :: "(u16, u8 list) RBT.rbt"
  data_idx :: nat
  dma_addr :: u64

definition build :: "QemuFwCfgBuilder \<Rightarrow> QemuFwCfg" where
  "build b =
    (let buffer = be_bytes 4 (of_nat (length (file_info b)) :: u32) @ concat (map file_bytes (file_info b))
     in \<lparr>fw_selector = SIGNATURE, fw_data = RBT.insert FILE_DIR buffer (builder_data b), data_idx = 0, dma_addr = 0\<rparr>)"

section \<open>The device\<close>

definition FW_CFG_PORT_SEL :: Port where "FW_CFG_PORT_SEL = 0x510"
definition FW_CFG_PORT_DATA :: Port where "FW_CFG_PORT_DATA = 0x511"
definition FW_CFG_PORT_DMA_HIGH :: Port where "FW_CFG_PORT_DMA_HIGH = 0x514"
definition FW_CFG_PORT_DMA_LOW :: Port where "FW_CFG_PORT_DMA_LOW = 0x518"

lemmas fw_port_defs = FW_CFG_PORT_SEL_def FW_CFG_PORT_DATA_def FW_CFG_PORT_DMA_HIGH_def FW_CFG_PORT_DMA_LOW_def

text \<open>A length beyond the end of the item is only logged; the slice then panics.\<close>

definition read_selector :: "nat \<Rightarrow> (QemuFwCfg, u8 list option, Error) action" where
  "read_selector len d =
    (case RBT.lookup (fw_data d) (fw_selector d) of
       None \<Rightarrow> (Ok None, d)
     | Some data \<Rightarrow>
         (case slice_range data (data_idx d) (data_idx d + len) of
            Ok bs \<Rightarrow> (Ok (Some bs), d\<lparr>data_idx := data_idx d + len\<rparr>)
          | Err e \<Rightarrow> (Err e, d)
          | Panic \<Rightarrow> (Panic, d)
          | Undefined \<Rightarrow> (Undefined, d)))"

definition fw_on_port_read :: "Port \<Rightarrow> PortReadRequest \<Rightarrow> (QemuFwCfg, PortReadRequest, Error) action" where
  "fw_on_port_read port val =
    (if port = FW_CFG_PORT_SEL then (\<lambda>d. (Ok (copy_from_u32 (ucast (fw_selector d)) val), d))
     else if port = FW_CFG_PORT_DATA then
       bind_state (read_selector (read_len val)) (\<lambda>data.
         case data of
           Some bs \<Rightarrow> return_state (read_store val bs)
         | None \<Rightarrow> return_state (copy_from_u32 0 val))
     else if port = FW_CFG_PORT_DMA_LOW then return_state (copy_from_u32 0x20434647 val)
     else if port = FW_CFG_PORT_DMA_HIGH then return_state (copy_from_u32 0x51454d55 val)
     else lift_state Panic)"

text \<open>
  The request after the \<open>SELECT\<close> and \<open>SKIP\<close> steps of \<open>perform_dma_transfer\<close>, which
  set the position in the selected item.
\<close>

definition dma_position :: "FWCfgDmaAccess \<Rightarrow> QemuFwCfg \<Rightarrow> FWCfgDmaAccess \<times> QemuFwCfg" where
  "dma_position req d =
    (let (req, d) =
       (if dma_control req AND DMA_SELECT = DMA_SELECT
        then (req\<lparr>dma_control := dma_control req AND NOT DMA_SELECT\<rparr>, d\<lparr>fw_selector := dma_select req, data_idx := 0\<rparr>)
        else (req, d))
     in if dma_control req AND DMA_SKIP = DMA_SKIP
        then (req\<lparr>dma_control := dma_control req AND NOT DMA_SKIP\<rparr>, d\<lparr>data_idx := unat (dma_length req)\<rparr>)
        else (req, d))"

definition perform_dma_transfer ::
  "(u64 \<Rightarrow> u64) \<Rightarrow> GuestAddressSpaceView \<Rightarrow> (QemuFwCfg \<times> host_mem, unit, Error) action" where
  "perform_dma_transfer entry_address view = (\<lambda>(d, m).
    bind_state (lift_state (view_read_bytes entry_address view (NoPaging (dma_addr d)) 16 (Read 0) m))
      (\<lambda>bytes.
    let (req, d') = dma_position (dma_from_raw (raw_of_bytes bytes)) d in
    bind_state (on_fst (\<lambda>_. (Ok (), d'))) (\<lambda>_.
    bind_state
      (if dma_control req AND DMA_READ = DMA_READ then
         bind_state (on_fst (read_selector (unat (dma_length req)))) (\<lambda>data.
           case data of
             Some bs \<Rightarrow>
               bind_state (on_snd (view_write_bytes entry_address view
                   (NoPaging (dma_address req)) bs (Read 0)))
                 (\<lambda>_. return_state (req\<lparr>dma_control := dma_control req AND NOT DMA_READ\<rparr>))
           | None \<Rightarrow> return_state (req\<lparr>dma_control := DMA_ERROR AND NOT DMA_READ\<rparr>))
       else return_state req) (\<lambda>req.
    let req = (if dma_control req AND DMA_WRITE = DMA_WRITE
               then req\<lparr>dma_control := (dma_control req AND NOT DMA_WRITE) OR DMA_ERROR\<rparr> else req)
    in on_snd (view_write_bytes entry_address view (NoPaging (dma_addr d'))
         (raw_bytes (raw_from_dma req)) (Read 0))))) (d, m))"

definition fw_on_port_write ::
  "(u64 \<Rightarrow> u64) \<Rightarrow> GuestAddressSpaceView \<Rightarrow> Port \<Rightarrow> PortWriteRequest \<Rightarrow> (QemuFwCfg \<times> host_mem, unit, Error) action" where
  "fw_on_port_write entry_address view port val =
    (if port = FW_CFG_PORT_SEL then
       bind_state (lift_state (write_try_into_u16 val))
         (\<lambda>sel. on_fst (\<lambda>d. (Ok (), d\<lparr>fw_selector := sel, data_idx := 0\<rparr>)))
     else if port = FW_CFG_PORT_DATA then lift_state (Err NotImplemented)
     else if port = FW_CFG_PORT_DMA_LOW then
       bind_state (lift_state (write_try_into_u32 val)) (\<lambda>v.
       bind_state (on_fst (\<lambda>d. (Ok (), d\<lparr>dma_addr := dma_addr d OR ucast (swap_bytes 4 v)\<rparr>))) (\<lambda>_.
       bind_state (perform_dma_transfer entry_address view)
         (\<lambda>_. on_fst (\<lambda>d. (Ok (), d\<lparr>dma_addr := 0\<rparr>)))))
     else if port = FW_CFG_PORT_DMA_HIGH then
       bind_state (lift_state (write_try_into_u32 val)) (\<lambda>v.
         on_fst (\<lambda>d. (Ok (), d\<lparr>dma_addr := push_bit 32 (ucast (swap_bytes 4 v))\<rparr>)))
     else lift_state Panic)"

definition fw_services :: "QemuFwCfg \<Rightarrow> DeviceRegion list" where
  "fw_services d = [PortIo FW_CFG_PORT_SEL FW_CFG_PORT_DATA, PortIo FW_CFG_PORT_DMA_HIGH FW_CFG_PORT_DMA_LOW]"

definition fw_on_event :: "(u64 \<Rightarrow> u64) \<Rightarrow> QemuFwCfg handler" where
  "fw_on_event entry_address = (\<lambda>(d, ev).
    case event_kind ev of
      PortRead port val \<Rightarrow>
        bind_state (on_fst (fw_on_port_read port val))
          (\<lambda>val'. on_snd (\<lambda>ev. (Ok (), ev\<lparr>event_kind := PortRead port val'\<rparr>))) (d, ev)
    | PortWrite port val \<Rightarrow>
        (case fw_on_port_write entry_address (event_space ev) port val (d, event_mem ev) of
           (r, (d', m')) \<Rightarrow> (r, (d', ev\<lparr>event_mem := m'\<rparr>)))
    | _ \<Rightarrow> (Ok (), (d, ev)))"

section \<open>Encoding\<close>

lemma le_bytes_swap:
  "8 * n \<le> LENGTH('a::len) \<Longrightarrow> le_bytes n (swap_bytes n (w :: 'a word)) = be_bytes n w"
  using le_bytes_from_le_bytes [of "be_bytes n w", where ?'a = 'a] by (simp add: swap_bytes_def)

lemma swap_from_le_bytes:
  "8 * length bs \<le> LENGTH('a::len) \<Longrightarrow> swap_bytes (length bs) (from_le_bytes bs :: 'a word) = from_be_bytes bs"
  using le_bytes_from_le_bytes [of bs, where ?'a = 'a] by (simp add: swap_bytes_def be_bytes_def from_be_bytes_def)

lemma file_bytes_parts:
  assumes "length (file_name f) = 56"
  shows "length (file_bytes f) = 64" "take 4 (file_bytes f) = le_bytes 4 (file_size f)"
    "take 2 (drop 4 (file_bytes f)) = le_bytes 2 (file_select f)" "drop 8 (file_bytes f) = file_name f"
  using assms by (simp_all add: file_bytes_def)

lemma concat_blocks:
  assumes "\<And>x. x \<in> set xs \<Longrightarrow> length (f x) = n" "i < length xs"
  shows "take n (drop (n * i) (concat (map f xs))) = f (xs ! i)"
  using assms
proof (induction xs arbitrary: i)
  case (Cons x xs)
  then show ?case by (cases i) simp_all
qed simp

section \<open>Files\<close>

text \<open>The entry of the directory that describes a file.\<close>

definition file_entry :: "u8 list \<times> u8 list \<Rightarrow> u16 \<Rightarrow> FWCfgFile" where
  "file_entry f selector =
    \<lparr>file_size = swap_bytes 4 (of_nat (length (snd f))), file_select = swap_bytes 2 selector,
     file_reserved = 0, file_name = fst f @ replicate (56 - length (fst f)) 0\<rparr>"

definition file_selector :: "nat \<Rightarrow> u16" where
  "file_selector i = FILE_FIRST + of_nat i"

text \<open>A builder that holds the files \<open>fs\<close>, in order, and perhaps other items.\<close>

definition holds_files :: "(u8 list \<times> u8 list) list \<Rightarrow> QemuFwCfgBuilder \<Rightarrow> bool" where
  "holds_files fs b \<longleftrightarrow>
    length fs \<le> 0x7fe0 \<and> (\<forall>f \<in> set fs. length (fst f) \<le> FW_CFG_MAX_FILE_NAME) \<and>
    file_info b = map (\<lambda>i. file_entry (fs ! i) (file_selector i)) [0..<length fs] \<and>
    (\<forall>i < length fs. RBT.lookup (builder_data b) (file_selector i) = Some (snd (fs ! i))) \<and>
    (\<forall>s. FILE_FIRST \<le> s \<longrightarrow> s \<le> FILE_LAST \<longrightarrow> RBT.lookup (builder_data b) s \<noteq> None \<longrightarrow> (\<exists>i < length fs. s = file_selector i))"

lemma unat_file_selector: "i \<le> 0x7fe0 \<Longrightarrow> unat (file_selector i) = 0x20 + i"
  by (simp add: file_selector_def FILE_FIRST_def unat_word_ariths unat_of_nat)

lemma file_selector_range:
  "i < 0x7fe0 \<Longrightarrow> FILE_FIRST \<le> file_selector i \<and> file_selector i \<le> FILE_LAST"
  using unat_file_selector [of i] by (simp add: word_le_nat_alt FILE_FIRST_def FILE_LAST_def)

lemma next_file_selector_holds:
  assumes "holds_files fs b"
  shows "next_file_selector b = file_selector (length fs)"
proof -
  let ?files = "filter (\<lambda>s. FILE_FIRST \<le> s \<and> s \<le> FILE_LAST) (RBT.keys (builder_data b))"
  have n: "length fs \<le> 0x7fe0" using assms by (simp add: holds_files_def)
  have "set ?files = file_selector ` {..<length fs}"
    using assms file_selector_range n
    by (fastforce simp: holds_files_def simp flip: RBT.lookup_keys)
  moreover have "Max (file_selector ` {..<Suc k}) = file_selector k" if "Suc k \<le> 0x7fe0" for k
    using that by (intro Max_eqI) (auto simp: word_le_nat_alt unat_file_selector)
  ultimately show ?thesis
    using n by (cases "length fs") (auto simp: next_file_selector_def Let_def file_selector_def simp flip: set_empty)
qed

lemma add_file_holds:
  assumes "holds_files fs b" "add_file name data b = (Ok (), b')"
  shows "holds_files (fs @ [(name, data)]) b'"
proof -
  let ?s = "file_selector (length fs)"
  have next_sel: "next_file_selector b = ?s" by (rule next_file_selector_holds [OF assms(1)])
  have n: "length fs \<le> 0x7fe0" using assms(1) by (simp add: holds_files_def)
  from assms(2) have name: "length name \<le> FW_CFG_MAX_FILE_NAME" and sel: "?s \<le> FILE_LAST"
    and b': "file_info b' = file_info b @ [file_entry (name, data) ?s]"
      "builder_data b' = RBT.insert ?s data (builder_data b)"
    by (auto simp: add_file_def next_sel Let_def file_entry_def FW_CFG_MAX_FILE_NAME_def split: if_splits)
  have room: "Suc (length fs) \<le> 0x7fe0"
    using sel unat_file_selector [OF n] by (simp add: word_le_nat_alt FILE_LAST_def)
  have other: "file_selector i \<noteq> ?s" if "i < length fs" for i
    using that n by (auto dest!: arg_cong [of _ _ unat] simp: unat_file_selector)
  have "map (\<lambda>i. file_entry ((fs @ [(name, data)]) ! i) (file_selector i)) [0..<length fs] =
      map (\<lambda>i. file_entry (fs ! i) (file_selector i)) [0..<length fs]"
    by (rule map_cong) (simp_all add: nth_append)
  then show ?thesis
    using assms(1) name room other b' by (auto simp: holds_files_def nth_append less_Suc_eq)
qed

lemma add_file_room:
  assumes "holds_files fs b" "length name \<le> FW_CFG_MAX_FILE_NAME" "length fs < 0x7fe0"
  shows "\<exists>b'. add_file name data b = (Ok (), b')"
  using assms file_selector_range [OF assms(3)]
  by (simp add: add_file_def next_file_selector_holds [OF assms(1)] Let_def not_less [symmetric])

lemma add_files_hold:
  assumes "holds_files fs b" "\<forall>g \<in> set gs. length (fst g) \<le> FW_CFG_MAX_FILE_NAME" "length fs + length gs \<le> 0x7fe0"
  shows "\<exists>b'. for_each (\<lambda>(name, data). add_file name data) gs b = (Ok (), b') \<and> holds_files (fs @ gs) b'"
  using assms
proof (induction gs arbitrary: fs b)
  case (Cons g gs)
  obtain name data where g: "g = (name, data)" by fastforce
  then obtain c where c: "add_file name data b = (Ok (), c)"
    using add_file_room [OF Cons(2), of name data] Cons(3,4) by auto
  then show ?case
    using Cons(1) [OF add_file_holds [OF Cons(2) c]] Cons(3,4) by (simp add: g bind_state_def)
qed (simp add: return_state_def)

lemma directory_entry:
  assumes "holds_files fs b" "i < length fs"
  defines "dir \<equiv> the (RBT.lookup (fw_data (build b)) FILE_DIR)"
  shows "take 4 dir = be_bytes 4 (of_nat (length fs) :: u32)"
    "take 64 (drop (4 + 64 * i) dir) = file_bytes (file_entry (fs ! i) (file_selector i))"
proof -
  have info: "file_info b = map (\<lambda>i. file_entry (fs ! i) (file_selector i)) [0..<length fs]"
    using assms(1) by (simp add: holds_files_def)
  have dir: "dir = be_bytes 4 (of_nat (length fs) :: u32) @ concat (map file_bytes (file_info b))"
    by (simp add: dir_def build_def info)
  show "take 4 dir = be_bytes 4 (of_nat (length fs) :: u32)" by (simp add: dir)
  have "length (fst (fs ! k)) \<le> 55" if "k < length fs" for k
    using assms(1) that by (simp add: holds_files_def FW_CFG_MAX_FILE_NAME_def)
  then have "length (file_bytes f) = 64" if "f \<in> set (file_info b)" for f
    using that by (force simp: info file_entry_def intro!: file_bytes_parts(1) le_add_diff_inverse)
  from concat_blocks [of "file_info b" file_bytes 64 i, OF this] assms(2)
  show "take 64 (drop (4 + 64 * i) dir) = file_bytes (file_entry (fs ! i) (file_selector i))"
    by (simp add: dir info)
qed

section \<open>The guest's requests\<close>

text \<open>The item a read of \<open>len\<close> bytes finds when the selector has been set.\<close>

lemma read_selector_some:
  assumes "RBT.lookup (fw_data d) (fw_selector d) = Some data" "data_idx d + len \<le> length data"
  shows "read_selector len d = (Ok (Some (slice (data_idx d) (data_idx d + len) data)), d\<lparr>data_idx := data_idx d + len\<rparr>)"
  using assms by (simp add: read_selector_def slice_range_def)

lemma raw_of_bytes_request:
  fixes control :: u32
  shows "dma_from_raw (raw_of_bytes (be_bytes 4 control @ be_bytes 4 len @ be_bytes 8 addr)) =
    \<lparr>dma_control = ucast control AND DMA_ALL, dma_select = ucast (drop_bit 16 control), dma_length = len, dma_address = addr\<rparr>"
proof -
  have four: "swap_bytes 4 (from_le_bytes (be_bytes 4 (w :: u32)) :: u32) = w" for w
    using swap_from_le_bytes [of "be_bytes 4 w", where ?'a = 32] by (simp add: from_be_bytes_be_bytes take_bit_word_eq_self)
  have eight: "swap_bytes 8 (from_le_bytes (be_bytes 8 (w :: u64)) :: u64) = w" for w
    using swap_from_le_bytes [of "be_bytes 8 w", where ?'a = 64] by (simp add: from_be_bytes_be_bytes take_bit_word_eq_self)
  show ?thesis by (simp add: dma_from_raw_def raw_of_bytes_def four eight Let_def)
qed

lemma raw_bytes_request:
  "raw_bytes (raw_from_dma r) = be_bytes 4 (ucast (dma_control r) :: u32) @ be_bytes 4 (dma_length r) @ be_bytes 8 (dma_address r)"
  by (simp add: raw_bytes_def raw_from_dma_def le_bytes_swap)

lemma dma_select_read:
  "dma_position \<lparr>dma_control = DMA_SELECT OR DMA_READ, dma_select = sel, dma_length = len, dma_address = addr\<rparr> d =
    (\<lparr>dma_control = DMA_READ, dma_select = sel, dma_length = len, dma_address = addr\<rparr>, d\<lparr>fw_selector := sel, data_idx := 0\<rparr>)"
  by (simp add: dma_position_def dma_defs)

lemma dma_control_word:
  fixes sel :: u16
  defines "c \<equiv> push_bit 16 (ucast sel) OR ucast (DMA_SELECT OR DMA_READ) :: u32"
  shows "ucast c AND DMA_ALL = DMA_SELECT OR DMA_READ" "ucast (drop_bit 16 c) = sel"
proof -
  have "ucast c = (DMA_SELECT OR DMA_READ :: u16)"
    unfolding c_def by (rule bit_word_eqI) (auto simp: bit_simps)
  then show "ucast c AND DMA_ALL = DMA_SELECT OR DMA_READ" by (simp add: dma_defs)
  show "ucast (drop_bit 16 c) = sel"
    unfolding c_def by (rule bit_word_eqI) (auto simp: bit_simps dest: bit_imp_le_length)
qed

section \<open>Properties\<close>

text \<open>
  C28: Every file is found. Files with names of at most 55 bytes, and no more of them than
  there are file selectors, are all added to a builder that has none. Then the directory item of
  the device counts them, its entry for each file holds, big-endian, the file's length
  and selector and its name padded with zeros, the selectors are consecutive from the
  first file selector on, and the item under each selector is the file's data.
\<close>

theorem fw_cfg_files_found:
  assumes "holds_files [] b" "\<forall>f \<in> set fs. length (fst f) \<le> FW_CFG_MAX_FILE_NAME" "length fs \<le> 0x7fe0"
    and "i < length fs"
  shows "\<exists>b' dir entry. for_each (\<lambda>(name, data). add_file name data) fs b = (Ok (), b') \<and>
    RBT.lookup (fw_data (build b')) FILE_DIR = Some dir \<and> entry = take 64 (drop (4 + 64 * i) dir) \<and>
    from_be_bytes (take 4 dir) = (of_nat (length fs) :: u32) \<and>
    from_be_bytes (take 4 entry) = (of_nat (length (snd (fs ! i))) :: u32) \<and>
    from_be_bytes (take 2 (drop 4 entry)) = FILE_FIRST + of_nat i \<and>
    drop 8 entry = fst (fs ! i) @ replicate (56 - length (fst (fs ! i))) 0 \<and>
    RBT.lookup (fw_data (build b')) (FILE_FIRST + of_nat i) = Some (snd (fs ! i))"
proof -
  obtain b' where b': "for_each (\<lambda>(name, data). add_file name data) fs b = (Ok (), b')" and h: "holds_files fs b'"
    using add_files_hold [OF assms(1,2)] assms(3) by auto
  obtain dir where dir: "RBT.lookup (fw_data (build b')) FILE_DIR = Some dir" by (simp add: build_def)
  let ?f = "file_entry (fs ! i) (file_selector i)"
  note d = directory_entry [OF h assms(4), unfolded dir option.sel]
  have len: "length (fst (fs ! i)) \<le> 55" "i < 0x7fe0"
    using assms by (auto simp: FW_CFG_MAX_FILE_NAME_def)
  then have "length (file_name ?f) = 56" by (simp add: file_entry_def)
  note e = file_bytes_parts [OF this, folded d(2)]
  have "file_selector i \<noteq> FILE_DIR"
    using file_selector_range [OF len(2)] by (auto simp: FILE_DIR_def FILE_FIRST_def)
  then have item: "RBT.lookup (fw_data (build b')) (file_selector i) = Some (snd (fs ! i))"
    using h assms(4) by (simp add: build_def holds_files_def)
  show ?thesis
    by (rule exI [of _ b'], rule exI [of _ dir], rule exI [of _ "take 64 (drop (4 + 64 * i) dir)"])
       (use b' dir item in \<open>simp add: d(1) e file_entry_def le_bytes_swap from_be_bytes_be_bytes
         take_bit_word_eq_self file_selector_def del: take_take\<close>)
qed

theorem fw_cfg_files_found_witness:
  "\<exists>b'. for_each (\<lambda>(name, data). add_file name data) [([0x61], [1, 2]), ([0x62], [3])] builder_new = (Ok (), b') \<and>
    RBT.lookup (fw_data (build b')) 0x21 = Some [3]"
proof -
  have "holds_files [] builder_new"
    by (auto simp: word_le_nat_alt holds_files_def builder_new_def add_i32_def add_bytes_def FILE_FIRST_def FW_CFG_ID_def SIGNATURE_def
        split: if_splits)
  then show ?thesis
    using fw_cfg_files_found [of builder_new "[([0x61], [1, 2]), ([0x62], [3])]" 1]
    by (auto simp: FW_CFG_MAX_FILE_NAME_def FILE_FIRST_def)
qed

text \<open>The host addresses of two ranges of guest addresses are different.\<close>

definition ranges_apart ::
  "GuestAddressSpace \<Rightarrow> host_mem \<Rightarrow> GuestPhysAddr \<Rightarrow> nat \<Rightarrow> GuestPhysAddr \<Rightarrow> nat \<Rightarrow> bool" where
  "ranges_apart space m a k b n \<longleftrightarrow>
    (\<forall>i < k. \<forall>j < n. host_addr space m (a + of_nat i) \<noteq> host_addr space m (b + of_nat j))"

text \<open>Two mapped pages, the first of which begins with the given bytes.\<close>

definition pages_with :: "u8 list \<Rightarrow> host_mem" where
  "pages_with bs = two_pages\<lparr>ram := \<lambda>x. if unat (x - 0x8000) < length bs then bs ! unat (x - 0x8000) else 0\<rparr>"

lemma pages_with_ok:
  shows "space_ok first_fit {0x1000} first_space (pages_with bs)"
    and "k < 4096 \<Longrightarrow> lookup_frame first_space (pages_with bs) (0x5000 + of_nat k) = Some 0x8000"
    and "k < 4096 \<Longrightarrow> lookup_frame first_space (pages_with bs) (0x6000 + of_nat k) = Some 0x9000"
    and "k < 4096 \<Longrightarrow> host_addr first_space (pages_with bs) (0x5000 + of_nat k) = 0x8000 + of_nat k"
    and "k < 4096 \<Longrightarrow> host_addr first_space (pages_with bs) (0x6000 + of_nat k) = 0x9000 + of_nat k"
proof -
  have t: "tables (pages_with bs) = tables two_pages" "live (pages_with bs) = live two_pages"
    by (simp_all add: pages_with_def)
  show "space_ok first_fit {0x1000} first_space (pages_with bs)" by (rule space_ok_cong [OF two_pages_ok(1) t])
  have p: "\<not> same_page 0x6000 0x5000" "same_page 0x5000 0x5000" "same_page 0x6000 0x6000"
    "page_base 0x5000 = 0x5000" "page_base 0x6000 = 0x6000" by code_simp+
  have l: "lookup_frame first_space (pages_with bs) 0x5000 = Some 0x8000"
    "lookup_frame first_space (pages_with bs) 0x6000 = Some 0x9000"
    using p by (simp_all add: lookup_frame_cong [OF t(1)] two_pages_ok(3))
  show "k < 4096 \<Longrightarrow> lookup_frame first_space (pages_with bs) (0x5000 + of_nat k) = Some 0x8000"
    "k < 4096 \<Longrightarrow> lookup_frame first_space (pages_with bs) (0x6000 + of_nat k) = Some 0x9000"
    using lookup_frame_base_add [of k first_space "pages_with bs" "0x5000"]
      lookup_frame_base_add [of k first_space "pages_with bs" "0x6000"] l p by simp_all
  show "k < 4096 \<Longrightarrow> host_addr first_space (pages_with bs) (0x5000 + of_nat k) = 0x8000 + of_nat k"
    "k < 4096 \<Longrightarrow> host_addr first_space (pages_with bs) (0x6000 + of_nat k) = 0x9000 + of_nat k"
    using host_addr_base_add [OF l(1)] host_addr_base_add [OF l(2)] p by simp_all
qed

lemma pages_with_ranges:
  assumes "n \<le> 4096"
  shows "range_mapped first_space (pages_with bs) 0x5000 n" "range_mapped first_space (pages_with bs) 0x6000 n"
    "range_unaliased first_space (pages_with bs) 0x5000 n" "range_unaliased first_space (pages_with bs) 0x6000 n"
    "k \<le> 4096 \<Longrightarrow> ranges_apart first_space (pages_with bs) 0x5000 k 0x6000 n"
proof -
  have inj: "(of_nat i :: u64) = of_nat j \<longleftrightarrow> i = j" if "i < 4096" "j < 4096" for i j
    using that by (simp add: word_unat_eq_iff unat_of_nat)
  show "range_mapped first_space (pages_with bs) 0x5000 n" "range_mapped first_space (pages_with bs) 0x6000 n"
    using assms by (auto simp: range_mapped_def pages_with_ok)
  show "range_unaliased first_space (pages_with bs) 0x5000 n" "range_unaliased first_space (pages_with bs) 0x6000 n"
    using assms inj by (simp_all add: range_unaliased_def pages_with_ok)
  have "(0x8000 + of_nat i :: u64) \<noteq> 0x9000 + of_nat j" if "i < 4096" "j < 4096" for i j
    using that by (simp add: word_unat_eq_iff unat_word_ariths unat_of_nat)
  then show "k \<le> 4096 \<Longrightarrow> ranges_apart first_space (pages_with bs) 0x5000 k 0x6000 n"
    using assms by (simp add: ranges_apart_def pages_with_ok)
qed

lemma guest_bytes_pages_with: "length bs \<le> 4096 \<Longrightarrow> guest_bytes first_space (pages_with bs) 0x5000 (length bs) = bs"
  by (intro nth_equalityI)
     (simp_all add: guest_bytes_def guest_byte_host_addr pages_with_ok, simp add: pages_with_def unat_of_nat)

text \<open>
  C29: A DMA request that selects an item and reads from it. When the request and the
  destination are mapped, do not overlap and the item is long enough, the transfer succeeds:
  the destination holds the first bytes of the item, the request's control word reads
  0 (done, no error), and the position in the item is after the bytes read. No other byte of
  the host changes but those of the two ranges.
\<close>

theorem fw_cfg_dma_read:
  assumes "space_ok box_new R (view_space view) m"
    and "range_mapped (view_space view) m (dma_addr d) 16" "range_unaliased (view_space view) m (dma_addr d) 16"
    and "range_mapped (view_space view) m dest (max 1 (unat len))" "range_unaliased (view_space view) m dest (unat len)"
    and "ranges_apart (view_space view) m (dma_addr d) 16 dest (unat len)"
    and "guest_bytes (view_space view) m (dma_addr d) 16 =
      be_bytes 4 (push_bit 16 (ucast sel) OR ucast (DMA_SELECT OR DMA_READ) :: u32) @ be_bytes 4 (len :: u32) @ be_bytes 8 dest"
    and "RBT.lookup (fw_data d) sel = Some data" "unat len \<le> length data"
  shows "\<exists>m'. perform_dma_transfer ea view (d, m) = (Ok (), (d\<lparr>fw_selector := sel, data_idx := unat len\<rparr>, m')) \<and>
    guest_bytes (view_space view) m' dest (unat len) = take (unat len) data \<and>
    guest_bytes (view_space view) m' (dma_addr d) 4 = [0, 0, 0, 0] \<and> tables m' = tables m \<and>
    (\<forall>x. (\<forall>i < 16. x \<noteq> host_addr (view_space view) m (dma_addr d + of_nat i)) \<longrightarrow>
      (\<forall>i < unat len. x \<noteq> host_addr (view_space view) m (dest + of_nat i)) \<longrightarrow> ram m' x = ram m x)"
proof -
  let ?s = "view_space view" and ?a = "dma_addr d"
  let ?d = "d\<lparr>fw_selector := sel, data_idx := 0\<rparr>" and ?bs = "take (unat len) data"
  let ?done = "be_bytes 4 (0 :: u32) @ be_bytes 4 len @ be_bytes 8 dest"
  have "unat ?a mod BASE_PAGE_SIZE < 4096" by (simp add: BASE_PAGE_SIZE_def)
  then have rd: "view_read_bytes ea view (NoPaging ?a) 16 (Read 0) m = Ok (guest_bytes ?s m ?a 16)"
    unfolding view_read_bytes_def using read_bytes_guest_bytes [OF assms(1), of ?a 16] assms(2) by simp
  have req: "dma_position (dma_from_raw (raw_of_bytes (guest_bytes ?s m ?a 16))) d =
      (\<lparr>dma_control = DMA_READ, dma_select = sel, dma_length = len, dma_address = dest\<rparr>, ?d)"
    by (simp only: assms(7) raw_of_bytes_request dma_control_word dma_select_read)
  have sel: "read_selector (unat len) ?d = (Ok (Some ?bs), d\<lparr>fw_selector := sel, data_idx := unat len\<rparr>)"
    using read_selector_some [of ?d data "unat len"] assms(8,9) by (simp add: slice_def)
  have n: "length ?bs = unat len" "length ?done = 16" using assms(9) by simp_all
  obtain m1 where m1: "view_write_bytes ea view (NoPaging dest) ?bs (Read 0) m = (Ok (), m1)" "bytes_stored ?s dest ?bs m m1"
    unfolding view_write_bytes_def using write_bytes_stored [OF assms(1), of dest ?bs] assms(4,5) n by metis
  then have t1: "tables m1 = tables m" "live m1 = live m" by (simp_all add: bytes_stored_def)
  obtain m2 where m2: "view_write_bytes ea view (NoPaging ?a) ?done (Read 0) m1 = (Ok (), m2)" "bytes_stored ?s ?a ?done m1 m2"
    unfolding view_write_bytes_def
    using write_bytes_stored [OF space_ok_cong [OF assms(1) t1], of ?a ?done] assms(2,3) n range_cong [OF t1(1), of ?s]
    by (metis max_def one_le_numeral)
  have "perform_dma_transfer ea view (d, m) = (Ok (), (d\<lparr>fw_selector := sel, data_idx := unat len\<rparr>, m2))"
    using m1(1) m2(1)
    by (simp add: perform_dma_transfer_def lift_state_def rd req
        bind_state_def return_state_def Let_def DMA_READ_def DMA_WRITE_def on_fst_def on_snd_def sel raw_bytes_request)
  moreover have "guest_bytes ?s m2 ?a 4 = [0, 0, 0, 0]"
    using arg_cong [OF guest_bytes_stored [OF m2(2)], of "take 4"]
    by (simp add: guest_bytes_def take_map be_bytes_def numeral_eq_Suc)
  moreover have "guest_bytes ?s m2 dest (unat len) = ?bs"
  proof -
    have "guest_bytes ?s m2 dest (unat len) = guest_bytes ?s m1 dest (unat len)"
      using assms(6) host_addr_cong [OF t1(1), of ?s] n(2)
      by (intro guest_bytes_frame [OF m2(2)]) (metis ranges_apart_def)
    then show ?thesis using guest_bytes_stored [OF m1(2)] n(1) by simp
  qed
  ultimately show ?thesis
    using m1(2) m2(2) n host_addr_cong [OF t1(1), of ?s] t1(1) by (auto simp: bytes_stored_def)
qed

theorem fw_cfg_dma_read_witness:
  "let req = be_bytes 4 (push_bit 16 (ucast (0x20 :: u16)) OR ucast (DMA_SELECT OR DMA_READ) :: u32) @
       be_bytes 4 (2 :: u32) @ be_bytes 8 (0x6000 :: u64);
     d = \<lparr>fw_selector = 0, fw_data = RBT.insert 0x20 [7, 8, 9] RBT.empty, data_idx = 0, dma_addr = 0x5000\<rparr>
   in \<exists>m'. perform_dma_transfer id \<lparr>view_space = first_space, view_cr3 = 0\<rparr> (d, pages_with req) =
      (Ok (), (d\<lparr>fw_selector := 0x20, data_idx := 2\<rparr>, m')) \<and> guest_bytes first_space m' 0x6000 2 = [7, 8]"
proof -
  let ?req = "be_bytes 4 (push_bit 16 (ucast (0x20 :: u16)) OR ucast (DMA_SELECT OR DMA_READ) :: u32) @
    be_bytes 4 (2 :: u32) @ be_bytes 8 (0x6000 :: u64)"
  let ?d = "\<lparr>fw_selector = 0, fw_data = RBT.insert 0x20 [7, 8, 9] RBT.empty, data_idx = 0, dma_addr = 0x5000\<rparr>"
  let ?v = "\<lparr>view_space = first_space, view_cr3 = 0\<rparr>"
  have n: "length ?req = 16" by simp
  note r = pages_with_ranges [where bs = ?req]
  have "\<exists>m'. perform_dma_transfer id ?v (?d, pages_with ?req) =
      (Ok (), (?d\<lparr>fw_selector := 0x20, data_idx := unat (2 :: u32)\<rparr>, m')) \<and>
      guest_bytes first_space m' 0x6000 (unat (2 :: u32)) = take (unat (2 :: u32)) [7, 8, 9]"
    using fw_cfg_dma_read [of first_fit "{0x1000}" ?v "pages_with ?req" ?d "0x6000" 2 "0x20" "[7, 8, 9]" id]
      pages_with_ok(1) [of ?req] r(1,3) [of 16] r(2,4) [of 2] r(5) [of 2 16] guest_bytes_pages_with [of ?req, unfolded n]
    by (auto simp: max_def)
  then show ?thesis by (simp add: Let_def)
qed

end
