(* ===== verification/Vm.thy ===== *)
theory Vm
  imports Lapic Chipset Serial Pci Pit Fw_Cfg
begin

text \<open>
  Virtual machines (\<open>vm.rs\<close>): the devices of a machine and the dispatch of events to them, the
  routing of interrupts, the guest address space with the firmware and the images in it, and
  the machine set.

  The set of a machine's devices is the list of its static and then its dynamic devices; the
  device map refers to a device by its position there. A device's lock is not modelled: an
  event holds it for the time of the handler, and no handler dispatches an event.
\<close>

section \<open>The platform\<close>

text \<open>
  What is not code of the repository: the allocator, the address a guest page table entry
  holds (of the \<open>x86\<close> crate), the start time of the clock, the firmware image, and the place
  of the APIC access page of the machine at each position of the set.
\<close>

record platform =
  box_new :: allocator
  entry_address :: "u64 \<Rightarrow> u64"
  system_start_time :: Instant
  bios_blob :: "u8 list"
  access_page :: "nat \<Rightarrow> u64"

section \<open>Devices\<close>

datatype VirtualDevice =
    Dev_Acpi AcpiRuntime
  | Dev_Vga VgaController
  | Dev_Pci PciRootComplex
  | Dev_Pic Pic8259
  | Dev_Keyboard
  | Dev_Pit Pit8254
  | Dev_Rtc CmosRtc
  | Dev_IoApic
  | Dev_DebugPort DebugPort
  | Dev_Uart Uart8250
  | Dev_Qemu QemuFwCfg

type_synonym Machine = "VirtualDevice VirtualMachine"

record vm_state = "VirtualDevice time_state" +
  memory :: host_mem

definition static_devices_new :: "u64 \<Rightarrow> VirtualDevice list" where
  "static_devices_new mem =
    [Dev_Acpi (acpi_runtime_new 0x600), Dev_Vga vga_new, Dev_Pci pci_new, Dev_Pic pic_new, Dev_Keyboard,
     Dev_Pit pit_new, Dev_Rtc (rtc_new mem), Dev_IoApic]"

primrec device_services :: "VirtualDevice \<Rightarrow> DeviceRegion list" where
  "device_services (Dev_Acpi d) = acpi_services d"
| "device_services (Dev_Vga d) = vga_services d"
| "device_services (Dev_Pci d) = pci_services d"
| "device_services (Dev_Pic d) = pic_services d"
| "device_services Dev_Keyboard = keyboard_services ()"
| "device_services (Dev_Pit d) = pit_services d"
| "device_services (Dev_Rtc d) = rtc_services d"
| "device_services Dev_IoApic = ioapic_services ()"
| "device_services (Dev_DebugPort d) = debug_services d"
| "device_services (Dev_Uart d) = uart_services d"
| "device_services (Dev_Qemu d) = fw_services d"

text \<open>An event at a device that has its own state only, and at one that uses the timers of the core.\<close>

definition run_device ::
  "('d \<Rightarrow> VirtualDevice) \<Rightarrow> 'd handler \<Rightarrow> 'd \<Rightarrow> Event \<Rightarrow> 's \<Rightarrow> unit res \<times> VirtualDevice \<times> Event \<times> 's" where
  "run_device dev handler d ev s = (case handler (d, ev) of (r, d', ev') \<Rightarrow> (r, dev d', ev', s))"

definition run_timed ::
  "('d \<Rightarrow> VirtualDevice) \<Rightarrow> ('d \<times> 's) handler \<Rightarrow> 'd \<Rightarrow> Event \<Rightarrow> 's \<Rightarrow> unit res \<times> VirtualDevice \<times> Event \<times> 's" where
  "run_timed dev handler d ev s = (case handler ((d, s), ev) of (r, (d', s'), ev') \<Rightarrow> (r, dev d', ev', s'))"

primrec device_on_event ::
  "platform \<Rightarrow> VirtualDevice \<Rightarrow> Event \<Rightarrow> ('d, 'a) time_state_scheme \<Rightarrow>
    unit res \<times> VirtualDevice \<times> Event \<times> ('d, 'a) time_state_scheme" where
  "device_on_event p (Dev_Acpi d) = run_timed Dev_Acpi (acpi_on_event (system_start_time p)) d"
| "device_on_event p (Dev_Vga d) = run_device Dev_Vga vga_on_event d"
| "device_on_event p (Dev_Pci d) = run_device Dev_Pci pci_on_event d"
| "device_on_event p (Dev_Pic d) = run_device Dev_Pic pic_on_event d"
| "device_on_event p Dev_Keyboard = run_device (\<lambda>_. Dev_Keyboard) keyboard_on_event ()"
| "device_on_event p (Dev_Pit d) = run_timed Dev_Pit pit_on_event d"
| "device_on_event p (Dev_Rtc d) = run_device Dev_Rtc rtc_on_event d"
| "device_on_event p Dev_IoApic = run_device (\<lambda>_. Dev_IoApic) ioapic_on_event ()"
| "device_on_event p (Dev_DebugPort d) = run_device Dev_DebugPort debug_on_event d"
| "device_on_event p (Dev_Uart d) = run_device Dev_Uart uart_on_event d"
| "device_on_event p (Dev_Qemu d) = run_device Dev_Qemu (fw_on_event (entry_address p)) d"

definition put_device :: "nat \<Rightarrow> nat \<Rightarrow> VirtualDevice \<Rightarrow> 'a vm_state_scheme \<Rightarrow> 'a vm_state_scheme" where
  "put_device v i dev s =
    s\<lparr>vms := (vms s)[v := (vms s ! v)\<lparr>vm_devices := (vm_devices (vms s ! v))[i := dev]\<rparr>]\<rparr>"

text \<open>
  \<open>dispatch_event\<close> of the machine at position \<open>v\<close>. The request of the event and the responses
  are references: the event after the call and the longer list of responses are returned.
\<close>

definition dispatch_event ::
  "platform \<Rightarrow> nat \<Rightarrow> Ident \<Rightarrow> DeviceEvent \<Rightarrow> vmcs \<Rightarrow>
    (DeviceEventResponse list \<times> 'a vm_state_scheme, DeviceEvent, Error) action" where
  "dispatch_event p v ident kind vmcs = (\<lambda>(responses, s).
    case find_device ident (virtual_device_map (vms s ! v)) of
      None \<Rightarrow>
        (case kind of
           PortRead port req \<Rightarrow> (Ok (PortRead port (copy_from_u32 0 req)), responses, s)
         | PortWrite port req \<Rightarrow> (Ok kind, responses, s)
         | _ \<Rightarrow> (Err MissingDevice, responses, s))
    | Some i \<Rightarrow>
        bind_state (lift_state (view_from_vmcs vmcs (guest_space (vms s ! v)))) (\<lambda>space (responses, s).
          case device_on_event p (vm_devices (vms s ! v) ! i)
                 \<lparr>event_kind = kind, event_space = space, event_responses = responses, event_mem = memory s\<rparr> s of
            (r, dev, ev, s') \<Rightarrow>
              (and_then r (\<lambda>_. Ok (event_kind ev)), event_responses ev,
               put_device v i dev (s'\<lparr>memory := event_mem ev\<rparr>))) (responses, s))"

definition gsi_destination :: "nat \<Rightarrow> u32 \<Rightarrow> ('d, 'a) vmset_state_scheme \<Rightarrow> (CoreId \<times> u8 \<times> InjectedInterruptType) res" where
  "gsi_destination v gsi s =
    (let vector = ucast (gsi + 48) in
     if gsi = gsi_UART then and_then (bsp_id (vms s ! v)) (\<lambda>bsp. Ok (bsp, vector, ExternalInterrupt))
     else Ok (this_core s, vector, ExternalInterrupt))"

section \<open>The guest address space\<close>

record BootModule =
  mod_identifier :: "string option"
  mod_address :: HostPhysAddr
  mod_size :: u64

definition find_module :: "string \<Rightarrow> BootModule list \<Rightarrow> BootModule option" where
  "find_module ident modules = List.find (\<lambda>m. mod_identifier m = Some ident) modules"

definition module_data :: "BootModule \<Rightarrow> host_mem \<Rightarrow> u8 list" where
  "module_data md m = ram_bytes m (mod_address md) (unat (mod_size md))"

text \<open>\<open>chunks\<close> of a slice, and the position of each.\<close>

function chunks :: "nat \<Rightarrow> 'a list \<Rightarrow> 'a list list" where
  "chunks n xs = (if n = 0 \<or> xs = [] then [] else take n xs # chunks n (drop n xs))"
  by pat_completeness auto

termination by (relation "measure (length \<circ> snd)") (auto simp: neq_Nil_conv)

declare chunks.simps [simp del]

definition map_chunk :: "allocator \<Rightarrow> GuestAddressSpace \<Rightarrow> GuestPhysAddr \<Rightarrow> nat \<times> u8 list \<Rightarrow> (host_mem, unit, Error) action" where
  "map_chunk new space addr = (\<lambda>(i, chunk).
    bind_state (alloc_page new) (\<lambda>frame_ptr.
    bind_state (lift_state (frame_from_start_address frame_ptr)) (\<lambda>frame.
    bind_state (\<lambda>m. (Ok (), ram_write frame_ptr chunk m)) (\<lambda>_.
    map_frame new space (addr + of_nat i * of_nat BASE_PAGE_SIZE) frame False))))"

definition map_data :: "allocator \<Rightarrow> u8 list \<Rightarrow> GuestPhysAddr \<Rightarrow> GuestAddressSpace \<Rightarrow> (host_mem, unit, Error) action" where
  "map_data new img addr space = for_each (map_chunk new space addr) (List.enumerate 0 (chunks BASE_PAGE_SIZE img))"

definition map_image ::
  "allocator \<Rightarrow> string \<Rightarrow> GuestPhysAddr \<Rightarrow> GuestAddressSpace \<Rightarrow> BootModule list \<Rightarrow> (host_mem, unit, Error) action" where
  "map_image new img addr space modules =
    (case find_module img modules of
       None \<Rightarrow> lift_state (Err InvalidValue)
     | Some md \<Rightarrow> (\<lambda>m. map_data new (module_data md m) addr space m))"

definition map_bios :: "platform \<Rightarrow> GuestAddressSpace \<Rightarrow> (host_mem, unit, Error) action" where
  "map_bios p space =
    (let bios_size = of_nat (length (bios_blob p)) in
     bind_state (map_data (box_new p) (bios_blob p) (1024 * 1024 - bios_size) space)
       (\<lambda>_. map_data (box_new p) (bios_blob p) (4 * 1024 * 1024 * 1024 - bios_size) space))"

record VirtualMachineConfig =
  cfg_cpus :: "CoreId list"
  cfg_images :: "(string \<times> GuestPhysAddr) list"
  cfg_virtual_devices :: "VirtualDevice list"
  cfg_serial :: "Port option"
  cfg_memory :: u64

definition MAX_DYNAMIC_VIRTUAL_DEVICES :: nat where "MAX_DYNAMIC_VIRTUAL_DEVICES = 32"
definition MAX_IMAGE_MAPPING_PER_VM :: nat where "MAX_IMAGE_MAPPING_PER_VM = 16"

definition config_new :: "CoreId list \<Rightarrow> u64 \<Rightarrow> Port option \<Rightarrow> VirtualMachineConfig res" where
  "config_new cpus mem serial =
    (if length cpus \<le> MAX_PER_VM_CORE_COUNT then
       Ok \<lparr>cfg_cpus = cpus, cfg_images = [], cfg_virtual_devices = [], cfg_serial = serial, cfg_memory = mem\<rparr>
     else Err Exhausted)"

definition config_map_image :: "string \<Rightarrow> GuestPhysAddr \<Rightarrow> VirtualMachineConfig \<Rightarrow> VirtualMachineConfig res" where
  "config_map_image img addr cfg =
    and_then (array_push MAX_IMAGE_MAPPING_PER_VM (cfg_images cfg) (img, addr)) (\<lambda>images. Ok (cfg\<lparr>cfg_images := images\<rparr>))"

text \<open>A page of the machine's memory: one that the firmware or an image has taken is passed over.\<close>

definition map_ram_page :: "allocator \<Rightarrow> GuestAddressSpace \<Rightarrow> nat \<Rightarrow> (host_mem, unit, Error) action" where
  "map_ram_page new space i m =
    (case map_new_frame new space (of_nat i * of_nat BASE_PAGE_SIZE) False m of
       (Err e, m') \<Rightarrow> (if e = DuplicateMapping then Ok () else Err e, m')
     | r \<Rightarrow> r)"

definition setup_ept :: "platform \<Rightarrow> VirtualMachineConfig \<Rightarrow> BootModule list \<Rightarrow> (host_mem, GuestAddressSpace, Error) action" where
  "setup_ept p cfg modules =
    bind_state (guest_address_space_new (box_new p)) (\<lambda>space.
    bind_state (map_bios p space) (\<lambda>_.
    bind_state (for_each (\<lambda>(img, addr). map_image (box_new p) img addr space modules) (cfg_images cfg)) (\<lambda>_.
    bind_state (for_each (map_ram_page (box_new p) space) [0..<unat (push_bit 8 (cfg_memory cfg))]) (\<lambda>_.
    return_state space))))"

section \<open>Machines\<close>

definition vm_new :: "platform \<Rightarrow> u32 \<Rightarrow> VirtualMachineConfig \<Rightarrow> BootModule list \<Rightarrow> (host_mem, Machine, Error) action" where
  "vm_new p i cfg modules =
    bind_state (setup_ept p cfg modules) (\<lambda>space.
    return_state
      \<lparr>vm_id = i, vm_cpus = cfg_cpus cfg, vm_memory = cfg_memory cfg, host_serial = cfg_serial cfg,
       vm_devices = static_devices_new (cfg_memory cfg) @ cfg_virtual_devices cfg,
       virtual_device_map = device_map_default, guest_space = space, apic_access_page = 0,
       logical_apic_state = (\<lambda>core. if core \<in> set (cfg_cpus cfg) then Some logical_apic_state_default else None),
       cpus_ready = 0\<rparr>)"

definition GUEST_LOCAL_APIC_ADDR :: GuestPhysAddr where "GUEST_LOCAL_APIC_ADDR = 0xfee00000"

definition setup_guest_local_apic_page :: "platform \<Rightarrow> Machine \<Rightarrow> (host_mem, unit, Error) action" where
  "setup_guest_local_apic_page p vm =
    bind_state (lift_state (frame_from_start_address (apic_access_page vm))) (\<lambda>apic_frame.
    map_frame (box_new p) (guest_space vm) GUEST_LOCAL_APIC_ADDR apic_frame False)"

definition register_devices :: "VirtualDevice list \<Rightarrow> (nat DeviceMap, unit, Error) action" where
  "register_devices devs = for_each (\<lambda>(i, dev). register_device i (device_services dev)) (List.enumerate 0 devs)"

text \<open>
  \<open>insert\<close> pushes the machine first: when a later step fails, it is in the set without contexts.
  The APIC access page is part of the machine and has its final address from then on.
\<close>

definition insert_machine :: "platform \<Rightarrow> Machine \<Rightarrow> ('a vm_state_scheme, unit, Error) action" where
  "insert_machine p vm =
    bind_state (\<lambda>s. (array_push MAX_VM_COUNT (vms s) vm, s)) (\<lambda>vs s.
    let idx = length vs - 1; vm = vm\<lparr>apic_access_page := access_page p idx\<rparr>;
        put = (\<lambda>dm s. s\<lparr>vms := vs[idx := vm\<lparr>virtual_device_map := dm\<rparr>]\<rparr>)
    in case register_devices (vm_devices vm) (virtual_device_map vm) of
         (Ok _, dm) \<Rightarrow>
           bind_state (\<lambda>s. case setup_guest_local_apic_page p vm (memory s) of (r, m) \<Rightarrow> (r, s\<lparr>memory := m\<rparr>)) (\<lambda>_.
           for_each (\<lambda>cpu.
             bind_state (\<lambda>s. (array_push MAX_VCPU_COUNT (contexts s) \<lparr>ctx_core_id = cpu, ctx_vm = idx, msgqueue = []\<rparr>, s))
               (\<lambda>cs s. (Ok (), s\<lparr>contexts := cs\<rparr>))) (vm_cpus vm)) (put dm s)
       | (Err e, dm) \<Rightarrow> (Err e, put dm s)
       | (Panic, dm) \<Rightarrow> (Panic, put dm s)
       | (Undefined, dm) \<Rightarrow> (Undefined, put dm s))"

definition init_virtual_machines :: "platform \<Rightarrow> Machine list \<Rightarrow> ('a vm_state_scheme, unit, Error) action" where
  "init_virtual_machines p = for_each (insert_machine p)"

definition notify_ready :: "nat \<Rightarrow> ('d, 'a) vmset_state_scheme \<Rightarrow> ('d, 'a) vmset_state_scheme" where
  "notify_ready v s = s\<lparr>vms := (vms s)[v := (vms s ! v)\<lparr>cpus_ready := cpus_ready (vms s ! v) + 1\<rparr>]\<rparr>"

definition all_cores_ready :: "'d VirtualMachine \<Rightarrow> bool" where
  "all_cores_ready vm \<longleftrightarrow> cpus_ready vm = of_nat (length (vm_cpus vm))"


section \<open>Registered devices\<close>

text \<open>Devices registered one after the other under consecutive numbers.\<close>

lemma register_devices_find:
  assumes "device_map_ok dm" "\<forall>dev \<in> set devs. list_all region_ok (device_services dev)"
    and "for_each (\<lambda>(i, dev). register_device i (device_services dev)) (List.enumerate k devs) dm = (Ok (), dm')"
  shows "find_device x dm' = Some i \<longleftrightarrow>
    find_device x dm = Some i \<or> (k \<le> i \<and> i < k + length devs \<and> list_ex (in_region x) (device_services (devs ! (i - k))))"
  using assms
proof (induction devs arbitrary: k dm)
  case (Cons dev devs)
  let ?rs = "device_services dev"
  have rs: "list_all region_ok ?rs" using Cons.prems(2) by simp
  obtain dm1 where dm1: "for_each (register_region k) ?rs dm = (Ok (), dm1)"
    and rest: "for_each (\<lambda>(i, dev). register_device i (device_services dev)) (List.enumerate (Suc k) devs) dm1 = (Ok (), dm')"
    using Cons.prems(3) by (auto simp: bind_state_Ok_iff register_device_def)
  have ok1: "device_map_ok dm1" using registry.register_all_inv [OF Cons.prems(1) rs, of k] dm1 by simp
  have find1: "find_device x dm1 = (if list_ex (in_region x) ?rs then Some k else find_device x dm)"
    using registry.register_all_Ok [OF Cons.prems(1) rs dm1] by (simp add: list_ex_iff)
  have free: "find_device x dm = None" if "list_ex (in_region x) ?rs"
    using registry.register_all_result(2) [OF Cons.prems(1) rs, of k] dm1 that
    by (fastforce simp: list_ex_iff simp del: not_None_eq)
  have "find_device x dm' = Some i \<longleftrightarrow> find_device x dm1 = Some i \<or>
      (Suc k \<le> i \<and> i < Suc k + length devs \<and> list_ex (in_region x) (device_services (devs ! (i - Suc k))))"
    using Cons.IH [OF ok1 _ rest] Cons.prems(2) by simp
  then show ?case
    using find1 free by (cases "i = k") (auto simp: nth_Cons' less_Suc_eq_le Suc_le_eq)
qed (auto simp: return_state_def)

lemmas services_defs = acpi_services_def vga_services_def pci_services_def pic_services_def keyboard_services_def
  pit_services_def rtc_services_def ioapic_services_def debug_services_def uart_services_def fw_services_def

text \<open>The devices that \<open>build_vm\<close> (\<open>kmain.rs\<close>) adds to a machine, and those of the machine it makes.\<close>

definition dynamic_devices :: "QemuFwCfg \<Rightarrow> VirtualDevice list" where
  "dynamic_devices fw = [Dev_DebugPort (debug_new 0x402), Dev_Uart (uart_new 0x3f8), Dev_Qemu fw]"

definition guest_devices :: "u64 \<Rightarrow> QemuFwCfg \<Rightarrow> VirtualDevice list" where
  "guest_devices mem fw = static_devices_new mem @ dynamic_devices fw"

lemma guest_devices_services:
  "map device_services (guest_devices mem fw) = map device_services (guest_devices 0 (build builder_new))"
  by (simp add: guest_devices_def dynamic_devices_def static_devices_new_def services_defs)

lemma register_devices_services:
  "register_devices devs = for_each (\<lambda>(i, rs). register_device i rs) (List.enumerate 0 (map device_services devs))"
proof -
  have "for_each (\<lambda>(i, dev). register_device i (device_services dev)) (List.enumerate k devs) =
    for_each (\<lambda>(i, rs). register_device i rs) (List.enumerate k (map device_services devs))" for k
    by (induction devs arbitrary: k) simp_all
  then show ?thesis by (simp add: register_devices_def)
qed

text \<open>
  C36: The devices of a guest fit together. For every memory size and firmware configuration all the
  devices of a machine are registered without a conflict, and afterwards a port or an address belongs to a
  device exactly when it is in one of the regions the device services.
\<close>

theorem guest_devices_registered:
  "\<exists>dm. register_devices (guest_devices mem fw) device_map_default = (Ok (), dm) \<and>
    (\<forall>x i. find_device x dm = Some i \<longleftrightarrow>
      i < length (guest_devices mem fw) \<and> list_ex (in_region x) (device_services (guest_devices mem fw ! i)))"
proof -
  let ?devs = "guest_devices mem fw"
  have "fst (for_each (\<lambda>(i, rs). register_device i rs)
      (List.enumerate 0 (map device_services (guest_devices 0 (build builder_new)))) device_map_default) = Ok ()"
    by code_simp
  then obtain dm where dm: "register_devices ?devs device_map_default = (Ok (), dm)"
    unfolding register_devices_services guest_devices_services [of mem fw] by (metis prod.collapse)
  have "list_all (list_all region_ok) (map device_services (guest_devices 0 (build builder_new)))" by code_simp
  then have ok: "\<forall>dev \<in> set ?devs. list_all region_ok (device_services dev)"
    unfolding guest_devices_services [of mem fw, symmetric] by (simp add: list_all_iff)
  have "device_map_ok (device_map_default :: nat DeviceMap)" by (simp add: device_map_ok_def device_map_default_def)
  note find = register_devices_find [OF this ok dm [unfolded register_devices_def]]
  have "find_device x (device_map_default :: nat DeviceMap) = None" for x
    by (cases x) (simp_all add: device_map_default_def find_port_def find_addr_def)
  with find dm show ?thesis by simp
qed

end
