(* ===== verification/Guest_Image.thy ===== *)
theory Guest_Image
  imports Vm
begin

text \<open>
  The memory a machine starts with: the firmware, the images and the pages that
  \<open>setup_ept\<close> (\<open>vm.rs\<close>) puts into the guest address space.
\<close>

section \<open>Frames\<close>

lemma page_base_good:
  assumes "good_frame f"
  shows "page_base f = f"
proof (rule bit_word_eqI)
  show "bit (page_base f) n = bit f n" if "n < LENGTH(64)" for n
    using assms that by (cases "n < 12") (simp_all add: good_frame_def is_frame_aligned_bits page_base_bits bit_simps)
qed

lemma frames_disjoint:
  assumes "good_frame a" "good_frame f" "a \<noteq> f" "k < 4096"
  shows "\<not> unat (f + of_nat k - a) < 4096"
proof
  define d where "d = unat (f + of_nat k - a)"
  assume "unat (f + of_nat k - a) < 4096"
  then have d: "d < 4096" "f + of_nat k = a + of_nat d" by (simp_all add: d_def)
  have "drop_bit 12 f = drop_bit 12 (f + of_nat k)"
    using drop_bit_page_base_add [OF assms(4), of 12 f] page_base_good [OF assms(2)] by simp
  also have "\<dots> = drop_bit 12 a"
    using drop_bit_page_base_add [OF d(1), of 12 a] page_base_good [OF assms(1)] d(2) by simp
  finally have "page_base f = page_base a" by (simp add: page_base_bits)
  then show False using page_base_good assms(1-3) by simp
qed

text \<open>A memory that has grown: pages are added, and no page that was there has changed.\<close>

definition grows :: "GuestAddressSpace \<Rightarrow> host_mem \<Rightarrow> host_mem \<Rightarrow> bool" where
  "grows space m m' \<longleftrightarrow>
    (\<forall>g f. lookup_frame space m g = Some f \<longrightarrow> lookup_frame space m' g = Some f) \<and>
    set (live m) \<subseteq> set (live m') \<and>
    (\<forall>f k. f \<in> set (live m) \<longrightarrow> good_frame f \<longrightarrow> k < 4096 \<longrightarrow> ram m' (f + of_nat k) = ram m (f + of_nat k))"

lemma grows_refl [simp]: "grows space m m"
  by (simp add: grows_def)

lemma grows_trans: "grows space m m' \<Longrightarrow> grows space m' m'' \<Longrightarrow> grows space m m''"
  by (simp add: grows_def subset_iff)

definition page_holds :: "GuestAddressSpace \<Rightarrow> host_mem \<Rightarrow> GuestPhysAddr \<Rightarrow> u8 list \<Rightarrow> bool" where
  "page_holds space m g bs \<longleftrightarrow>
    (\<exists>f. lookup_frame space m g = Some f \<and> good_frame f \<and> f \<in> set (live m) \<and> ram_bytes m f (length bs) = bs)"

lemma page_holds_grows:
  assumes "page_holds space m g bs" "grows space m m'" "length bs \<le> 4096"
  shows "page_holds space m' g bs"
proof -
  obtain f where f: "lookup_frame space m g = Some f" "good_frame f" "f \<in> set (live m)" "ram_bytes m f (length bs) = bs"
    using assms(1) by (auto simp: page_holds_def)
  then have "ram m' (f + of_nat k) = ram m (f + of_nat k)" if "k < length bs" for k
    using assms(2,3) that by (simp add: grows_def)
  then have "ram_bytes m' f (length bs) = ram_bytes m f (length bs)" by (simp add: ram_bytes_def)
  then show ?thesis using f assms(2) by (auto simp: page_holds_def grows_def)
qed

lemma page_holds_bytes:
  assumes "page_holds space m g bs" "page_base g = g" "length bs \<le> 4096"
  shows "guest_bytes space m g (length bs) = bs"
proof -
  obtain f where f: "lookup_frame space m g = Some f" "ram_bytes m f (length bs) = bs"
    using assms(1) by (auto simp: page_holds_def)
  then show ?thesis
    using ram_bytes_guest_bytes [OF f(1), of 0 "length bs"] assms(2,3) by simp
qed

section \<open>Mapping\<close>

lemma next_table_live: "next_table new t i m = (r, m') \<Longrightarrow> set (live m) \<subseteq> set (live m')"
  by (auto simp: next_table_def action_defs read_entry_def alloc_table_def write_entry_def
      split: option.splits if_splits prod.splits outcome.splits)

lemma map_leaf_live: "map_leaf t i f ro m = (r, m') \<Longrightarrow> live m' = live m"
  by (auto simp: map_leaf_def action_defs read_entry_def write_entry_def
      split: option.splits if_splits prod.splits outcome.splits)

lemma map_frame_live: "map_frame new space g f ro m = (r, m') \<Longrightarrow> set (live m) \<subseteq> set (live m')"
proof -
  let ?I = "\<lambda>m'. set (live m) \<subseteq> set (live m')"
  have next_inv: "?I m' \<Longrightarrow> ?I (snd (next_table new t i m'))" for t i m'
    using next_table_live [of new t i m'] by (metis prod.collapse subset_trans)
  have leaf_inv: "?I m' \<Longrightarrow> ?I (snd (map_leaf t i f ro m'))" for t i m'
    using map_leaf_live [of t i f ro m'] by (metis prod.collapse)
  have "?I (snd (map_frame new space g f ro m))"
    unfolding map_frame_def map_guest_memory_def
    by (intro bind_state_invariant [where I = ?I] next_inv leaf_inv) simp_all
  then show "map_frame new space g f ro m = (r, m') \<Longrightarrow> ?I m'" by simp
qed

lemma map_frame_grows:
  assumes "space_ok new R space m" "good_frame f" "map_frame new space g f ro m = (res, m')"
  shows "grows space m m'"
  unfolding grows_def
proof (intro conjI allI impI)
  show "lookup_frame space m' h = Some x" if "lookup_frame space m h = Some x" for h x
    by (rule ept.map_page_keeps [OF assms that])
qed (simp_all add: map_frame_live [OF assms(3)] map_frame_ok(4) [OF assms])

lemma alloc_page_grows:
  assumes "space_ok new R space m" "alloc_page new m = (Ok a, m1)"
  shows "good_frame a" "a \<notin> set (live m)" "a \<in> set (live m1)" "space_ok new R space m1"
    "lookup_frame space m1 = lookup_frame space m" "grows space m m1"
proof -
  have a: "good_frame a" "a \<notin> set (live m)" "live m1 = a # live m"
    "ram m1 = (\<lambda>x. if unat (x - a) < BASE_PAGE_SIZE then 0 else ram m x)"
    using assms by (auto simp: alloc_page_def space_ok_def allocator_ok_def split: option.splits)
  moreover have s: "space_ok new R space m1" "lookup_frame space m1 = lookup_frame space m"
    using assms by (auto elim: alloc_page_cases [where s = space])
  ultimately show "good_frame a" "a \<notin> set (live m)" "a \<in> set (live m1)" "space_ok new R space m1"
    "lookup_frame space m1 = lookup_frame space m" by simp_all
  have "\<not> unat (f + of_nat k - a) < 4096" if "f \<in> set (live m)" "good_frame f" "k < 4096" for f k
    using frames_disjoint [OF a(1) that(2) _ that(3)] that(1) a(2) by blast
  then show "grows space m m1"
    using a s(2) by (simp add: grows_def BASE_PAGE_SIZE_def subset_insertI)
qed

lemma ram_write_fresh:
  assumes "good_frame a" "length bs \<le> 4096" "grows space m m1" "a \<notin> set (live m)"
  shows "grows space m (ram_write a bs m1)" "ram_bytes (ram_write a bs m1) a (length bs) = bs"
proof -
  have "\<not> unat (f + of_nat k - a) < length bs" if "f \<in> set (live m)" "good_frame f" "k < 4096" for f k
    using frames_disjoint [OF assms(1) that(2) _ that(3)] that(1) assms(2,4) by force
  moreover have "lookup_frame space (ram_write a bs m1) = lookup_frame space m1"
    using leaf_cong [of "ram_write a bs m1" m1] by (simp add: lookup_frame_def ram_write_def fun_eq_iff)
  ultimately show "grows space m (ram_write a bs m1)"
    using assms(3) by (simp add: grows_def ram_write_def)
  show "ram_bytes (ram_write a bs m1) a (length bs) = bs"
    using assms(2) by (intro nth_equalityI) (simp_all add: ram_bytes_def ram_write_def unat_of_nat)
qed


text \<open>
  The outcome of a mapping step: it adds to the memory, fails with \<open>DuplicateMapping\<close> exactly on a page
  that is mapped, and panics only when the allocator has no block left.
\<close>

definition mapping_step ::
  "allocator \<Rightarrow> u64 set \<Rightarrow> GuestAddressSpace \<Rightarrow> host_mem \<Rightarrow> GuestPhysAddr \<Rightarrow> unit res \<Rightarrow> host_mem \<Rightarrow> bool" where
  "mapping_step new R space m g res m' \<longleftrightarrow>
    space_ok new R space m' \<and> grows space m m' \<and>
    (res = Panic \<and> new m' = None \<or>
     res = (if lookup_frame space m g = None then Ok () else Err DuplicateMapping)) \<and>
    (\<forall>h. \<not> same_page g h \<longrightarrow> lookup_frame space m' h = lookup_frame space m h)"

lemma alloc_page_panic: "alloc_page new m = (Panic, m1) \<Longrightarrow> m1 = m \<and> new m = None"
  by (auto simp: alloc_page_def split: option.splits)

lemma alloc_page_outcome: "alloc_page new m = (r, m1) \<Longrightarrow> r = Panic \<or> (\<exists>a. r = Ok a)"
  by (auto simp: alloc_page_def split: option.splits)

lemma map_frame_step:
  assumes "space_ok new R space m" "good_frame f" "map_frame new space g f ro m = (res, m')"
  shows "mapping_step new R space m g res m'"
proof -
  have "new m' = None" if "res = Panic"
    using map_frame_panic [of new space g f ro m m'] assms(2,3) that by (simp add: good_frame_def)
  then show ?thesis
    using map_frame_ok [OF assms] map_frame_grows [OF assms] assms(1)
    by (auto simp: mapping_step_def space_ok_def)
qed

lemma map_chunk_step:
  assumes "space_ok new R space m" "length c \<le> 4096" "map_chunk new space addr (i, c) m = (res, m')"
  defines "g \<equiv> addr + of_nat i * 4096"
  shows "mapping_step new R space m g res m' \<and> (res = Ok () \<longrightarrow> page_holds space m' g c)"
proof -
  obtain r1 m1 where a: "alloc_page new m = (r1, m1)" by fastforce
  show ?thesis
  proof (cases "r1 = Panic")
    case True
    then have "res = Panic" "m' = m" "new m = None"
      using a assms(3) alloc_page_panic [of new m m1] by (auto simp: map_chunk_def bind_state_def)
    then show ?thesis using assms(1) by (simp add: mapping_step_def)
  next
    case False
    then obtain f where r1: "r1 = Ok f" using alloc_page_outcome [OF a] by blast
    note page = alloc_page_grows [OF assms(1) a [unfolded r1]]
    let ?m2 = "ram_write f c m1"
    note wr = ram_write_fresh [OF page(1) assms(2) page(6,2)]
    have look: "lookup_frame space ?m2 = lookup_frame space m"
      using page(5) leaf_cong [of ?m2 m1] by (simp add: lookup_frame_def ram_write_def fun_eq_iff)
    have ok2: "space_ok new R space ?m2"
      by (rule space_ok_cong [OF page(4)]) (simp_all add: ram_write_def)
    have mf: "map_frame new space g f False ?m2 = (res, m')"
      using assms(3) a r1 page(1)
      by (simp add: map_chunk_def action_defs frame_from_start_address_def good_frame_def g_def BASE_PAGE_SIZE_def)
    have step: "mapping_step new R space m g res m'"
      using map_frame_step [OF ok2 page(1) mf] wr(1) look by (auto simp: mapping_step_def intro: grows_trans)
    have "page_holds space m' g c" if "res = Ok ()"
    proof -
      have "lookup_frame space m' g = Some f" "ram m' = ram ?m2"
        using map_frame_ok(3,4) [OF ok2 page(1) mf] that ok2 by (simp_all add: same_page_def space_ok_def)
      moreover have "f \<in> set (live m')"
        using map_frame_live [OF mf] page(3) by (auto simp: ram_write_def)
      ultimately show ?thesis using page(1) wr(2) by (simp add: page_holds_def ram_bytes_def)
    qed
    with step show ?thesis by blast
  qed
qed

section \<open>Pages by number\<close>

definition page :: "nat \<Rightarrow> GuestPhysAddr" where
  "page n = of_nat n * 4096"

lemma page_add: "page (n + i) = page n + of_nat i * 4096"
  by (simp add: page_def distrib_right)

lemma page_base_page [simp]: "page_base (page n) = page n"
proof -
  have "page n = push_bit 12 (of_nat n)" by (simp add: page_def push_bit_eq_mult)
  then show ?thesis by (auto simp: page_base_bits bit_simps intro!: bit_word_eqI)
qed

lemma same_page_page:
  assumes "a < 2 ^ 36" "b < 2 ^ 36"
  shows "same_page (page a) (page b) \<longleftrightarrow> a = b"
proof
  assume same: "same_page (page a) (page b)"
  have p: "page n = push_bit 12 (of_nat n)" for n by (simp add: page_def push_bit_eq_mult)
  have small: "\<not> bit (of_nat n :: u64) k" if "n < 2 ^ 36" "36 \<le> k" for n k
  proof -
    have "unat (of_nat n :: u64) < 2 ^ 36" using that(1) by (simp add: unat_of_nat)
    then have "(of_nat n :: u64) = take_bit 36 (of_nat n)" by (simp add: take_bit_less word_less_nat_alt)
    then show ?thesis using that(2) by (metis bit_take_bit_iff not_less)
  qed
  have "bit (of_nat a :: u64) k = bit (of_nat b :: u64) k" for k
  proof (cases "k < 36")
    case True
    then have "bit (page a) (12 + k) = bit (page b) (12 + k)"
      using same by (simp only: page_index_bit [of "12 + k"]) (simp add: same_page_def guest_path_def)
    then show ?thesis using True by (simp add: p bit_simps)
  next
    case False
    then show ?thesis using small assms by simp
  qed
  then have "(of_nat a :: u64) = of_nat b" by (simp add: bit_eq_iff)
  then have "unat (of_nat a :: u64) = unat (of_nat b :: u64)" by simp
  then show "a = b" using assms by (simp add: unat_of_nat)
qed (simp add: same_page_def)

lemma map_chunks_step:
  assumes "space_ok new R space m" "\<forall>c \<in> set cs. length c \<le> 4096"
    and "for_each (map_chunk new space addr) (List.enumerate k cs) m = (res, m')"
    and "addr = page n" "n + k + length cs \<le> 2 ^ 36"
  shows "space_ok new R space m' \<and> grows space m m' \<and>
    (res = Panic \<and> new m' = None \<or> res = Ok () \<and> (\<forall>i < length cs. page_holds space m' (page (n + k + i)) (cs ! i)) \<or>
     res = Err DuplicateMapping \<and> (\<exists>i < length cs. lookup_frame space m (page (n + k + i)) \<noteq> None)) \<and>
    (\<forall>j < 2 ^ 36. (j < n + k \<or> n + k + length cs \<le> j) \<longrightarrow> lookup_frame space m' (page j) = lookup_frame space m (page j))"
  using assms(1,2,3,5)
proof (induction cs arbitrary: k m)
  case (Cons c cs)
  obtain r1 m1 where c: "map_chunk new space addr (k, c) m = (r1, m1)" by fastforce
  have g: "addr + of_nat k * 4096 = page (n + k)" by (simp add: assms(4) page_add)
  note step = map_chunk_step [OF Cons.prems(1) _ c, unfolded g mapping_step_def]
  have len: "length c \<le> 4096" using Cons.prems(2) by simp
  show ?case
  proof (cases "r1 = Ok ()")
    case True
    then have rest: "for_each (map_chunk new space addr) (List.enumerate (Suc k) cs) m1 = (res, m')"
      using Cons.prems(3) c by (simp add: bind_state_def)
    have ih: "space_ok new R space m' \<and> grows space m1 m' \<and>
      (res = Panic \<and> new m' = None \<or> res = Ok () \<and> (\<forall>i < length cs. page_holds space m' (page (n + Suc k + i)) (cs ! i)) \<or>
       res = Err DuplicateMapping \<and> (\<exists>i < length cs. lookup_frame space m1 (page (n + Suc k + i)) \<noteq> None)) \<and>
      (\<forall>j < 2 ^ 36. (j < n + Suc k \<or> n + Suc k + length cs \<le> j) \<longrightarrow> lookup_frame space m' (page j) = lookup_frame space m1 (page j))"
      using Cons.IH [OF _ _ rest] step len Cons.prems(2,4) by simp
    have other: "lookup_frame space m1 (page j) = lookup_frame space m (page j)" if "j < 2 ^ 36" "j \<noteq> n + k" for j
      using step len same_page_page [of "n + k" j] that Cons.prems(4) by simp
    have "page_holds space m' (page (n + k)) c"
      using step ih len True page_holds_grows [of space m1 _ c m'] by blast
    then have "\<forall>i < length (c # cs). page_holds space m' (page (n + k + i)) ((c # cs) ! i)"
      if "\<forall>i < length cs. page_holds space m' (page (n + Suc k + i)) (cs ! i)"
      using that by (auto simp: nth_Cons split: nat.splits)
    moreover have "\<exists>i < length (c # cs). lookup_frame space m (page (n + k + i)) \<noteq> None"
      if i: "i < length cs" "lookup_frame space m1 (page (n + Suc k + i)) \<noteq> None" for i
      using i other [of "n + Suc k + i"] Cons.prems(4) by (intro exI [of _ "Suc i"]) simp
    moreover have "grows space m m'" using step ih len grows_trans by blast
    moreover have "lookup_frame space m' (page j) = lookup_frame space m (page j)"
      if "j < 2 ^ 36" "j < n + k \<or> n + k + length (c # cs) \<le> j" for j
      using that ih other [of j] by (auto simp: less_Suc_eq)
    ultimately show ?thesis using ih by blast
  next
    case False
    then have "res = r1" "m' = m1" using Cons.prems(3) c by (auto simp: bind_state_def split: outcome.splits)
    moreover have "lookup_frame space m1 (page j) = lookup_frame space m (page j)"
      if "j < 2 ^ 36" "j < n + k \<or> n + k + length (c # cs) \<le> j" for j
      using step len same_page_page [of "n + k" j] that Cons.prems(4) by auto
    ultimately show ?thesis using step len False by (auto split: if_splits)
  qed
qed (simp add: return_state_def)


section \<open>Images\<close>

lemma chunks_Nil [simp]: "chunks n [] = []"
  by (simp add: chunks.simps)

lemma chunks_step: "xs \<noteq> [] \<Longrightarrow> 0 < n \<Longrightarrow> chunks n xs = take n xs # chunks n (drop n xs)"
  by (simp add: chunks.simps)

lemma chunks_short: "c \<in> set (chunks n xs) \<Longrightarrow> length c \<le> n"
proof (induction n xs rule: chunks.induct)
  case (1 n xs)
  then show ?case by (cases "n = 0 \<or> xs = []") (auto simp: chunks.simps [of n xs])
qed

lemma length_chunks: "length xs = k * n \<Longrightarrow> 0 < n \<Longrightarrow> length (chunks n xs) = k"
proof (induction k arbitrary: xs)
  case (Suc k)
  then show ?case by (subst chunks_step) auto
qed simp

lemma chunks_bytes:
  assumes "\<forall>i < length (chunks 4096 xs). page_holds space m (page (n + i)) (chunks 4096 xs ! i)"
  shows "guest_bytes space m (page n) (length xs) = xs"
  using assms
proof (induction "4096 :: nat" xs arbitrary: n rule: chunks.induct)
  case (1 xs)
  show ?case
  proof (cases "xs = []")
    case False
    have cs: "chunks 4096 xs = take 4096 xs # chunks 4096 (drop 4096 xs)" using False by (intro chunks_step) simp_all
    have here: "page_holds space m (page n) (take 4096 xs)" using 1(2) cs by auto
    have rest: "\<forall>i < length (chunks 4096 (drop 4096 xs)).
        page_holds space m (page (Suc n + i)) (chunks 4096 (drop 4096 xs) ! i)"
      using 1(2) cs by fastforce
    have first: "guest_bytes space m (page n) (length (take 4096 xs)) = take 4096 xs"
      by (rule page_holds_bytes [OF here]) simp_all
    show ?thesis
    proof (cases "length xs \<le> 4096")
      case True
      then show ?thesis using first by simp
    next
      case long: False
      then have "length xs = 4096 + length (drop 4096 xs)" by simp
      moreover have "page n + of_nat 4096 = page (Suc n)" using page_add [of n 1] by simp
      ultimately show ?thesis
        using 1(1) [OF _ rest] False first long guest_bytes_append [of space m "page n" 4096 "length (drop 4096 xs)"]
        by (simp add: min_def)
    qed
  qed (simp add: guest_bytes_def)
qed

lemma map_data_step:
  assumes "space_ok new R space m" "map_data new img (page n) space m = (res, m')"
    and "n + length (chunks 4096 img) \<le> 2 ^ 36"
  shows "space_ok new R space m'" "grows space m m'"
    and "res = Panic \<and> new m' = None \<or> res = Ok () \<or>
      res = Err DuplicateMapping \<and> (\<exists>i < length (chunks 4096 img). lookup_frame space m (page (n + i)) \<noteq> None)"
    and "res = Ok () \<Longrightarrow> \<forall>i < length (chunks 4096 img). page_holds space m' (page (n + i)) (chunks 4096 img ! i)"
    and "j < 2 ^ 36 \<Longrightarrow> j < n \<or> n + length (chunks 4096 img) \<le> j \<Longrightarrow> lookup_frame space m' (page j) = lookup_frame space m (page j)"
  using map_chunks_step [OF assms(1) _ assms(2) [unfolded map_data_def BASE_PAGE_SIZE_def] refl, of] chunks_short assms(3)
  by auto

lemma chunks_grows:
  assumes "\<forall>i < length (chunks 4096 img). page_holds space m (page (n + i)) (chunks 4096 img ! i)" "grows space m m'"
  shows "\<forall>i < length (chunks 4096 img). page_holds space m' (page (n + i)) (chunks 4096 img ! i)"
  using page_holds_grows [OF _ assms(2)] assms(1) chunks_short [of _ 4096 img] by simp

section \<open>Setting up a machine's memory\<close>

lemma for_each_outcome:
  assumes "for_each f xs s = (r, t)" "I s" "\<And>s. P (Ok ()) s"
    and "\<And>x s r t. x \<in> set xs \<Longrightarrow> I s \<Longrightarrow> f x s = (r, t) \<Longrightarrow> I t \<and> P r t"
  shows "I t \<and> P r t"
  using assms
proof (induction xs arbitrary: s)
  case (Cons x xs)
  obtain r1 s1 where x: "f x s = (r1, s1)" by fastforce
  have step: "I s1 \<and> P r1 s1" using Cons.prems(4) [OF _ Cons.prems(2) x] by simp
  show ?case
  proof (cases "r1 = Ok ()")
    case True
    then have "for_each f xs s1 = (r, t)" using Cons.prems(1) x by (simp add: bind_state_def)
    then show ?thesis
      by (rule Cons.IH [OF _ conjunct1 [OF step] Cons.prems(3)]) (erule (2) Cons.prems(4) [OF list.set_intros(2)])
  next
    case False
    then show ?thesis using Cons.prems(1) x step by (auto simp: bind_state_def split: outcome.splits)
  qed
qed (simp add: return_state_def)

text \<open>A step that panics only when the allocator has no block left and has no undefined behaviour.\<close>

definition tame :: "allocator \<Rightarrow> unit res \<Rightarrow> host_mem \<Rightarrow> bool" where
  "tame new r m \<longleftrightarrow> r \<noteq> Undefined \<and> (r = Panic \<longrightarrow> new m = None)"

lemma map_data_tame:
  assumes "space_ok new R space m" "map_data new img addr space m = (res, m')"
  shows "(space_ok new R space m' \<and> grows space m m') \<and> tame new res m'"
proof (rule for_each_outcome [OF assms(2) [unfolded map_data_def]])
  fix x s r t
  assume x: "x \<in> set (List.enumerate 0 (chunks BASE_PAGE_SIZE img))" "space_ok new R space s \<and> grows space m s"
    "map_chunk new space addr x s = (r, t)"
  obtain i c where ic: "x = (i, c)" by fastforce
  then have "c \<in> set (chunks 4096 img)" using x(1) by (auto simp: BASE_PAGE_SIZE_def dest: set_zip_rightD simp: enumerate_eq_zip)
  then show "(space_ok new R space t \<and> grows space m t) \<and> tame new r t"
    using map_chunk_step [of new R space s c addr i r t] x ic chunks_short grows_trans
    by (auto simp: mapping_step_def tame_def split: if_splits)
qed (use assms(1) in \<open>simp_all add: tame_def\<close>)

lemma map_image_tame:
  assumes "space_ok new R space m" "map_image new img addr space modules m = (res, m')"
  shows "(space_ok new R space m' \<and> grows space m m') \<and> tame new res m'"
  using assms map_data_tame [OF assms(1)]
  by (cases "find_module img modules") (auto simp: map_image_def lift_state_def tame_def)

lemma map_ram_page_step:
  assumes "space_ok new R space m" "map_ram_page new space i m = (res, m')"
  shows "space_ok new R space m' \<and> grows space m m' \<and>
    (res = Panic \<and> new m' = None \<or> res = Ok () \<and> lookup_frame space m' (page i) \<noteq> None)"
proof -
  obtain r1 m1 where a: "alloc_page new m = (r1, m1)" by fastforce
  show ?thesis
  proof (cases "r1 = Panic")
    case True
    then have "res = Panic" "m' = m" "new m = None"
      using a assms(2) alloc_page_panic [of new m m1] by (auto simp: map_ram_page_def map_new_frame_def bind_state_def)
    then show ?thesis using assms(1) by simp
  next
    case False
    then obtain f where r1: "r1 = Ok f" using alloc_page_outcome [OF a] by blast
    note pg = alloc_page_grows [OF assms(1) a [unfolded r1]]
    obtain r2 m2 where mf: "map_frame new space (page i) f False m1 = (r2, m2)" by fastforce
    have new: "map_new_frame new space (of_nat i * of_nat BASE_PAGE_SIZE) False m = (r2, m2)"
      using a r1 pg(1) mf
      by (simp add: map_new_frame_def action_defs frame_from_start_address_def good_frame_def page_def BASE_PAGE_SIZE_def)
    note step = map_frame_step [OF pg(4,1) mf, unfolded mapping_step_def]
    have m': "m' = m2" using assms(2) new by (auto simp: map_ram_page_def split: outcome.splits if_splits)
    have "lookup_frame space m2 (page i) \<noteq> None" if "r2 \<noteq> Panic"
      using ept.map_page_lookup [OF pg(4,1) mf, of "page i"] step that by (auto simp: same_page_def split: if_splits)
    moreover have "res = (if r2 = Panic then Panic else Ok ())"
      using assms(2) new step by (auto simp: map_ram_page_def split: if_splits)
    moreover have "grows space m m2" using step pg(6) grows_trans by blast
    ultimately show ?thesis using step m' by (auto split: if_splits)
  qed
qed

lemma map_ram_pages_step:
  assumes "space_ok new R space m" "for_each (map_ram_page new space) ns m = (res, m')"
  shows "space_ok new R space m' \<and> grows space m m' \<and>
    (res = Panic \<and> new m' = None \<or> res = Ok () \<and> (\<forall>i \<in> set ns. lookup_frame space m' (page i) \<noteq> None))"
  using assms
proof (induction ns arbitrary: m)
  case (Cons i ns)
  obtain r1 m1 where i: "map_ram_page new space i m = (r1, m1)" by fastforce
  note step = map_ram_page_step [OF Cons.prems(1) i]
  show ?case
  proof (cases "r1 = Ok ()")
    case True
    then have "for_each (map_ram_page new space) ns m1 = (res, m')"
      using Cons.prems(2) i by (simp add: bind_state_def)
    note ih = Cons.IH [OF _ this]
    have "lookup_frame space m' (page i) \<noteq> None" using step ih True by (auto simp: grows_def)
    then show ?thesis using step ih True grows_trans by fastforce
  next
    case False
    then show ?thesis using Cons.prems(2) i step by (auto simp: bind_state_def split: outcome.splits)
  qed
qed (simp add: return_state_def)

text \<open>The firmware is mapped below 1 MiB and below 4 GiB.\<close>

lemma map_bios_step:
  assumes "space_ok (box_new p) R space m" "lookup_frame space m = (\<lambda>g. None)"
    and "map_bios p space m = (res, m')" "length (bios_blob p) = k * 4096" "k \<le> 256"
  shows "space_ok (box_new p) R space m'"
    and "res = Panic \<and> box_new p m' = None \<or> res = Ok ()"
    and "res = Ok () \<Longrightarrow> b \<in> {256, 2 ^ 20} \<Longrightarrow> i < length (chunks 4096 (bios_blob p)) \<Longrightarrow>
      page_holds space m' (page (b - k + i)) (chunks 4096 (bios_blob p) ! i)"
proof -
  let ?img = "bios_blob p" and ?new = "box_new p"
  have len: "length (chunks 4096 ?img) = k" using length_chunks [OF assms(4)] by simp
  have addr: "of_nat b * 4096 - of_nat (length ?img) = page (b - k)" if "256 \<le> b" for b
    using that assms(4,5) by (simp add: page_def of_nat_diff algebra_simps)
  have low: "1024 * 1024 - of_nat (length ?img) = page (256 - k)" using addr [of 256] by simp
  have high: "4 * 1024 * 1024 * 1024 - of_nat (length ?img) = page (2 ^ 20 - k)" using addr [of "2 ^ 20"] by simp
  obtain r1 m1 where one: "map_data ?new ?img (page (256 - k)) space m = (r1, m1)" by fastforce
  note s1 = map_data_step [OF assms(1) one, unfolded len]
  have r1: "r1 = Panic \<and> ?new m1 = None \<or> r1 = Ok ()" using s1(3) assms(2,5) by auto
  obtain r2 m2 where two: "map_data ?new ?img (page (2 ^ 20 - k)) space m1 = (r2, m2)" by fastforce
  have ok1: "space_ok ?new R space m1" using s1(1) assms(5) by simp
  note s2 = map_data_step [OF ok1 two, unfolded len]
  have "lookup_frame space m1 (page (2 ^ 20 - k + i)) = None" if "i < k" for i
  proof -
    have "2 ^ 20 - k + i < 2 ^ 36" "256 - k + k \<le> 2 ^ 20 - k + i" "256 - k + k \<le> 2 ^ 36" using that assms(5) by auto
    then show ?thesis using s1(5) [of "2 ^ 20 - k + i"] assms(2) by simp
  qed
  then have r2: "r2 = Panic \<and> ?new m2 = None \<or> r2 = Ok ()" using s2(3) assms(5) by auto
  have run: "(res, m') = (if r1 = Ok () then (r2, m2) else (r1, m1))"
    using assms(3) one two r1 unfolding map_bios_def Let_def low high by (auto simp: bind_state_def)
  show "space_ok ?new R space m'" "res = Panic \<and> ?new m' = None \<or> res = Ok ()"
    using run ok1 s2(1) assms(5) r1 r2 by (auto split: if_splits)
  assume "res = Ok ()" "b \<in> {256, 2 ^ 20}" "i < length (chunks 4096 ?img)"
  then show "page_holds space m' (page (b - k + i)) (chunks 4096 ?img ! i)"
    using run s1(4) s2(2,4) chunks_grows [of ?img space m1 "256 - k" m2] len assms(5) r1 r2 by (auto split: if_splits)
qed

text \<open>How many blocks the steps of the set-up take from the allocator.\<close>

definition takes :: "nat \<Rightarrow> (host_mem, 'a, Error) action \<Rightarrow> bool" where
  "takes n f \<longleftrightarrow> (\<forall>m. length (live (snd (f m))) \<le> length (live m) + n)"

lemma takesD: "takes n f \<Longrightarrow> length (live (snd (f m))) \<le> length (live m) + n"
  by (simp add: takes_def)

lemma takes_bind:
  assumes "takes j f" "\<And>x. takes k (g x)"
  shows "takes (j + k) (bind_state f g)"
  unfolding takes_def
proof
  fix m
  obtain r m1 where f: "f m = (r, m1)" by fastforce
  have le: "length (live m1) \<le> length (live m) + j" using takesD [OF assms(1), of m] f by simp
  moreover have "length (live (snd (g x m1))) \<le> length (live m) + (j + k)" for x
    using takesD [OF assms(2), of x m1] le by simp
  ultimately show "length (live (snd (bind_state f g m))) \<le> length (live m) + (j + k)"
    using f by (cases r) (auto simp: bind_state_def)
qed

lemma takes_none: "takes 0 (return_state x)" "takes 0 (lift_state r)"
  by (simp_all add: takes_def return_state_def lift_state_def)

lemma takes_each: "(\<And>x. takes n (f x)) \<Longrightarrow> takes (n * length xs) (for_each f xs)"
  by (induction xs) (auto simp: takes_none intro: takes_bind)

lemma takes_one: "takes 1 (alloc_page new)" "takes 1 (alloc_table new)"
  by (auto simp: takes_def alloc_page_def alloc_table_def split: option.split)

lemma takes_table: "takes 1 (next_table new t i)"
  by (auto simp: takes_def next_table_def action_defs read_entry_def alloc_table_def write_entry_def
      split: option.split if_split)

lemma takes_map_frame: "takes 3 (map_frame new space g f ro)"
proof -
  have leaf: "takes 0 (map_leaf t i f ro)" for t i
    by (auto simp: takes_def map_leaf_def action_defs read_entry_def write_entry_def split: option.split outcome.split)
  have "takes (1 + (1 + (1 + 0))) (map_frame new space g f ro)"
    unfolding map_frame_def map_guest_memory_def by (intro takes_bind takes_table leaf)
  then show ?thesis by (simp add: numeral_3_eq_3)
qed

lemma takes_map_chunk: "takes 4 (map_chunk new space addr c)"
proof -
  have "takes 0 (\<lambda>m. (Ok (), ram_write a bs m))" for a bs by (simp add: takes_def ram_write_def)
  then have "takes (1 + (0 + (0 + 3))) (map_chunk new space addr c)"
    unfolding map_chunk_def split_beta by (intro takes_bind takes_one takes_none takes_map_frame)
  then show ?thesis by simp
qed

lemma takes_map_ram_page: "takes 4 (map_ram_page new space i)"
proof -
  have "takes (1 + (0 + 3)) (map_new_frame new space g ro)" for g ro
    unfolding map_new_frame_def by (intro takes_bind takes_one takes_none takes_map_frame)
  then have "takes 4 (map_new_frame new space g ro)" for g ro by simp
  from takesD [OF this] show ?thesis by (auto simp: takes_def map_ram_page_def split: outcome.split if_split prod.split)
    (metis snd_conv)+
qed

lemma setup_ept_blocks:
  assumes "length (bios_blob p) = k * 4096" "cfg_images cfg = []"
  shows "length (live (snd (setup_ept p cfg modules m))) \<le> length (live m) + 1 + 8 * k + 4 * unat (push_bit 8 (cfg_memory cfg))"
proof -
  have len: "length (chunks 4096 (bios_blob p)) = k" using length_chunks [OF assms(1)] by simp
  have data: "takes (4 * k) (map_data (box_new p) (bios_blob p) a space)" for a space
    unfolding map_data_def BASE_PAGE_SIZE_def using takes_each [OF takes_map_chunk, where xs = "List.enumerate 0 (chunks 4096 (bios_blob p))"]
    by (simp add: len)
  have "takes (4 * k + 4 * k) (map_bios p space)" for space
    unfolding map_bios_def Let_def by (intro takes_bind data)
  moreover have "takes (1 + 0) (guest_address_space_new (box_new p))"
    unfolding guest_address_space_new_def by (intro takes_bind takes_one takes_none)
  moreover have "takes (4 * length ns) (for_each (map_ram_page (box_new p) space) ns)" for space ns
    by (rule takes_each [OF takes_map_ram_page])
  ultimately have "takes ((1 + 0) + ((4 * k + 4 * k) + (0 + (4 * length [0..<unat (push_bit 8 (cfg_memory cfg))] + 0)))) (setup_ept p cfg modules)"
    unfolding setup_ept_def by (intro takes_bind) (simp_all only: assms(2) for_each.simps takes_none)
  from takesD [OF this, of m] show ?thesis by simp
qed

text \<open>
  C10: What a guest finds in its memory. With a firmware image of whole pages and at most 1 MiB, when
  the set-up of the address space succeeds, the guest reads the firmware image right below 1 MiB and again right
  below 4 GiB, where the processor starts, every page of its memory size is mapped, and no image has overwritten
  any of it. The set-up returns an error only when there are images, and it panics only when the allocator has no
  block for the memory it has reached. Without images that is after at most one block for the root, four for
  each page of the two copies of the firmware and four for each page of memory.
\<close>

theorem setup_ept_firmware:
  assumes "forest_ok m R" "allocator_ok (box_new p)"
    and "length (bios_blob p) = k * 4096" "k \<le> 256"
  shows "case setup_ept p cfg modules m of
      (Ok space, m') \<Rightarrow>
        (\<forall>top \<in> {0x100000, 0x100000000}.
           guest_bytes space m' (top - of_nat (length (bios_blob p))) (length (bios_blob p)) = bios_blob p) \<and>
        (\<forall>i < unat (push_bit 8 (cfg_memory cfg)). lookup_frame space m' (of_nat i * 4096) \<noteq> None)
    | (Err e, m') \<Rightarrow> cfg_images cfg \<noteq> []
    | (Panic, m') \<Rightarrow> box_new p m' = None \<and>
        (cfg_images cfg = [] \<longrightarrow> length (live m') \<le> length (live m) + 1 + 8 * k + 4 * unat (push_bit 8 (cfg_memory cfg)))
    | (Undefined, m') \<Rightarrow> False"
proof -
  let ?new = "box_new p" and ?img = "bios_blob p"
  let ?images = "\<lambda>space. for_each (\<lambda>(img, addr). map_image ?new img addr space modules) (cfg_images cfg)"
  let ?ram = "\<lambda>space. for_each (map_ram_page ?new space) [0..<unat (push_bit 8 (cfg_memory cfg))]"
  obtain r0 m0 where new: "guest_address_space_new ?new m = (r0, m0)" by fastforce
  from assms(1,2) new show ?thesis
  proof (cases rule: guest_address_space_new_ok)
    case exhausted
    then have "?new m = None" "m0 = m"
      using new by (auto simp: guest_address_space_new_def alloc_table_def action_defs split: option.splits)
    then show ?thesis using new exhausted by (auto simp: setup_ept_def bind_state_def)
  next
    case (space s)
    let ?R = "insert (root s) R"
    obtain r1 m1 where bios: "map_bios p s m0 = (r1, m1)" by fastforce
    note b = map_bios_step [OF space(2,4) bios assms(3,4)]
    obtain r2 m2 where images: "?images s m1 = (r2, m2)" by fastforce
    have i: "(space_ok ?new ?R s m2 \<and> grows s m1 m2) \<and> tame ?new r2 m2"
      by (rule for_each_outcome [OF images]) (use b(1) map_image_tame grows_trans in \<open>fastforce simp: tame_def\<close>)+
    have none: "r2 = Ok ()" if "cfg_images cfg = []" using images that by (simp add: return_state_def)
    obtain r3 m3 where ram: "?ram s m2 = (r3, m3)" by fastforce
    note r = map_ram_pages_step [OF _ ram, of ?R]
    have run: "setup_ept p cfg modules m =
        (if r1 \<noteq> Ok () then (Panic, m1)
         else case r2 of Ok _ \<Rightarrow> (if r3 = Ok () then (Ok s, m3) else (Panic, m3)) | Err e \<Rightarrow> (Err e, m2)
              | Panic \<Rightarrow> (Panic, m2) | Undefined \<Rightarrow> (Undefined, m2))"
      using new space(1) bios images ram b(2) r i
      by (auto simp: setup_ept_def bind_state_def return_state_def split: outcome.splits)
    have bytes: "guest_bytes s m3 (page (b - k)) (length ?img) = ?img" if "r1 = Ok ()" "b \<in> {256, 2 ^ 20}" for b
    proof (rule chunks_bytes, rule chunks_grows)
      show "\<forall>i < length (chunks 4096 ?img). page_holds s m1 (page (b - k + i)) (chunks 4096 ?img ! i)"
        using b(3) that by blast
      show "grows s m1 m3" using i r grows_trans by blast
    qed
    have "0x100000 - of_nat (length ?img) = page (256 - k)" "0x100000000 - of_nat (length ?img) = page (2 ^ 20 - k)"
      using assms(3,4) by (simp_all add: page_def of_nat_diff algebra_simps)
    moreover have "length (live m') \<le> length (live m) + 1 + 8 * k + 4 * unat (push_bit 8 (cfg_memory cfg))"
      if "cfg_images cfg = []" "setup_ept p cfg modules m = (x, m')" for x m'
      using setup_ept_blocks [OF assms(3) that(1), of modules m] that(2) by simp
    ultimately show ?thesis
      using run b(2) i r none bytes [of 256] bytes [of "2 ^ 20"]
      by (auto simp: tame_def page_def split: outcome.splits if_splits)
  qed
qed


section \<open>A small machine\<close>

definition small_platform :: platform where
  "small_platform = \<lparr>box_new = first_fit, entry_address = id, system_start_time = 0,
    bios_blob = replicate 4096 0xf4, access_page = (\<lambda>i. 0)\<rparr>"

definition small_config :: VirtualMachineConfig where
  "small_config = \<lparr>cfg_cpus = [0], cfg_images = [], cfg_virtual_devices = [], cfg_serial = None, cfg_memory = 16\<rparr>"

theorem setup_ept_firmware_witness:
  "\<exists>space m'. setup_ept small_platform small_config [] empty_mem = (Ok space, m') \<and>
    guest_bytes space m' 0xff000 4096 = replicate 4096 0xf4 \<and> guest_bytes space m' 0xfffff000 4096 = replicate 4096 0xf4 \<and>
    lookup_frame space m' 0xfff000 \<noteq> None"
proof -
  have "forest_ok empty_mem {}" by (simp add: forest_ok_def empty_mem_def)
  note f = setup_ept_firmware [OF this, of small_platform 1 small_config "[]"]
  have "allocator_ok (box_new small_platform)" "length (bios_blob small_platform) = 1 * 4096" "(1 :: nat) \<le> 256"
    by (simp_all add: small_platform_def first_fit_ok)
  note f = f [OF this]
  have pages: "unat (push_bit 8 (cfg_memory small_config)) = 4096" by (simp add: small_config_def)
  obtain r m' where s: "setup_ept small_platform small_config [] empty_mem = (r, m')" by fastforce
  have "first_fit m' \<noteq> None" if "length (live m') \<le> 20000" using first_fit_room [of m'] that by simp
  then obtain space where r: "r = Ok space"
    using f unfolding s pages by (cases r) (simp_all add: small_platform_def small_config_def empty_mem_def)
  with f have "\<forall>i < 4096. lookup_frame space m' (of_nat i * 4096) \<noteq> None" unfolding s pages by simp
  from this [rule_format, of 4095] show ?thesis using f r unfolding s by (simp add: small_platform_def)
qed

end
