(* ===== verification/Isolation.thy ===== *)
theory Isolation
  imports Vm
begin

text \<open>
  What an event of one guest can change: of the machines only the device it is for, and of
  memory only pages mapped in the guest's own address space.
\<close>

section \<open>Actions that keep a part of the state\<close>

definition keeps :: "('s \<Rightarrow> 'v) \<Rightarrow> ('s, 'a, 'e) action \<Rightarrow> bool" where
  "keeps part f \<longleftrightarrow> (\<forall>s. part (snd (f s)) = part s)"

named_theorems keeps_intros \<open>rules for actions that keep a part of the state\<close>

lemma keepsD: "keeps part f \<Longrightarrow> f s = (r, t) \<Longrightarrow> part t = part s"
  unfolding keeps_def by (metis snd_conv)

lemma keeps_eq: "keeps part f \<Longrightarrow> part (snd (f s)) = part s"
  by (simp add: keeps_def)

lemma keeps_return [keeps_intros]: "keeps part (return_state x)"
  by (simp add: keeps_def return_state_def)

lemma keeps_lift [keeps_intros]: "keeps part (lift_state x)"
  by (simp add: keeps_def lift_state_def)

lemma keeps_bind [keeps_intros]:
  "keeps part f \<Longrightarrow> (\<And>x. keeps part (g x)) \<Longrightarrow> keeps part (bind_state f g)"
  unfolding keeps_def bind_state_def by (auto split: prod.splits outcome.splits) (metis snd_conv)+

lemma keeps_if [keeps_intros]: "keeps part f \<Longrightarrow> keeps part g \<Longrightarrow> keeps part (if b then f else g)"
  by simp

lemma keeps_on_fst [keeps_intros]: "keeps (\<lambda>x. part (snd x)) (on_fst f)"
  by (simp add: keeps_def)

lemma keeps_on_snd [keeps_intros]: "keeps part f \<Longrightarrow> keeps (\<lambda>x. part (snd x)) (on_snd f)"
  by (simp add: keeps_def)

lemma keeps_pair: "(\<And>d s. part (snd (f d s)) = part (d, s)) \<Longrightarrow> keeps part (\<lambda>(d, s). f d s)"
  by (simp add: keeps_def)

lemma keeps_read: "(\<And>s. keeps part (f s)) \<Longrightarrow> keeps part (\<lambda>s. f s s)"
  by (simp add: keeps_def)

section \<open>Timers\<close>

text \<open>Timers change the clock, the queues and the registers of the core, and no machine and no memory.\<close>

definition machines :: "('d, 'a) time_state_scheme \<Rightarrow> 'd VirtualMachine list \<times> 'a" where
  "machines s = (vms s, time_state.more s)"

lemma keeps_now [keeps_intros]: "keeps machines now"
  by (simp add: keeps_def machines_def now_def)

lemma keeps_wheel [keeps_intros]: "keeps machines get_timer_wheel" "keeps machines (put_wheel w)"
  by (simp_all add: keeps_def machines_def get_timer_wheel_def put_wheel_def)

lemma keeps_schedule [keeps_intros]: "keeps machines (schedule_interrupt when vector)"
  unfolding schedule_interrupt_def
  by (intro keeps_intros)
     (simp_all add: keeps_def machines_def instant_diff_def schedule_ticks_def wrmsr_def Let_def)

lemma keeps_update [keeps_intros]: "keeps machines (update_interrupt_timer w)"
  by (auto simp: keeps_def update_interrupt_timer_def keeps_eq [OF keeps_schedule] split: option.split)

lemma keeps_register [keeps_intros]: "keeps machines (register_timer timer)"
proof -
  have "keeps machines (bind_state get_timer_wheel (\<lambda>w.
    let i = TimerId (wheel_counter w) c in
    bind_state (start timer) (\<lambda>running.
    let w' = \<lparr>wheel_counter = wheel_counter w + 1, wheel_timers = RBT.insert i running (wheel_timers w)\<rparr> in
    bind_state (put_wheel w') (\<lambda>_.
    bind_state (update_interrupt_timer w') (\<lambda>_. return_state i)))))" for c
    unfolding Let_def start_def by (intro keeps_intros)
  then show ?thesis unfolding register_timer_def by (rule keeps_read)
qed

lemma keeps_send [keeps_intros]: "keeps machines (send_msg_core msg core notify)"
  by (auto simp: keeps_def machines_def send_msg_core_def set_queue_def send_ipi_def wrmsr_def split: option.split)

lemma keeps_remove [keeps_intros]: "keeps machines (remove_timer i)"
  unfolding remove_timer_def Let_def by (intro keeps_intros)

lemma keeps_cancel [keeps_intros]: "keeps machines (cancel_timer i)"
  unfolding cancel_timer_def
  by (intro keeps_intros) (simp add: keeps_def keeps_eq [OF keeps_remove] keeps_eq [OF keeps_send])

lemma keeps_ignore [keeps_intros]:
  assumes "keeps part f"
  shows "keeps part (ignore_error f)"
proof -
  have "snd (ignore_error f s) = snd (f s)" for s
    by (cases "f s"; cases "fst (f s)") (simp_all add: ignore_error_def)
  then show ?thesis using assms by (simp add: keeps_def)
qed

lemma keeps_cancel_mode [keeps_intros]: "keeps machines (cancel_mode_timer m)"
  unfolding cancel_mode_timer_def by (auto split: option.split intro: keeps_intros)

section \<open>Devices with timers\<close>

lemma keeps_start_counter [keeps_intros]: "keeps machines (start_counter port c ch)"
  unfolding start_counter_def Let_def set_oneshot_timer_def set_periodic_timer_def
  by (intro keeps_intros) (auto split: OperatingModeState.split intro!: keeps_intros)

lemma keeps_cancel_of:
  "keeps (\<lambda>x. machines (snd x)) (\<lambda>(d, s). on_snd (cancel_mode_timer (m d)) (d, s))"
  by (auto simp: keeps_def keeps_eq [OF keeps_cancel_mode])

lemma keeps_pit_mode: "keeps (\<lambda>x. machines (snd x)) (pit_mode_control val)"
  unfolding pit_mode_control_def Let_def by (auto intro!: keeps_intros keeps_cancel_of)

lemma keeps_counter_body:
  "keeps (\<lambda>x. machines (snd x))
    (bind_state (lift_state a) (\<lambda>(counter, acc).
      bind_state (on_fst (\<lambda>d. (Ok (), put (ch acc) d))) (\<lambda>_.
      case counter of
        None \<Rightarrow> return_state ()
      | Some c \<Rightarrow>
          if c = 0 then return_state ()
          else bind_state (on_snd (start_counter port c (ch acc))) (\<lambda>ch'. on_fst (\<lambda>d. (Ok (), put ch' d))))))"
  by (intro keeps_intros) (auto split: option.split intro!: keeps_intros)

lemma keeps_pit_counter: "keeps (\<lambda>x. machines (snd x)) (pit_counter_write port val get put)"
  unfolding pit_counter_write_def Let_def by (intro keeps_pair keeps_eq [OF keeps_counter_body])

lemma keeps_clock:
  "keeps (\<lambda>x. machines (snd x)) (bind_state (on_snd now) (\<lambda>t. bind_state (lift_state (g t)) (\<lambda>d. return_state (h d))))"
  by (intro keeps_intros)

lemma keeps_pit_read: "keeps (\<lambda>x. machines (snd x)) (pit_on_port_read port val)"
  by (auto simp: keeps_def pit_on_port_read_def Let_def keeps_eq [OF keeps_clock] split: OperatingModeState.split option.split)

lemma keeps_pit_write: "keeps (\<lambda>x. machines (snd x)) (pit_on_port_write port val)"
  unfolding pit_on_port_write_def Let_def by (auto intro!: keeps_intros keeps_pit_mode keeps_pit_counter)

lemma keeps_acpi_read: "keeps (\<lambda>x. machines (snd x)) (acpi_on_port_read t0 port val)"
  by (auto simp: keeps_def acpi_on_port_read_def Let_def keeps_eq [OF keeps_clock])

text \<open>A handler of port accesses leaves memory and, where its parts do, the rest of the state.\<close>

lemma port_handler_keeps:
  assumes "\<And>port val. keeps part (rd port val)" "\<And>port val. keeps part (wr port val)"
    and "port_handler rd wr (d, ev) = (r, d', ev')"
  shows "part d' = part d \<and> event_mem ev' = event_mem ev"
  using assms(3) keepsD [OF assms(1)] keepsD [OF assms(2)]
  by (auto simp: port_handler_def on_fst_def on_snd_def bind_state_def split: DeviceEvent.splits prod.splits outcome.splits)


section \<open>Writes to guest memory\<close>

text \<open>Bytes change only within frames of the address space; the page tables stay.\<close>

definition confined :: "GuestAddressSpace \<Rightarrow> host_mem \<Rightarrow> host_mem \<Rightarrow> bool" where
  "confined space m m' \<longleftrightarrow> tables m' = tables m \<and> live m' = live m \<and>
    (\<forall>x. ram m' x \<noteq> ram m x \<longrightarrow> (\<exists>g f k. find_host_frame space g m = Ok f \<and> k < 4096 \<and> x = f + of_nat k))"

lemma confined_refl [simp]: "confined space m m"
  by (simp add: confined_def)

lemma find_host_frame_tables: "tables m' = tables m \<Longrightarrow> find_host_frame space g m' = find_host_frame space g m"
proof -
  assume "tables m' = tables m"
  then have "read_entry t i m' = read_entry t i m" for t i by (simp add: read_entry_def)
  then show "find_host_frame space g m' = find_host_frame space g m" by (simp only: find_host_frame_def)
qed

lemma confined_trans: "confined space m m' \<Longrightarrow> confined space m' m'' \<Longrightarrow> confined space m m''"
  using find_host_frame_tables [of m' m space] unfolding confined_def by metis

lemma frame_iter_next_frame:
  "fst (frame_iter_next ea m it) = Ok f \<Longrightarrow> \<exists>g. find_host_frame (view_space (iter_view it)) g m = Ok f"
  by (auto simp: frame_iter_next_def Let_def and_then_Ok_iff)

lemma frame_copy_confined:
  assumes "find_host_frame space g m = Ok f" "frame_copy f i bs m = (r, m')"
  shows "confined space m m'"
proof -
  have "\<exists>k. k < 4096 \<and> x = f + of_nat k"
    if "i + length bs \<le> 4096" "unat (x - (f + of_nat i)) < length bs" for x
    using that by (intro exI [of _ "i + unat (x - (f + of_nat i))"]) (simp add: of_nat_unat)
  then show ?thesis
    using assms by (auto simp: confined_def frame_copy_def ram_write_def BASE_PAGE_SIZE_def split: if_splits) blast
qed

lemma write_loop_confined:
  "write_loop ea it off bs m = (r, m') \<Longrightarrow> confined (view_space (iter_view it)) m m'"
proof (induction ea it off bs m arbitrary: r m' rule: write_loop.induct)
  case (1 ea it off bs m)
  show ?case
  proof (cases "fst (frame_iter_next ea m it)")
    case (Ok f)
    obtain g where g: "find_host_frame (view_space (iter_view it)) g m = Ok f" using frame_iter_next_frame [OF Ok] by blast
    show ?thesis
    proof (cases "off + length bs \<le> BASE_PAGE_SIZE")
      case True
      then show ?thesis using 1(2) Ok frame_copy_confined [OF g] by (simp add: write_loop.simps [of ea it] lift_state_def bind_state_def)
    next
      case False
      obtain r1 m1 where one: "frame_copy f off (take (BASE_PAGE_SIZE - off) bs) m = (r1, m1)" by fastforce
      note first = frame_copy_confined [OF g one]
      have view: "iter_view (snd (frame_iter_next ea m it)) = iter_view it" by (simp add: frame_iter_next_def Let_def)
      show ?thesis
      proof (cases "r1 = Ok ()")
        case True
        then have rest: "write_loop ea (snd (frame_iter_next ea m it)) 0 (drop (BASE_PAGE_SIZE - off) bs) m1 = (r, m')"
          using 1(2) Ok False one by (simp add: write_loop.simps [of ea it] lift_state_def bind_state_def)
        have "lift_state (fst (frame_iter_next ea m it)) m = (Ok f, m)" using Ok by (simp add: lift_state_def)
        from 1(1) [OF this False rest] show ?thesis using first view confined_trans by simp
      next
        case bad: False
        then show ?thesis
          using 1(2) Ok False one first by (auto simp: write_loop.simps [of ea it] lift_state_def bind_state_def split: outcome.splits)
      qed
    qed
  qed (use 1(2) in \<open>simp_all add: write_loop.simps [of ea it] lift_state_def bind_state_def\<close>)
qed

lemma view_write_bytes_confined:
  "view_write_bytes ea view addr bs acc m = (r, m') \<Longrightarrow> confined (view_space view) m m'"
  using write_loop_confined by (fastforce simp: view_write_bytes_def write_bytes_def frame_iter_def)

section \<open>Devices\<close>

lemma dma_confined:
  "confined (view_space view) m (snd (snd (perform_dma_transfer ea view (d, m))))"
proof -
  have wr: "confined (view_space view) m b \<Longrightarrow> confined (view_space view) m (snd (view_write_bytes ea view a bs acc b))"
    for a bs acc b
    using view_write_bytes_confined [of ea view a bs acc b] confined_trans by (metis surjective_pairing)
  show ?thesis
    unfolding perform_dma_transfer_def Let_def case_prod_beta fst_conv snd_conv
    by (rule bind_state_invariant [where I = "\<lambda>s. confined (view_space view) m (snd s)"], simp, simp add: lift_state_def,
        intro bind_state_invariant [where I = "\<lambda>s. confined (view_space view) m (snd s)"])
       (auto simp: return_state_def split: option.split
          intro!: wr bind_state_invariant [where I = "\<lambda>s. confined (view_space view) m (snd s)"])
qed

lemma fw_write_confined:
  "confined (view_space view) m (snd (snd (fw_on_port_write ea view port val (d, m))))"
proof -
  have dma: "confined (view_space view) m (snd s) \<Longrightarrow>
    confined (view_space view) m (snd (snd (perform_dma_transfer ea view s)))" for s :: "QemuFwCfg \<times> host_mem"
    using dma_confined [of view "snd s" ea "fst s"] confined_trans by fastforce
  show ?thesis
    unfolding fw_on_port_write_def
    by (auto simp: lift_state_def intro!: dma bind_state_invariant [where I = "\<lambda>s. confined (view_space view) m (snd s)"])
qed

text \<open>A handler keeps memory within the space of its event.\<close>

definition tame_handler :: "'d handler \<Rightarrow> bool" where
  "tame_handler h \<longleftrightarrow> (\<forall>d ev. confined (view_space (event_space ev)) (event_mem ev) (event_mem (snd (snd (h (d, ev))))))"

lemma tame_keeps: "keeps (\<lambda>x. event_mem (snd x)) h \<Longrightarrow> tame_handler h"
  by (simp add: keeps_def tame_handler_def)

lemma tame_fw: "tame_handler (fw_on_event ea)"
  using fw_write_confined [of _ _ ea]
  by (auto simp: tame_handler_def fw_on_event_def on_fst_def on_snd_def bind_state_def split: DeviceEvent.splits prod.splits outcome.splits)
     (metis snd_conv)+

lemma keeps_respond [keeps_intros]: "keeps (\<lambda>x. event_mem (snd x)) (respond r)"
  by (auto simp: keeps_def respond_def push_response_def and_then_Ok_iff split: outcome.splits)

lemma keeps_port_handler: "keeps (\<lambda>x. event_mem (snd x)) (port_handler rd wr)"
  by (auto simp: keeps_def port_handler_def on_fst_def on_snd_def bind_state_def
      split: DeviceEvent.splits prod.splits outcome.splits)

lemma keeps_uart_host: "keeps (\<lambda>x. event_mem (snd x)) (uart_host_received key)"
  unfolding uart_host_received_def
  by (intro keeps_intros keeps_pair) (auto simp: keeps_eq [OF keeps_bind [OF keeps_respond keeps_on_fst]])

lemma keeps_uart_transmit:
  "keeps (\<lambda>x. event_mem (snd x)) (bind_state (respond r) (\<lambda>_. bind_state (if b then respond r' else return_state ()) (\<lambda>_. on_fst f)))"
  by (intro keeps_intros)

lemma keeps_uart_write: "keeps (\<lambda>x. event_mem (snd x)) (uart_on_port_write port val)"
  unfolding uart_on_port_write_def
  by (intro keeps_intros keeps_pair) (auto simp: keeps_eq [OF keeps_uart_transmit])

lemma keeps_read_reply:
  "keeps (\<lambda>x. event_mem (snd x)) (bind_state (on_fst f) (\<lambda>val. on_snd (\<lambda>ev. (Ok (), ev\<lparr>event_kind := PortRead port val\<rparr>))))"
  by (intro keeps_intros) (simp add: keeps_def)

lemma keeps_uart: "keeps (\<lambda>x. event_mem (snd x)) uart_on_event"
  unfolding uart_on_event_def
  by (intro keeps_pair)
     (auto simp: keeps_eq [OF keeps_uart_host] keeps_eq [OF keeps_uart_write] keeps_eq [OF keeps_read_reply] split: DeviceEvent.split)

lemma keeps_transmit: "keeps (\<lambda>x. event_mem (snd x)) (bind_state (lift_state y) (\<lambda>b. respond (f b)))"
  by (intro keeps_intros)

lemma keeps_debug: "keeps (\<lambda>x. event_mem (snd x)) debug_on_event"
  unfolding debug_on_event_def by (intro keeps_pair) (auto simp: keeps_eq [OF keeps_transmit] split: DeviceEvent.split)

lemma run_device_tame:
  "tame_handler h \<Longrightarrow> run_device dev h d ev s = (r, dev', ev', s') \<Longrightarrow>
    machines s' = machines s \<and> confined (view_space (event_space ev)) (event_mem ev) (event_mem ev')"
  by (auto simp: run_device_def tame_handler_def split: prod.splits) (metis snd_conv)

lemma run_timed_tame:
  assumes "\<And>port val. keeps (\<lambda>x. machines (snd x)) (rd port val)" "\<And>port val. keeps (\<lambda>x. machines (snd x)) (wr port val)"
    and "run_timed dev (port_handler rd wr) d ev s = (r, dev', ev', s')"
  shows "machines s' = machines s \<and> confined (view_space (event_space ev)) (event_mem ev) (event_mem ev')"
  using assms(3) port_handler_keeps [OF assms(1,2)] by (fastforce simp: run_timed_def split: prod.splits)

lemmas tame_handlers = tame_fw tame_keeps [OF keeps_uart] tame_keeps [OF keeps_debug] tame_keeps [OF keeps_port_handler]

lemma device_on_event_tame:
  assumes "device_on_event p dev ev s = (r, dev', ev', s')"
  shows "machines s' = machines s \<and> confined (view_space (event_space ev)) (event_mem ev) (event_mem ev')"
proof (cases dev)
  case (Dev_Acpi d)
  then show ?thesis
    using assms run_timed_tame [OF keeps_acpi_read] by (fastforce simp: acpi_on_event_def intro: keeps_intros)
next
  case (Dev_Pit d)
  then show ?thesis
    using assms run_timed_tame [OF keeps_pit_read keeps_pit_write] by (fastforce simp: pit_on_event_def)
next
  case Dev_IoApic
  have "tame_handler ioapic_on_event" unfolding ioapic_on_event_def by (intro tame_keeps keeps_intros)
  from run_device_tame [OF this] show ?thesis using assms Dev_IoApic by simp
qed (use assms run_device_tame [OF tame_handlers(1)] run_device_tame [OF tame_handlers(2)] run_device_tame [OF tame_handlers(3)]
     run_device_tame [OF tame_handlers(4)] in
     \<open>simp_all add: vga_on_event_def pci_on_event_def pic_on_event_def keyboard_on_event_def rtc_on_event_def\<close>)

section \<open>Dispatch\<close>

text \<open>
  An access of a guest to a device changes bytes of host memory only within frames that the guest's own nested page
  table maps, and changes no page table and no machine except for the one device that serves the port or the address.
\<close>

lemma dispatch_event_isolated:
  assumes "dispatch_event p v x kind vmcs (rs, s) = (r, rs', s')"
  shows "s' = s \<or> (\<exists>i dev s1 m. find_device x (virtual_device_map (vms s ! v)) = Some i \<and> machines s1 = machines s \<and>
    confined (guest_space (vms s ! v)) (memory s) m \<and> s' = put_device v i dev (s1\<lparr>memory := m\<rparr>))"
proof (cases "find_device x (virtual_device_map (vms s ! v))")
  case None
  then show ?thesis using assms by (auto simp: dispatch_event_def split: DeviceEvent.splits)
next
  case (Some i)
  show ?thesis
  proof (cases "view_from_vmcs vmcs (guest_space (vms s ! v))")
    case (Ok view)
    let ?ev = "\<lparr>event_kind = kind, event_space = view, event_responses = rs, event_mem = memory s\<rparr>"
    obtain r1 dev ev s1 where d: "device_on_event p (vm_devices (vms s ! v) ! i) ?ev s = (r1, dev, ev, s1)"
      by (metis prod_cases4)
    have "s' = put_device v i dev (s1\<lparr>memory := event_mem ev\<rparr>)"
      using assms Some Ok d by (simp add: dispatch_event_def bind_state_def lift_state_def)
    moreover have "view_space view = guest_space (vms s ! v)" using Ok by (auto simp: view_from_vmcs_def and_then_Ok_iff)
    then have "machines s1 = machines s" "confined (guest_space (vms s ! v)) (memory s) (event_mem ev)"
      using device_on_event_tame [OF d] by simp_all
    ultimately show ?thesis using Some by blast
  qed (use assms Some in \<open>auto simp: dispatch_event_def bind_state_def lift_state_def\<close>)
qed

end
