(* ===== verification/Acpi.thy ===== *)
theory Acpi
  imports Errors
begin

text \<open>
  ACPI tables: checksums and generic addresses (\<open>acpi/mod.rs\<close>), the root pointer
  (\<open>acpi/rsdp.rs\<close>), and the description tables with their builder (\<open>acpi/rsdt.rs\<close>).

  Tables are read through raw pointers: \<open>mem\<close> is the physical memory, and a slice made
  from a pointer is the list of the bytes there. A growing \<open>ArrayVec\<close> is a list with a
  capacity, and a method that fills one returns the longer list.
\<close>

section \<open>Checksums and addresses\<close>

definition phys_bytes :: "(u64 \<Rightarrow> u8) \<Rightarrow> u64 \<Rightarrow> nat \<Rightarrow> u8 list" where
  "phys_bytes mem a n = map (\<lambda>i. mem (a + of_nat i)) [0..<n]"

definition read_le :: "u8 list \<Rightarrow> nat \<Rightarrow> nat \<Rightarrow> ('a::len word) res" where
  "read_le bs i j = and_then (slice_range bs i j) (\<lambda>sl. Ok (from_le_bytes sl))"

definition try_extend :: "nat \<Rightarrow> u8 list \<Rightarrow> u8 list \<Rightarrow> u8 list res" where
  "try_extend cap buffer bs = (if length buffer + length bs \<le> cap then Ok (buffer @ bs) else Err Exhausted)"

definition verify_checksum :: "u8 list \<Rightarrow> nat \<Rightarrow> unit res" where
  "verify_checksum bytes cksum_idx =
    (let result = fold (\<lambda>val acc. acc + ucast val) bytes (0 :: u64)
     in if result AND 0xff = 0 then Ok () else and_then (index_at bytes cksum_idx) (\<lambda>_. Err InvalidValue))"

definition calc_checksum :: "u8 list \<Rightarrow> u8" where
  "calc_checksum bytes =
    (let sum = fold (\<lambda>val acc. acc + val) bytes (0 :: u8)
     in ucast (0x100 - (ucast sum :: u16)))"

definition GAS_SIZE :: nat where "GAS_SIZE = 12"

datatype AddressSpaceID =
    SystemMemory | SystemIO | PCIConfiguration | EmbeddedController | SMBus | SystemCMOS
  | PciBarTarget | IPMI | GPIO | GenericSerialBus | PlatformCommunicationsChannel
  | FunctionalFixedHardware

primrec address_space_code :: "AddressSpaceID \<Rightarrow> u8" where
  "address_space_code SystemMemory = 0x00"
| "address_space_code SystemIO = 0x01"
| "address_space_code PCIConfiguration = 0x02"
| "address_space_code EmbeddedController = 0x03"
| "address_space_code SMBus = 0x04"
| "address_space_code SystemCMOS = 0x05"
| "address_space_code PciBarTarget = 0x06"
| "address_space_code IPMI = 0x07"
| "address_space_code GPIO = 0x08"
| "address_space_code GenericSerialBus = 0x09"
| "address_space_code PlatformCommunicationsChannel = 0x0a"
| "address_space_code FunctionalFixedHardware = 0x7f"

definition address_spaces :: "AddressSpaceID list" where
  "address_spaces =
    [SystemMemory, SystemIO, PCIConfiguration, EmbeddedController, SMBus, SystemCMOS, PciBarTarget,
     IPMI, GPIO, GenericSerialBus, PlatformCommunicationsChannel, FunctionalFixedHardware]"

datatype AccessSize = UndefinedAccess | ByteAccess | WordAccess | DWordAccess | QWordAccess

primrec access_size_code :: "AccessSize \<Rightarrow> u8" where
  "access_size_code UndefinedAccess = 0x00"
| "access_size_code ByteAccess = 0x01"
| "access_size_code WordAccess = 0x02"
| "access_size_code DWordAccess = 0x03"
| "access_size_code QWordAccess = 0x04"

definition access_sizes :: "AccessSize list" where
  "access_sizes = [UndefinedAccess, ByteAccess, WordAccess, DWordAccess, QWordAccess]"

record GenericAddressStructure =
  address_space :: AddressSpaceID
  bit_width :: u8
  bit_offset :: u8
  access_size :: AccessSize
  gas_address :: u64

text \<open>
  \<open>cpuid_64bit\<close> is what the processor reports in its extended function information: the
  64-bit mode flag, or None if the processor has no such information.
\<close>

definition gas_new :: "bool option \<Rightarrow> u8 list \<Rightarrow> GenericAddressStructure res" where
  "gas_new cpuid_64bit bytes =
    (if length bytes \<noteq> GAS_SIZE then Err InvalidValue
     else
       and_then (enum_from address_spaces address_space_code (bytes ! 0)) (\<lambda>space.
       and_then (enum_from access_sizes access_size_code (bytes ! 3)) (\<lambda>size.
       let address = from_le_bytes (slice 4 12 bytes);
           gas = \<lparr>address_space = space, bit_width = bytes ! 1, bit_offset = bytes ! 2,
                  access_size = size, gas_address = address\<rparr>
       in if space = SystemMemory \<or> space = SystemIO
          then and_then (ok_or NotSupported cpuid_64bit) (\<lambda>is_64bit.
            if \<not> is_64bit \<and> drop_bit 32 address AND 0xffffffff \<noteq> 0 then Err InvalidValue else Ok gas)
          else Ok gas)))"

section \<open>Description tables\<close>

record SDT =
  sdt_signature :: "u8 list"
  sdt_length :: u32
  sdt_revision :: u8
  sdt_table :: "u8 list"

text \<open>The end of the header, the field \<open>CREATOR_REVISION\<close>.\<close>

definition SDT_HEADER :: nat where "SDT_HEADER = 36"

definition sdt_new :: "(u64 \<Rightarrow> u8) \<Rightarrow> u64 \<Rightarrow> SDT res" where
  "sdt_new mem addr =
    (let header = phys_bytes mem addr SDT_HEADER;
         len = from_le_bytes (slice 4 8 header) :: u32;
         bytes = phys_bytes mem addr (unat len)
     in and_then (verify_checksum bytes 9) (\<lambda>_.
        and_then (slice_from bytes SDT_HEADER) (\<lambda>table.
          Ok \<lparr>sdt_signature = slice 0 4 header, sdt_length = len, sdt_revision = header ! 8, sdt_table = table\<rparr>)))"

datatype RSDT = RSDT SDT | XSDT SDT

definition new_rsdt :: "(u64 \<Rightarrow> u8) \<Rightarrow> u64 \<Rightarrow> RSDT res" where
  "new_rsdt mem addr = and_then (sdt_new mem addr) (\<lambda>sdt. Ok (RSDT sdt))"

definition new_xsdt :: "(u64 \<Rightarrow> u8) \<Rightarrow> u64 \<Rightarrow> RSDT res" where
  "new_xsdt mem addr = and_then (sdt_new mem addr) (\<lambda>sdt. Ok (XSDT sdt))"

definition sdt_len :: "SDT \<Rightarrow> u64" where
  "sdt_len sdt = ucast (sdt_length sdt) - of_nat SDT_HEADER"

primrec num_entries :: "RSDT \<Rightarrow> u64" where
  "num_entries (XSDT sdt) = sdt_len sdt div 8"
| "num_entries (RSDT sdt) = sdt_len sdt div 4"

datatype RSDTIterator = RSDTIterator "u8 list" nat | XSDTIterator "u8 list" nat

primrec rsdt_entries :: "RSDT \<Rightarrow> RSDTIterator" where
  "rsdt_entries (RSDT sdt) = RSDTIterator (sdt_table sdt) 0"
| "rsdt_entries (XSDT sdt) = XSDTIterator (sdt_table sdt) 0"

primrec rsdt_next :: "(u64 \<Rightarrow> u8) \<Rightarrow> RSDTIterator \<Rightarrow> (SDT res \<times> RSDTIterator) option" where
  "rsdt_next mem (RSDTIterator table offset) =
    (if offset + 4 \<le> length table
     then Some (sdt_new mem (ucast (from_le_bytes (slice offset (offset + 4) table) :: u32)), RSDTIterator table (offset + 4))
     else None)"
| "rsdt_next mem (XSDTIterator table offset) =
    (if offset + 8 \<le> length table
     then Some (sdt_new mem (from_le_bytes (slice offset (offset + 8) table)), XSDTIterator table (offset + 8))
     else None)"

primrec rsdt_remaining :: "RSDTIterator \<Rightarrow> nat" where
  "rsdt_remaining (RSDTIterator table offset) = length table - offset"
| "rsdt_remaining (XSDTIterator table offset) = length table - offset"

lemma rsdt_next_remaining: "rsdt_next mem it = Some (r, it') \<Longrightarrow> rsdt_remaining it' < rsdt_remaining it"
  by (cases it) (auto split: if_splits)

text \<open>\<open>entries().find(..)\<close>; an entry that is not a table is passed over.\<close>

function rsdt_find :: "(u64 \<Rightarrow> u8) \<Rightarrow> u8 list \<Rightarrow> RSDTIterator \<Rightarrow> SDT res" where
  "rsdt_find mem signature it =
    (case rsdt_next mem it of
       None \<Rightarrow> Err NotFound
     | Some (Ok entry, it') \<Rightarrow> if sdt_signature entry = signature then Ok entry else rsdt_find mem signature it'
     | Some (Err _, it') \<Rightarrow> rsdt_find mem signature it'
     | Some (Panic, _) \<Rightarrow> Panic
     | Some (Undefined, _) \<Rightarrow> Undefined)"
  by pat_completeness auto

termination
  by (relation "measure (\<lambda>(_, _, it). rsdt_remaining it)") (auto dest: rsdt_next_remaining)

declare rsdt_find.simps [simp del]

definition find_entry :: "(u64 \<Rightarrow> u8) \<Rightarrow> RSDT \<Rightarrow> u8 list \<Rightarrow> SDT res" where
  "find_entry mem rsdt signature = rsdt_find mem signature (rsdt_entries rsdt)"

section \<open>The root pointer\<close>

definition EXTENDED_BIOS_DATA_START :: u64 where "EXTENDED_BIOS_DATA_START = 0x40e"
definition EXTENDED_BIOS_DATA_SIZE :: nat where "EXTENDED_BIOS_DATA_SIZE = 0x800"
definition MAIN_BIOS_DATA_START :: u64 where "MAIN_BIOS_DATA_START = 0xe0000"
definition MAIN_BIOS_DATA_SIZE :: nat where "MAIN_BIOS_DATA_SIZE = 0x20000"

definition RSDP_SIGNATURE :: "u8 list" where
  "RSDP_SIGNATURE = [0x52, 0x53, 0x44, 0x20, 0x50, 0x54, 0x52, 0x20]"

definition RSDP_V1_SIZE :: nat where "RSDP_V1_SIZE = 20"
definition RSDP_V2_SIZE :: nat where "RSDP_V2_SIZE = 36"

datatype RSDP = RSDP_V1 (rsdp_oemid: "u8 list") u32 | RSDP_V2 (rsdp_oemid: "u8 list") u64

definition verify_rsdp_checksum :: "u8 list \<Rightarrow> unit res" where
  "verify_rsdp_checksum bytes =
    and_then (slice_range bytes 0 RSDP_V1_SIZE) (\<lambda>v1.
    and_then (verify_checksum v1 8) (\<lambda>_.
    and_then (index_at bytes 15) (\<lambda>revision.
      if revision = 0 then Ok ()
      else if revision = 2 then and_then (slice_range bytes 0 RSDP_V2_SIZE) (\<lambda>v2. verify_checksum v2 32)
      else Err InvalidValue)))"

definition rsdp_from_bytes :: "u8 list \<Rightarrow> RSDP res" where
  "rsdp_from_bytes bytes =
    and_then (slice_range bytes 9 15) (\<lambda>oemid.
    and_then (read_le bytes 16 20) (\<lambda>rsdt_addr.
    and_then (index_at bytes 15) (\<lambda>revision.
    and_then
      (if revision = 0 then Ok (RSDP_V1 oemid rsdt_addr)
       else if revision = 2 then and_then (read_le bytes 24 32) (\<lambda>xsdt_addr. Ok (RSDP_V2 oemid xsdt_addr))
       else Err InvalidValue) (\<lambda>rsdp.
    and_then (verify_rsdp_checksum bytes) (\<lambda>_. Ok rsdp)))))"

text \<open>
  The loop of \<open>search_range\<close> over the given positions; the first one with the signature
  decides.
\<close>

primrec search_at :: "u8 list \<Rightarrow> nat list \<Rightarrow> u8 list res" where
  "search_at region [] = Err NotFound"
| "search_at region (i # positions) =
    and_then (slice_range region i (i + RSDP_V1_SIZE)) (\<lambda>candidate.
      if slice 0 8 candidate = RSDP_SIGNATURE then
        (if candidate ! 15 = 0 then Ok candidate
         else if candidate ! 15 = 2 \<and> i + RSDP_V2_SIZE < length region then slice_range region i (i + RSDP_V2_SIZE)
         else Err InvalidValue)
      else search_at region positions)"

definition search_range :: "u8 list \<Rightarrow> u8 list res" where
  "search_range region =
    (if length region < RSDP_V1_SIZE then Panic
     else search_at region (filter even [0..<length region - RSDP_V1_SIZE]))"

definition rsdp_find :: "(u64 \<Rightarrow> u8) \<Rightarrow> RSDP res" where
  "rsdp_find mem =
    and_then
      (case search_range (phys_bytes mem MAIN_BIOS_DATA_START MAIN_BIOS_DATA_SIZE) of
         Err _ \<Rightarrow> search_range (phys_bytes mem EXTENDED_BIOS_DATA_START EXTENDED_BIOS_DATA_SIZE)
       | r \<Rightarrow> r) rsdp_from_bytes"

primrec rsdp_rsdt :: "(u64 \<Rightarrow> u8) \<Rightarrow> RSDP \<Rightarrow> RSDT res" where
  "rsdp_rsdt mem (RSDP_V1 oemid rsdt_addr) = new_rsdt mem (ucast rsdt_addr)"
| "rsdp_rsdt mem (RSDP_V2 oemid xsdt_addr) = new_xsdt mem xsdt_addr"

section \<open>Building tables\<close>

definition write_sdt_header :: "u8 list \<Rightarrow> u8 \<Rightarrow> u32 \<Rightarrow> nat \<Rightarrow> u8 list \<Rightarrow> u8 list res" where
  "write_sdt_header signature revision creator_revision tlen buffer =
    (if length buffer < tlen then Err InvalidValue
     else
       and_then (slice_range buffer 0 4) (\<lambda>field.
       and_then (copy_from_slice field signature) (\<lambda>_.
       and_then (copy_into buffer 0 signature) (\<lambda>buffer.
       and_then (copy_into buffer 4 (le_bytes 4 (of_nat tlen :: u32))) (\<lambda>buffer.
       and_then (store_at buffer 8 revision) (\<lambda>buffer.
       and_then (copy_into buffer 32 (le_bytes 4 creator_revision)) (\<lambda>buffer.
       store_at buffer 9 (calc_checksum buffer))))))))"

text \<open>
  \<open>encode_sdt\<close> of the trait \<open>SDTBuilder\<close>, for a buffer of capacity \<open>cap\<close>; the methods of
  the implementation are its arguments.
\<close>

definition encode_sdt ::
  "u8 list \<Rightarrow> u8 \<Rightarrow> u32 \<Rightarrow> (u8 list \<Rightarrow> u8 list res) \<Rightarrow> nat \<Rightarrow> u8 list \<Rightarrow> (u8 list \<times> nat) res" where
  "encode_sdt signature revision creator_revision encode_table cap buffer =
    and_then (try_extend cap buffer (replicate SDT_HEADER 0)) (\<lambda>buffer.
    and_then (encode_table buffer) (\<lambda>buffer.
    and_then (write_sdt_header signature revision creator_revision (length buffer) buffer) (\<lambda>buffer.
      Ok (buffer, length buffer))))"

section \<open>Lemmas\<close>

definition byte_sum :: "u8 list \<Rightarrow> nat" where
  "byte_sum bs = sum_list (map unat bs)"

lemma fold_sum_words: "fold (\<lambda>val acc. acc + ucast val) bs (w :: 'a::len word) = w + of_nat (byte_sum bs)"
proof (induction bs arbitrary: w)
  case (Cons b bs)
  have "(ucast b :: 'a word) = of_nat (unat b)" by simp
  then show ?case by (simp add: Cons byte_sum_def ac_simps)
qed (simp add: byte_sum_def)

lemma low_byte_zero: "(of_nat n :: u64) AND 0xff = 0 \<longleftrightarrow> 256 dvd n"
proof -
  have "(of_nat n :: u64) AND 0xff = take_bit 8 (of_nat n)"
    by (simp add: take_bit_eq_mask mask_eq_exp_minus_1)
  also have "\<dots> = of_nat (take_bit 8 n)" by (simp add: of_nat_take_bit)
  also have "\<dots> = 0 \<longleftrightarrow> take_bit 8 n = 0"
    using take_bit_nat_less_exp [of 8 n] by (auto simp: word_of_nat_eq_0_iff dest: dvd_imp_le)
  also have "\<dots> \<longleftrightarrow> 256 dvd n" by (simp add: take_bit_eq_mod dvd_eq_mod_eq_0)
  finally show ?thesis .
qed

lemma verify_checksum_Ok: "verify_checksum bs i = Ok () \<longleftrightarrow> 256 dvd byte_sum bs"
  by (simp add: verify_checksum_def Let_def fold_sum_words low_byte_zero index_at_def)

lemma calc_checksum_eq: "calc_checksum bs = - of_nat (byte_sum bs)"
proof -
  have "fold (\<lambda>val acc. acc + val) bs (0 :: u8) = of_nat (byte_sum bs)"
    using fold_sum_words [of bs "0 :: u8"] by (simp add: ucast_id)
  moreover have "ucast (0x100 - (ucast w :: u16)) = - w" for w :: u8
  proof -
    have w: "unat w < 256" using unat_bound [of w] by simp
    then have "unat (0x100 - (ucast w :: u16)) = 256 - unat w"
      by (simp add: unat_sub_if' unsigned_ucast_eq take_bit_nat_eq_self)
    then have "(ucast (0x100 - (ucast w :: u16)) :: u8) = of_nat (256 - unat w)"
      by (metis of_nat_unat)
    also have "\<dots> = - w" using w by (simp add: of_nat_diff)
    finally show ?thesis .
  qed
  ultimately show ?thesis by (simp add: calc_checksum_def)
qed

lemma checksum_store:
  assumes "i < length bs" "bs ! i = 0"
  shows "256 dvd byte_sum (bs[i := calc_checksum bs])"
proof -
  have "byte_sum (bs[i := calc_checksum bs]) = byte_sum bs + unat (calc_checksum bs)"
    using assms by (simp add: byte_sum_def map_update sum_list_update)
  then have "(of_nat (byte_sum (bs[i := calc_checksum bs])) :: u8) = 0"
    by (simp add: calc_checksum_eq)
  then show ?thesis by (simp add: word_of_nat_eq_0_iff)
qed

text \<open>A table with its header and the checksum byte \<open>c\<close>.\<close>

definition sdt_bytes :: "u8 list \<Rightarrow> nat \<Rightarrow> u8 \<Rightarrow> u8 \<Rightarrow> u32 \<Rightarrow> u8 list \<Rightarrow> u8 list" where
  "sdt_bytes signature n revision c creator_revision body =
    signature @ le_bytes 4 (of_nat n :: u32) @ [revision, c] @ replicate 22 0 @ le_bytes 4 creator_revision @ body"

lemma sdt_bytes_store:
  assumes "length signature = 4"
  shows "9 < length (sdt_bytes signature n revision c crev body)" "sdt_bytes signature n revision c crev body ! 9 = c"
    "(sdt_bytes signature n revision c crev body)[9 := v] = sdt_bytes signature n revision v crev body"
  using assms by (simp_all add: sdt_bytes_def nth_append list_update_append numeral_eq_Suc)

lemma write_sdt_header_eq:
  assumes "length signature = 4" "n \<le> 36 + length body"
  shows "write_sdt_header signature revision crev n (replicate SDT_HEADER 0 @ body) =
    Ok (sdt_bytes signature n revision (calc_checksum (sdt_bytes signature n revision 0 crev body)) crev body)"
proof -
  let ?le = "le_bytes 4 (of_nat n :: u32)"
  have 1: "copy_into (replicate 36 0 @ body) 0 signature = Ok (signature @ replicate 32 0 @ body)"
    using assms(1) by (simp add: copy_into_def splice_def)
  have 2: "copy_into (signature @ replicate 32 0 @ body) 4 ?le = Ok (signature @ ?le @ replicate 28 0 @ body)"
    using assms(1) by (simp add: copy_into_def splice_def)
  have 3: "store_at (signature @ ?le @ replicate 28 0 @ body) 8 revision =
      Ok (signature @ ?le @ revision # replicate 27 0 @ body)"
    using assms(1) by (simp add: store_at_def list_update_append numeral_eq_Suc)
  have 4: "copy_into (signature @ ?le @ revision # replicate 27 0 @ body) 32 (le_bytes 4 crev) =
      Ok (sdt_bytes signature n revision 0 crev body)"
    using assms(1) by (simp add: copy_into_def splice_def sdt_bytes_def take_Cons' drop_Cons' numeral_eq_Suc)
  have 5: "store_at (sdt_bytes signature n revision 0 crev body) 9 v = Ok (sdt_bytes signature n revision v crev body)" for v
    using assms(1) by (simp add: store_at_def sdt_bytes_store)
  show ?thesis
    using assms by (simp add: write_sdt_header_def slice_range_def copy_from_slice_def 1 2 3 4 5 SDT_HEADER_def)
qed

lemma sdt_new_bytes:
  assumes "length signature = 4" "phys_bytes mem a (36 + length body) = sdt_bytes signature (36 + length body) revision c crev body"
    and "256 dvd byte_sum (sdt_bytes signature (36 + length body) revision c crev body)" "36 + length body < 2 ^ 32"
  shows "sdt_new mem a =
    Ok \<lparr>sdt_signature = signature, sdt_length = of_nat (36 + length body), sdt_revision = revision, sdt_table = body\<rparr>"
proof -
  let ?b = "sdt_bytes signature (36 + length body) revision c crev body"
  have h: "phys_bytes mem a 36 = take 36 ?b"
    using arg_cong [OF assms(2), of "take 36"] by (simp add: phys_bytes_def take_map)
  have parts: "slice 0 4 (take 36 ?b) = signature" "slice 4 8 (take 36 ?b) = le_bytes 4 (of_nat (36 + length body) :: u32)"
    "take 36 ?b ! 8 = revision" "drop 36 ?b = body" "length ?b = 36 + length body"
    using assms(1) by (simp_all add: slice_def sdt_bytes_def nth_append)
  have len: "unat (of_nat (36 + length body) :: u32) = 36 + length body"
    using assms(4) by (simp only: unat_of_nat) simp
  have "from_le_bytes (slice 4 8 (take 36 ?b)) = (of_nat (36 + length body) :: u32)"
    unfolding parts by (simp add: from_le_bytes_le_bytes take_bit_word_eq_self)
  then show ?thesis
    using assms(3)
    by (simp only: sdt_new_def Let_def SDT_HEADER_def h len assms(2) parts)
       (simp add: verify_checksum_Ok [THEN iffD2] slice_from_def parts)
qed

section \<open>The contract of a table's builder\<close>

text \<open>
  The trait \<open>SDTBuilder\<close>: an implementation has a signature of four bytes, and its
  \<open>encode_table\<close> only appends to the buffer and stays within its capacity.
\<close>

locale sdt_builder =
  fixes signature :: "u8 list" and revision :: u8 and creator_revision :: u32
    and encode_table :: "u8 list \<Rightarrow> u8 list res" and cap :: nat
  assumes signature: "length signature = 4"
    and appends: "encode_table buffer = Ok buffer' \<Longrightarrow> length buffer \<le> cap \<Longrightarrow>
      \<exists>body. buffer' = buffer @ body \<and> length buffer' \<le> cap"
begin

lemma encode_sdt_bytes:
  assumes "encode_sdt signature revision creator_revision encode_table cap [] = Ok (buffer, n)"
  obtains body c where "encode_table (replicate SDT_HEADER 0) = Ok (replicate SDT_HEADER 0 @ body)"
    "n = SDT_HEADER + length body" "n \<le> cap" "length buffer = n"
    "buffer = sdt_bytes signature n revision c creator_revision body" "256 dvd byte_sum buffer"
proof -
  from assms have cap: "SDT_HEADER \<le> cap"
    by (cases "SDT_HEADER \<le> cap") (simp_all add: encode_sdt_def try_extend_def)
  with assms obtain t where t: "encode_table (replicate SDT_HEADER 0) = Ok t"
    by (cases "encode_table (replicate SDT_HEADER 0)") (simp_all add: encode_sdt_def try_extend_def)
  with appends [OF t] cap obtain body where body: "t = replicate SDT_HEADER 0 @ body" "length t \<le> cap" by auto
  let ?b = "\<lambda>c. sdt_bytes signature (36 + length body) revision c creator_revision body"
  have w: "write_sdt_header signature revision creator_revision (36 + length body) (replicate 36 0 @ body) =
      Ok (?b (calc_checksum (?b 0)))"
    using write_sdt_header_eq [OF signature, of "36 + length body" body revision creator_revision] by (simp add: SDT_HEADER_def)
  have len: "length (?b c) = 36 + length body" for c using signature by (simp add: sdt_bytes_def)
  have "encode_sdt signature revision creator_revision encode_table cap [] = Ok (?b (calc_checksum (?b 0)), 36 + length body)"
    using cap t w by (simp add: encode_sdt_def try_extend_def body(1) SDT_HEADER_def len)
  then have buffer: "buffer = ?b (calc_checksum (?b 0))" "n = 36 + length body" using assms by simp_all
  have "256 dvd byte_sum buffer"
    using checksum_store [of 9 "?b 0"] sdt_bytes_store [OF signature] by (simp add: buffer)
  then show ?thesis
    using that [of body "calc_checksum (?b 0)"] t body buffer len by (simp add: SDT_HEADER_def)
qed

text \<open>A table that has been encoded is read back as it was written, wherever it is put.\<close>

lemma encode_sdt_new:
  assumes "encode_sdt signature revision creator_revision encode_table cap [] = Ok (buffer, n)"
    and "phys_bytes mem a n = buffer" "cap < 2 ^ 32"
  obtains body where "encode_table (replicate SDT_HEADER 0) = Ok (replicate SDT_HEADER 0 @ body)"
    "SDT_HEADER + length body \<le> cap"
    "sdt_new mem a =
      Ok \<lparr>sdt_signature = signature, sdt_length = of_nat n, sdt_revision = revision, sdt_table = body\<rparr>"
proof -
  obtain body c where "encode_table (replicate SDT_HEADER 0) = Ok (replicate SDT_HEADER 0 @ body)"
    "n = 36 + length body" "n \<le> cap" "buffer = sdt_bytes signature n revision c creator_revision body" "256 dvd byte_sum buffer"
    using encode_sdt_bytes [OF assms(1)] by (metis SDT_HEADER_def)
  then show ?thesis
    using that sdt_new_bytes [OF signature, of mem a body revision c creator_revision] assms(2,3)
    by (simp add: SDT_HEADER_def)
qed

end

section \<open>Looking up a table\<close>

text \<open>The pointers in a root table from a position on, each of \<open>w\<close> bytes.\<close>

definition pointers :: "nat \<Rightarrow> u8 list \<Rightarrow> nat \<Rightarrow> ('a::len word) list" where
  "pointers w table offset =
    map (\<lambda>k. from_le_bytes (slice (offset + k * w) (offset + k * w + w) table)) [0..<(length table - offset) div w]"

lemma pointers_step:
  assumes "0 < w"
  shows "pointers w table offset =
    (if offset + w \<le> length table
     then from_le_bytes (slice offset (offset + w) table) # pointers w table (offset + w) else [])"
proof (cases "offset + w \<le> length table")
  case True
  then have "(length table - offset) div w = Suc ((length table - (offset + w)) div w)"
    using assms by (simp add: le_div_geq)
  then show ?thesis
    using True by (simp add: pointers_def upt_conv_Cons map_Suc_upt [symmetric] ac_simps del: upt_Suc map_Suc_upt)
next
  case False
  then have "length table - offset < w" using assms by linarith
  with False show ?thesis by (simp add: pointers_def)
qed

primrec table_pointers :: "RSDT \<Rightarrow> u64 list" where
  "table_pointers (RSDT sdt) = map ucast (pointers 4 (sdt_table sdt) 0 :: u32 list)"
| "table_pointers (XSDT sdt) = pointers 8 (sdt_table sdt) 0"

primrec first_table :: "u8 list \<Rightarrow> SDT res list \<Rightarrow> SDT res" where
  "first_table signature [] = Err NotFound"
| "first_table signature (r # rs) =
    (case r of
       Ok sdt \<Rightarrow> if sdt_signature sdt = signature then Ok sdt else first_table signature rs
     | Err _ \<Rightarrow> first_table signature rs
     | Panic \<Rightarrow> Panic
     | Undefined \<Rightarrow> Undefined)"

primrec iterator_pointers :: "RSDTIterator \<Rightarrow> u64 list" where
  "iterator_pointers (RSDTIterator table offset) = map ucast (pointers 4 table offset :: u32 list)"
| "iterator_pointers (XSDTIterator table offset) = pointers 8 table offset"

lemma rsdt_next_pointers:
  "rsdt_next mem it = None \<Longrightarrow> iterator_pointers it = []"
  "rsdt_next mem it = Some (r, it') \<Longrightarrow> \<exists>p. iterator_pointers it = p # iterator_pointers it' \<and> r = sdt_new mem p"
proof -
  show "rsdt_next mem it = None \<Longrightarrow> iterator_pointers it = []"
    by (cases it) (simp_all add: pointers_def split: if_splits)
  show "rsdt_next mem it = Some (r, it') \<Longrightarrow> \<exists>p. iterator_pointers it = p # iterator_pointers it' \<and> r = sdt_new mem p"
  proof (cases it)
    case (RSDTIterator table offset)
    then show "rsdt_next mem it = Some (r, it') \<Longrightarrow> ?thesis"
      using pointers_step [of 4 table offset, where ?'a = 32] by (auto split: if_splits)
  next
    case (XSDTIterator table offset)
    then show "rsdt_next mem it = Some (r, it') \<Longrightarrow> ?thesis"
      using pointers_step [of 8 table offset, where ?'a = 64] by (auto split: if_splits)
  qed
qed

lemma rsdt_find_first: "rsdt_find mem signature it = first_table signature (map (sdt_new mem) (iterator_pointers it))"
proof (induction "rsdt_remaining it" arbitrary: it rule: less_induct)
  case less
  show ?case
  proof (cases "rsdt_next mem it")
    case None
    then show ?thesis by (subst rsdt_find.simps) (simp add: rsdt_next_pointers(1))
  next
    case (Some a)
    then obtain r it' where a: "rsdt_next mem it = Some (r, it')" by (cases a) auto
    then obtain p where "iterator_pointers it = p # iterator_pointers it'" "r = sdt_new mem p"
      using rsdt_next_pointers(2) by blast
    then show ?thesis
      using less [OF rsdt_next_remaining [OF a]]
      by (subst rsdt_find.simps) (simp add: a split: outcome.splits)
  qed
qed

section \<open>Properties\<close>

text \<open>
  C30: A table is accepted exactly when its bytes sum to a multiple of 256, and the byte that makes them so
  is the one \<open>calc_checksum\<close> gives for the table with a zero in its place. Every other byte there is an error.
\<close>

theorem checksum_exact:
  assumes "i < length bs"
  shows "verify_checksum bs i = (if 256 dvd sum_list (map unat bs) then Ok () else Err InvalidValue) \<and>
    verify_checksum (bs[i := c]) i = (if c = calc_checksum (bs[i := 0]) then Ok () else Err InvalidValue)"
proof -
  have sum: "verify_checksum xs i = (if 256 dvd byte_sum xs then Ok () else Err InvalidValue)" if "i < length xs" for xs
    using that by (auto simp: verify_checksum_def Let_def fold_sum_words low_byte_zero index_at_def)
  have s: "byte_sum (bs[i := v]) = byte_sum (bs[i := 0]) + unat v" for v
    using assms elem_le_sum_list [of i "map unat bs"] by (simp add: byte_sum_def map_update sum_list_update)
  have "256 dvd byte_sum (bs[i := c]) \<longleftrightarrow> (of_nat (byte_sum (bs[i := c])) :: u8) = 0"
    by (simp add: word_of_nat_eq_0_iff)
  also have "\<dots> \<longleftrightarrow> c = calc_checksum (bs[i := 0])"
    by (simp add: s [of c] calc_checksum_eq eq_neg_iff_add_eq_0 add.commute)
  finally show ?thesis using sum [of bs] sum [of "bs[i := c]"] assms by (simp add: byte_sum_def)
qed

theorem checksum_exact_witness:
  "verify_checksum ([1, 2, 0xff][2 := 0xfd]) 2 = Ok () \<and> verify_checksum ([1, 2, 0xff][2 := 0xfc]) 2 = Err InvalidValue \<and>
   verify_checksum [1, 2, 0xff] 2 = Err InvalidValue"
proof -
  have "calc_checksum ([1, 2, 0xff][2 := 0]) = 0xfd" "\<not> (256 :: nat) dvd sum_list (map unat [1, 2, 0xff :: u8])" by code_simp+
  then show ?thesis
    using checksum_exact [of 2 "[1, 2, 0xff]" "0xfd"] checksum_exact [of 2 "[1, 2, 0xff]" "0xfc"] by simp
qed

text \<open>
  C31: \<open>find_entry\<close> tries the pointers of the root table in order, 4 bytes each in an RSDT
  and 8 in an XSDT, and returns the first table with the signature; what is not a
  valid table is passed over, and a trailing part of a pointer is ignored.
\<close>

theorem find_entry_first:
  "find_entry mem rsdt signature = first_table signature (map (sdt_new mem) (table_pointers rsdt))"
  by (cases rsdt) (simp_all add: find_entry_def rsdt_find_first)

end
