(* ===== verification/Madt.thy ===== *)
theory Madt
  imports Acpi
begin

text \<open>
  The multiple APIC description table (\<open>acpi/madt.rs\<close>): its interrupt controller
  structures, their iterator and the builder of a guest's table, and the list of
  processors the hypervisor reads from the table at boot (\<open>kmain.rs\<close>).
\<close>

section \<open>Interrupt controller structures\<close>

datatype IcsType =
    IcsType_ProcessorLocalApic | IcsType_IoApic | IcsType_InterruptSourceOverride | IcsType_NmiSource
  | IcsType_LocalApicNmi | IcsType_LocalApicAddressOverride | IcsType_PlatformInterruptSource
  | IcsType_ProcessorLocalX2Apic | IcsType_LocalX2ApicNmi

primrec ics_type_code :: "IcsType \<Rightarrow> u8" where
  "ics_type_code IcsType_ProcessorLocalApic = 0x00"
| "ics_type_code IcsType_IoApic = 0x01"
| "ics_type_code IcsType_InterruptSourceOverride = 0x02"
| "ics_type_code IcsType_NmiSource = 0x03"
| "ics_type_code IcsType_LocalApicNmi = 0x04"
| "ics_type_code IcsType_LocalApicAddressOverride = 0x05"
| "ics_type_code IcsType_PlatformInterruptSource = 0x08"
| "ics_type_code IcsType_ProcessorLocalX2Apic = 0x09"
| "ics_type_code IcsType_LocalX2ApicNmi = 0x0a"

definition ics_types :: "IcsType list" where
  "ics_types =
    [IcsType_ProcessorLocalApic, IcsType_IoApic, IcsType_InterruptSourceOverride, IcsType_NmiSource,
     IcsType_LocalApicNmi, IcsType_LocalApicAddressOverride, IcsType_PlatformInterruptSource,
     IcsType_ProcessorLocalX2Apic, IcsType_LocalX2ApicNmi]"

definition ICS_MAX_LEN :: nat where "ICS_MAX_LEN = 16"

primrec expected_len :: "IcsType \<Rightarrow> u8" where
  "expected_len IcsType_ProcessorLocalApic = 8"
| "expected_len IcsType_IoApic = 12"
| "expected_len IcsType_InterruptSourceOverride = 10"
| "expected_len IcsType_NmiSource = 8"
| "expected_len IcsType_LocalApicNmi = 6"
| "expected_len IcsType_LocalApicAddressOverride = 12"
| "expected_len IcsType_PlatformInterruptSource = 16"
| "expected_len IcsType_ProcessorLocalX2Apic = 16"
| "expected_len IcsType_LocalX2ApicNmi = 12"

definition check_len :: "IcsType \<Rightarrow> nat \<Rightarrow> unit res" where
  "check_len ty len = (if len = unat (expected_len ty) - 2 then Ok () else Err InvalidValue)"

text \<open>The defined bits of the flag types; \<open>from_bits_truncate\<close> keeps them only.\<close>

definition MultipleApicFlags :: u32 where "MultipleApicFlags = 1"
definition LocalApicFlags_ENABLED :: u32 where "LocalApicFlags_ENABLED = 1"
definition LocalApicFlags_ONLINE_CAPABLE :: u32 where "LocalApicFlags_ONLINE_CAPABLE = push_bit 1 1"
definition LocalApicFlags :: u32 where "LocalApicFlags = LocalApicFlags_ENABLED OR LocalApicFlags_ONLINE_CAPABLE"
definition MpsIntiFlags :: u16 where "MpsIntiFlags = 0x0001 OR 0x0003 OR 0x0004 OR 0x000c"

datatype Ics =
    Ics_LocalApic (apic_uid: u8) (ics_apic_id: u8) (apic_flags: u32)
  | Ics_IoApic (ioapic_id: u8) (ioapic_addr: u64) (gsi_base: u32)
  | Ics_InterruptSourceOverride (iso_source: u8) (iso_gsi: u32) (iso_flags: u16)
  | Ics_NmiSource (nmi_flags: u16) (nmi_gsi: u32)
  | Ics_LocalApicNmi (acpi_proc_uid: u8) (local_nmi_flags: u16) (local_apic_lint: u8)
  | Ics_LocalX2Apic (x2apic_id: u32) (x2apic_flags: u32) (apic_proc_uid: u32)
  | Ics_Invalid

definition ics_parse :: "IcsType \<Rightarrow> u8 list \<Rightarrow> Ics res" where
  "ics_parse ty bytes =
    and_then (check_len ty (length bytes)) (\<lambda>_.
    case ty of
      IcsType_ProcessorLocalApic \<Rightarrow>
        Ok (Ics_LocalApic (bytes ! 0) (bytes ! 1) (from_le_bytes (slice 2 6 bytes) AND LocalApicFlags))
    | IcsType_IoApic \<Rightarrow>
        Ok (Ics_IoApic (bytes ! 0) (ucast (from_le_bytes (slice 2 6 bytes) :: u32)) (from_le_bytes (slice 6 10 bytes)))
    | IcsType_InterruptSourceOverride \<Rightarrow>
        Ok (Ics_InterruptSourceOverride (bytes ! 1) (from_le_bytes (slice 2 6 bytes))
          (from_le_bytes (slice 6 8 bytes) AND MpsIntiFlags))
    | IcsType_NmiSource \<Rightarrow>
        Ok (Ics_NmiSource (from_le_bytes (slice 0 2 bytes) AND MpsIntiFlags) (from_le_bytes (slice 2 6 bytes)))
    | IcsType_LocalApicNmi \<Rightarrow>
        Ok (Ics_LocalApicNmi (bytes ! 0) (from_le_bytes (slice 1 3 bytes) AND MpsIntiFlags) (bytes ! 3))
    | IcsType_ProcessorLocalX2Apic \<Rightarrow>
        Ok (Ics_LocalX2Apic (from_le_bytes (slice 2 6 bytes)) (from_le_bytes (slice 6 10 bytes) AND LocalApicFlags)
          (from_le_bytes (slice 10 14 bytes)))
    | _ \<Rightarrow> Err NotImplemented)"

primrec ics_type :: "Ics \<Rightarrow> IcsType res" where
  "ics_type (Ics_LocalApic u i f) = Ok IcsType_ProcessorLocalApic"
| "ics_type (Ics_IoApic i a g) = Ok IcsType_IoApic"
| "ics_type (Ics_InterruptSourceOverride s g f) = Ok IcsType_InterruptSourceOverride"
| "ics_type (Ics_NmiSource f g) = Ok IcsType_NmiSource"
| "ics_type (Ics_LocalApicNmi u f l) = Ok IcsType_LocalApicNmi"
| "ics_type (Ics_LocalX2Apic i f u) = Ok IcsType_ProcessorLocalX2Apic"
| "ics_type Ics_Invalid = Panic"

definition ics_encode :: "nat \<Rightarrow> Ics \<Rightarrow> u8 list \<Rightarrow> u8 list res" where
  "ics_encode cap ics buffer =
    and_then (ics_type ics) (\<lambda>ty.
    let tmp_buf = (replicate ICS_MAX_LEN 0)[1 := expected_len ty, 0 := ics_type_code ty] in
    and_then
      (case ics of
         Ics_LocalApic uid aid flags \<Rightarrow> Ok (splice 4 (le_bytes 4 flags) (tmp_buf[2 := uid, 3 := aid]))
       | Ics_IoApic iid addr gsi \<Rightarrow>
           if addr \<le> 0xffffffff
           then Ok (splice 8 (le_bytes 4 gsi) (splice 4 (le_bytes 4 (ucast addr :: u32)) (tmp_buf[2 := iid])))
           else Err InvalidValue
       | _ \<Rightarrow> Err NotImplemented)
      (\<lambda>tmp_buf. try_extend cap buffer (take (unat (expected_len ty)) tmp_buf)))"

section \<open>The table and its iterator\<close>

record MADT =
  madt_sdt :: SDT
  madt_ica :: u64
  madt_flags :: u32
  madt_ics :: "u8 list"

definition madt_new :: "SDT \<Rightarrow> MADT res" where
  "madt_new sdt =
    and_then (read_le (sdt_table sdt) 0 4) (\<lambda>ica :: u32.
    and_then (read_le (sdt_table sdt) 4 8) (\<lambda>flags.
    and_then (slice_from (sdt_table sdt) 8) (\<lambda>ics.
      Ok \<lparr>madt_sdt = sdt, madt_ica = ucast ica, madt_flags = flags AND MultipleApicFlags, madt_ics = ics\<rparr>)))"

text \<open>\<open>IcsIterator::next\<close>. An item that cannot be framed is reported and not skipped.\<close>

definition ics_next :: "u8 list \<Rightarrow> (Ics res \<times> u8 list) option" where
  "ics_next bytes =
    (if length bytes < 2 then None
     else
       case try_from_primitive ics_types ics_type_code (bytes ! 0) of
         None \<Rightarrow> Some (Err InvalidValue, bytes)
       | Some ty \<Rightarrow>
           let len = unat (bytes ! 1) in
           if length bytes < len then Some (Err InvalidValue, bytes)
           else if len < 3 then Some (Err InvalidValue, bytes)
           else Some (ics_parse ty (slice 2 len bytes), drop len bytes))"

text \<open>
  The loops over \<open>structures()\<close> consume the iterator to its end: here they collect its
  items. None stands for a loop that never ends.
\<close>

partial_function (option) structures :: "u8 list \<Rightarrow> Ics res list option" where
  "structures bytes =
    (case ics_next bytes of
       None \<Rightarrow> Some []
     | Some (ics, rest) \<Rightarrow> Option.bind (structures rest) (\<lambda>items. Some (ics # items)))"

text \<open>The APIC ids \<open>kmain\<close> finds in the table.\<close>

primrec local_apic_id :: "Ics res \<Rightarrow> u32 option" where
  "local_apic_id (Ok ics) = (case ics of Ics_LocalApic uid aid flags \<Rightarrow> Some (ucast aid) | _ \<Rightarrow> None)"
| "local_apic_id (Err e) = None"
| "local_apic_id Panic = None"
| "local_apic_id Undefined = None"

definition madt_apic_ids :: "MADT \<Rightarrow> u32 list option" where
  "madt_apic_ids madt = map_option (List.map_filter local_apic_id) (structures (madt_ics madt))"

section \<open>Building the table\<close>

record MADTBuilder =
  builder_ica :: "u32 option"
  builder_flags :: "u32 option"
  builder_structures :: "Ics list"

definition madt_builder_new :: MADTBuilder where
  "madt_builder_new = \<lparr>builder_ica = None, builder_flags = None, builder_structures = []\<rparr>"

definition set_ica :: "u32 \<Rightarrow> MADTBuilder \<Rightarrow> MADTBuilder" where
  "set_ica ica b = b\<lparr>builder_ica := Some ica\<rparr>"

definition set_flags :: "u32 \<Rightarrow> MADTBuilder \<Rightarrow> MADTBuilder" where
  "set_flags flags b = b\<lparr>builder_flags := Some flags\<rparr>"

definition add_ics :: "nat \<Rightarrow> Ics \<Rightarrow> MADTBuilder \<Rightarrow> MADTBuilder res" where
  "add_ics cap ics b =
    (if length (builder_structures b) < cap then Ok (b\<lparr>builder_structures := builder_structures b @ [ics]\<rparr>)
     else Err Exhausted)"

definition MADT_SIGNATURE :: "u8 list" where "MADT_SIGNATURE = [0x41, 0x50, 0x49, 0x43]"
definition MADT_REVISION :: u8 where "MADT_REVISION = 5"

primrec encode_structures :: "nat \<Rightarrow> Ics list \<Rightarrow> u8 list \<Rightarrow> u8 list res" where
  "encode_structures cap [] buffer = Ok buffer"
| "encode_structures cap (ics # rest) buffer =
    and_then (ics_encode cap ics buffer) (\<lambda>buffer. encode_structures cap rest buffer)"

definition madt_encode_table :: "MADTBuilder \<Rightarrow> nat \<Rightarrow> u8 list \<Rightarrow> u8 list res" where
  "madt_encode_table b cap buffer =
    (let ica = (case builder_ica b of Some ica \<Rightarrow> ica | None \<Rightarrow> 0);
         flags = (case builder_flags b of Some flags \<Rightarrow> flags | None \<Rightarrow> 0)
     in and_then (try_extend cap buffer (le_bytes 4 ica @ le_bytes 4 flags))
          (encode_structures cap (builder_structures b)))"

section \<open>The table of a guest\<close>

text \<open>The part of \<open>build_vm\<close> (\<open>kmain.rs\<close>) that makes the table of a guest from its core ids.\<close>

definition MADT_STRUCTURES :: nat where "MADT_STRUCTURES = 8"

primrec add_local_apics :: "u32 list \<Rightarrow> MADTBuilder \<Rightarrow> MADTBuilder res" where
  "add_local_apics [] b = Ok b"
| "add_local_apics (core # cpus) b =
    and_then (unwrap_ok (add_ics MADT_STRUCTURES (Ics_LocalApic 0 (ucast core) LocalApicFlags_ENABLED) b)) (add_local_apics cpus)"

definition guest_madt :: "u32 list \<Rightarrow> MADTBuilder res" where
  "guest_madt cpus =
    and_then (add_local_apics cpus (set_ica 0xfee00000 madt_builder_new))
      (\<lambda>b. unwrap_ok (add_ics MADT_STRUCTURES (Ics_IoApic 0 0xfec00000 0) b))"

section \<open>Lemmas\<close>

interpretation ics_type_enum: primitive_enum ics_types ics_type_code
proof
  show "ty \<in> set ics_types" for ty by (cases ty) (simp_all add: ics_types_def)
  show "distinct (map ics_type_code ics_types)" by (simp add: ics_types_def)
qed

text \<open>The values of the flag types have no other bits than the defined ones.\<close>

fun ics_typed :: "Ics \<Rightarrow> bool" where
  "ics_typed (Ics_LocalApic uid aid flags) \<longleftrightarrow> flags AND LocalApicFlags = flags"
| "ics_typed ics \<longleftrightarrow> True"

text \<open>The structures the builder can encode, and their bytes.\<close>

definition encodable :: "Ics \<Rightarrow> bool" where
  "encodable ics =
    (case ics of Ics_LocalApic uid aid flags \<Rightarrow> True | Ics_IoApic iid addr gsi \<Rightarrow> addr \<le> 0xffffffff | _ \<Rightarrow> False)"

definition ics_frame :: "Ics \<Rightarrow> u8 list" where
  "ics_frame ics =
    (case ics of
       Ics_LocalApic uid aid flags \<Rightarrow> [0, 8, uid, aid] @ le_bytes 4 flags
     | Ics_IoApic iid addr gsi \<Rightarrow> [1, 12, iid, 0] @ le_bytes 4 (ucast addr :: u32) @ le_bytes 4 gsi
     | _ \<Rightarrow> [])"

lemma ics_encode_eq:
  "encodable ics \<Longrightarrow> ics_encode cap ics buffer = try_extend cap buffer (ics_frame ics)"
  "\<not> encodable ics \<Longrightarrow> ics_encode cap ics buffer \<noteq> Ok buffer'"
proof -
  have l: "take 8 (splice 4 xs ((replicate ICS_MAX_LEN 0)[Suc 0 := n, 0 := t, 2 := a, 3 := b])) = [t, n, a, b] @ xs"
    if "length xs = 4" for xs :: "u8 list" and t n a b
    using that by (simp add: splice_def ICS_MAX_LEN_def numeral_eq_Suc)
  have i: "take 12 (splice 8 ys (splice 4 xs ((replicate ICS_MAX_LEN 0)[Suc 0 := n, 0 := t, 2 := a]))) = [t, n, a, 0] @ xs @ ys"
    if "length xs = 4" "length ys = 4" for xs ys :: "u8 list" and t n a
    using that by (simp add: splice_def ICS_MAX_LEN_def numeral_eq_Suc)
  show "encodable ics \<Longrightarrow> ics_encode cap ics buffer = try_extend cap buffer (ics_frame ics)"
    by (cases ics) (auto simp: ics_encode_def Let_def l i ics_frame_def encodable_def)
  show "\<not> encodable ics \<Longrightarrow> ics_encode cap ics buffer \<noteq> Ok buffer'"
    by (cases ics) (auto simp: ics_encode_def Let_def encodable_def)
qed

lemma ics_encode_frame:
  assumes "ics_encode cap ics buffer = Ok buffer'"
  shows "buffer' = buffer @ ics_frame ics \<and> length buffer' \<le> cap \<and> encodable ics"
  using assms ics_encode_eq [of ics cap buffer]
  by (cases "encodable ics") (auto simp: try_extend_def split: if_splits)

lemma ics_next_frame:
  assumes "ics_typed ics" "encodable ics"
  shows "ics_next (ics_frame ics @ rest) = Some (Ok ics, rest)"
proof -
  have t: "try_from_primitive ics_types ics_type_code 0 = Some IcsType_ProcessorLocalApic"
    "try_from_primitive ics_types ics_type_code 1 = Some IcsType_IoApic"
    using ics_type_enum.try_from_disc [of IcsType_ProcessorLocalApic] ics_type_enum.try_from_disc [of IcsType_IoApic]
    by simp_all
  have w: "from_le_bytes (le_bytes 4 (v :: u32)) = v" for v
    by (simp add: from_le_bytes_le_bytes take_bit_word_eq_self)
  have a: "ucast (ucast a :: u32) = a" if "a \<le> 0xffffffff" for a :: u64
  proof -
    have "take_bit 32 a = a" using that by (intro take_bit_less) (simp_all add: word_less_nat_alt word_le_nat_alt)
    moreover have "ucast (ucast a :: u32) = take_bit 32 a" by (rule bit_word_eqI) (simp add: bit_simps)
    ultimately show ?thesis by simp
  qed
  show ?thesis
    using assms
    by (cases ics) (auto simp: encodable_def ics_next_def ics_frame_def t Let_def ics_parse_def check_len_def slice_def w a)
qed

lemma encode_structures_frames:
  assumes "encode_structures cap ss buffer = Ok buffer'" "length buffer \<le> cap"
  shows "buffer' = buffer @ concat (map ics_frame ss) \<and> length buffer' \<le> cap \<and>
    (\<forall>ics \<in> set ss. encodable ics)"
  using assms
proof (induction ss arbitrary: buffer)
  case (Cons ics ss)
  from Cons(2) obtain b where b: "ics_encode cap ics buffer = Ok b" "encode_structures cap ss b = Ok buffer'"
    by (cases "ics_encode cap ics buffer") simp_all
  note e = ics_encode_frame [OF b(1)]
  from e have "length b \<le> cap" by blast
  from Cons(1) [OF b(2) this] e show ?case by auto
qed simp

lemma encode_structures_Ok:
  assumes "\<forall>ics \<in> set ss. encodable ics" "length buffer + 12 * length ss \<le> cap"
  shows "encode_structures cap ss buffer = Ok (buffer @ concat (map ics_frame ss))"
  using assms
proof (induction ss arbitrary: buffer)
  case (Cons ics ss)
  have "length (ics_frame ics) \<le> 12"
    by (cases ics) (simp_all add: ics_frame_def)
  with Cons show ?case by (simp add: ics_encode_eq(1) try_extend_def)
qed simp

lemma madt_encode_table_frames:
  assumes "madt_encode_table b cap buffer = Ok buffer'" "length buffer \<le> cap"
  shows "buffer' = buffer @ le_bytes 4 (case builder_ica b of Some ica \<Rightarrow> ica | None \<Rightarrow> 0) @
      le_bytes 4 (case builder_flags b of Some flags \<Rightarrow> flags | None \<Rightarrow> 0) @ concat (map ics_frame (builder_structures b)) \<and>
    length buffer' \<le> cap \<and>
    (\<forall>ics \<in> set (builder_structures b). encodable ics)"
proof -
  let ?h = "le_bytes 4 (case builder_ica b of Some ica \<Rightarrow> ica | None \<Rightarrow> 0) @
    le_bytes 4 (case builder_flags b of Some flags \<Rightarrow> flags | None \<Rightarrow> 0)"
  from assms(1) have "length (buffer @ ?h) \<le> cap" "encode_structures cap (builder_structures b) (buffer @ ?h) = Ok buffer'"
    by (simp_all add: madt_encode_table_def Let_def try_extend_def split: if_splits)
  from encode_structures_frames [OF this(2,1)] show ?thesis by auto
qed

interpretation madt_table: sdt_builder MADT_SIGNATURE MADT_REVISION 0 "madt_encode_table b cap" cap for b cap
proof
  show "length MADT_SIGNATURE = 4" by (simp add: MADT_SIGNATURE_def)
  show "\<exists>body. buffer' = buffer @ body \<and> length buffer' \<le> cap"
    if "madt_encode_table b cap buffer = Ok buffer'" "length buffer \<le> cap" for buffer buffer'
    using madt_encode_table_frames [OF that] by auto
qed

lemma structures_frames:
  assumes "\<forall>ics \<in> set ss. ics_typed ics \<and> encodable ics"
  shows "structures (concat (map ics_frame ss)) = Some (map Ok ss)"
  using assms
proof (induction ss)
  case Nil
  show ?case by (subst structures.simps) (simp add: ics_next_def)
next
  case (Cons ics ss)
  then have "ics_next (concat (map ics_frame (ics # ss))) = Some (Ok ics, concat (map ics_frame ss))"
    using ics_next_frame [of ics "concat (map ics_frame ss)"] by simp
  with Cons show ?case by (subst structures.simps) simp
qed

section \<open>When the loops end\<close>

text \<open>The bytes are a sequence of structures, each of a known type and with a length that fits.\<close>

function framed :: "u8 list \<Rightarrow> bool" where
  "framed bytes =
    (if length bytes < 2 then True
     else if bytes ! 0 \<in> set (map ics_type_code ics_types) \<and> 3 \<le> unat (bytes ! 1) \<and> unat (bytes ! 1) \<le> length bytes
     then framed (drop (unat (bytes ! 1)) bytes) else False)"
  by pat_completeness auto

termination
  by (relation "measure length") auto

declare framed.simps [simp del]

lemma range_ics_type_code: "range ics_type_code = set (map ics_type_code ics_types)"
  using ics_type_enum.all_variants by auto

lemma ics_next_cases:
  assumes "2 \<le> length bytes"
  shows "if bytes ! 0 \<in> set (map ics_type_code ics_types) \<and> 3 \<le> unat (bytes ! 1) \<and> unat (bytes ! 1) \<le> length bytes
    then \<exists>r. ics_next bytes = Some (r, drop (unat (bytes ! 1)) bytes)
    else ics_next bytes = Some (Err InvalidValue, bytes)"
  using assms ics_type_enum.try_from_None_iff [of "bytes ! 0"] range_ics_type_code
  by (auto simp: ics_next_def Let_def split: option.splits)

lemma structures_framed: "framed bytes \<Longrightarrow> \<exists>items. structures bytes = Some items"
proof (induction bytes rule: framed.induct)
  case (1 bytes)
  show ?case
  proof (cases "length bytes < 2")
    case True
    then show ?thesis by (subst structures.simps) (simp add: ics_next_def)
  next
    case False
    define ok where "ok \<longleftrightarrow> bytes ! 0 \<in> set (map ics_type_code ics_types) \<and> 3 \<le> unat (bytes ! 1) \<and> unat (bytes ! 1) \<le> length bytes"
    from False 1(2) have f: "ok" "framed (drop (unat (bytes ! 1)) bytes)"
      by (auto simp: framed.simps [of bytes] ok_def split: if_splits)
    then obtain r where "ics_next bytes = Some (r, drop (unat (bytes ! 1)) bytes)"
      using ics_next_cases [of bytes] False by (auto simp: ok_def)
    with 1(1) [OF False f(1) [unfolded ok_def] f(2)] show ?thesis by (subst structures.simps) auto
  qed
qed

lemma framed_structures:
  assumes "structures bytes = Some items"
  shows "framed bytes"
proof (rule structures.raw_induct [of "\<lambda>bytes items. framed bytes", OF _ assms])
  fix f :: "u8 list \<Rightarrow> Ics res list option" and bytes items
  assume f: "\<And>bytes items. f bytes = Some items \<Longrightarrow> framed bytes"
    and step: "(case ics_next bytes of None \<Rightarrow> Some []
      | Some (ics, rest) \<Rightarrow> Option.bind (f rest) (\<lambda>items. Some (ics # items))) = Some items"
  show "framed bytes"
  proof (cases "length bytes < 2")
    case True
    then show ?thesis by (simp add: framed.simps [of bytes])
  next
    case False
    with step obtain r rest items' where n: "ics_next bytes = Some (r, rest)" "f rest = Some items'"
      using ics_next_cases [of bytes] by (auto simp: Option.bind_eq_Some_conv split: if_splits)
    then have rest: "framed rest" using f by blast
    show ?thesis
    proof (cases "rest = bytes")
      case False
      with rest n(1) show ?thesis
        using \<open>\<not> length bytes < 2\<close> ics_next_cases [of bytes] by (auto simp: framed.simps [of bytes] split: if_splits)
    qed (use rest in simp)
  qed
qed

lemma madt_read_back:
  assumes "encode_sdt MADT_SIGNATURE MADT_REVISION 0 (madt_encode_table b cap) cap [] = Ok (buffer, n)"
    and "phys_bytes mem a n = buffer" "cap < 2 ^ 32" "\<forall>ics \<in> set (builder_structures b). ics_typed ics"
  obtains sdt madt where "sdt_new mem a = Ok sdt" "sdt_signature sdt = MADT_SIGNATURE" "madt_new sdt = Ok madt"
    "madt_ica madt = ucast (case builder_ica b of Some ica \<Rightarrow> ica | None \<Rightarrow> 0)"
    "structures (madt_ics madt) = Some (map Ok (builder_structures b))"
proof -
  let ?ica = "case builder_ica b of Some ica \<Rightarrow> ica | None \<Rightarrow> 0" and ?flags = "case builder_flags b of Some flags \<Rightarrow> flags | None \<Rightarrow> 0"
  obtain body where body: "madt_encode_table b cap (replicate SDT_HEADER 0) = Ok (replicate SDT_HEADER 0 @ body)"
    "SDT_HEADER + length body \<le> cap"
    "sdt_new mem a = Ok \<lparr>sdt_signature = MADT_SIGNATURE, sdt_length = of_nat n, sdt_revision = MADT_REVISION, sdt_table = body\<rparr>"
    using madt_table.encode_sdt_new [OF assms(1-3)] .
  then have f: "body = le_bytes 4 ?ica @ le_bytes 4 ?flags @ concat (map ics_frame (builder_structures b))"
    "\<forall>ics \<in> set (builder_structures b). encodable ics"
    using madt_encode_table_frames [OF body(1)] body(2) by auto
  have w: "from_le_bytes (le_bytes 4 (v :: u32)) = v" for v by (simp add: from_le_bytes_le_bytes take_bit_word_eq_self)
  let ?sdt = "\<lparr>sdt_signature = MADT_SIGNATURE, sdt_length = of_nat n, sdt_revision = MADT_REVISION, sdt_table = body\<rparr>"
  have "madt_new ?sdt = Ok \<lparr>madt_sdt = ?sdt, madt_ica = ucast ?ica, madt_flags = ?flags AND MultipleApicFlags,
      madt_ics = concat (map ics_frame (builder_structures b))\<rparr>"
    by (simp add: madt_new_def read_le_def f(1) slice_range_def slice_from_def slice_def w)
  then show ?thesis
    using that [OF body(3)] structures_frames [of "builder_structures b"] f(2) assms(4) by auto
qed

lemma add_local_apics_eq:
  "add_local_apics cs b =
    (if length (builder_structures b) + length cs \<le> MADT_STRUCTURES \<or> cs = []
     then Ok (b\<lparr>builder_structures := builder_structures b @ map (\<lambda>c. Ics_LocalApic 0 (ucast c) LocalApicFlags_ENABLED) cs\<rparr>)
     else Panic)"
  by (induction cs arbitrary: b) (auto simp: add_ics_def)

text \<open>The structures of a guest's table.\<close>

definition guest_structures :: "u32 list \<Rightarrow> Ics list" where
  "guest_structures cpus =
    map (\<lambda>c. Ics_LocalApic 0 (ucast c) LocalApicFlags_ENABLED) cpus @ [Ics_IoApic 0 0xfec00000 0]"

lemma guest_madt_eq:
  "guest_madt cpus =
    (if length cpus < MADT_STRUCTURES
     then Ok \<lparr>builder_ica = Some 0xfee00000, builder_flags = None, builder_structures = guest_structures cpus\<rparr> else Panic)"
  by (auto simp: guest_madt_def add_local_apics_eq add_ics_def set_ica_def madt_builder_new_def guest_structures_def
      MADT_STRUCTURES_def)

lemma guest_structures_ok:
  "ics \<in> set (guest_structures cpus) \<Longrightarrow> ics_typed ics \<and> encodable ics"
  by (auto simp: guest_structures_def encodable_def LocalApicFlags_def LocalApicFlags_ENABLED_def LocalApicFlags_ONLINE_CAPABLE_def)

lemma guest_apic_ids:
  "List.map_filter local_apic_id (map Ok (guest_structures cpus)) = map (\<lambda>c. ucast (ucast c :: u8)) cpus"
  by (induction cpus) (simp_all add: guest_structures_def List.map_filter_def)

section \<open>Properties\<close>

text \<open>
  C32: The loops over the structures of a table end exactly if the table is a sequence of
  structures of known types whose lengths fit. One structure of another type, or
  one that is too long or shorter than three bytes, is reported again and again, and the
  boot of the hypervisor does not go on.
\<close>

theorem structures_end_iff: "(\<exists>items. structures bytes = Some items) = framed bytes"
  using structures_framed framed_structures by blast

text \<open>
  C33: The table of a guest with at most seven processors. It is built, fits its buffer, and
  where the guest puts it, it reads back as a valid table with the right signature, the
  address of the local APIC, and as its structures an enabled local APIC for each core of the guest, in
  order, with the low byte of the core number as its id, and then the I/O APIC at its address.
\<close>

theorem guest_madt_read_back:
  assumes "length cpus \<le> 7"
  shows "\<exists>b buffer n. guest_madt cpus = Ok b \<and>
    encode_sdt MADT_SIGNATURE MADT_REVISION 0 (madt_encode_table b 1024) 1024 [] = Ok (buffer, n) \<and>
    (\<forall>mem a. phys_bytes mem a n = buffer \<longrightarrow>
      (\<exists>sdt madt. sdt_new mem a = Ok sdt \<and> sdt_signature sdt = MADT_SIGNATURE \<and> madt_new sdt = Ok madt \<and>
        madt_ica madt = 0xfee00000 \<and> structures (madt_ics madt) = Some (map Ok (map (\<lambda>c. Ics_LocalApic 0 (ucast c) LocalApicFlags_ENABLED) cpus @
          [Ics_IoApic 0 0xfec00000 0])) \<and>
        madt_apic_ids madt = Some (map (\<lambda>c. ucast (ucast c :: u8)) cpus)))"
proof -
  let ?b = "\<lparr>builder_ica = Some 0xfee00000, builder_flags = None, builder_structures = guest_structures cpus\<rparr>"
  have b: "guest_madt cpus = Ok ?b" using assms by (simp add: guest_madt_eq MADT_STRUCTURES_def)
  have "length (guest_structures cpus) \<le> 8" using assms by (simp add: guest_structures_def)
  then have "madt_encode_table ?b 1024 (replicate SDT_HEADER 0) =
      Ok (replicate SDT_HEADER 0 @ le_bytes 4 (0xfee00000 :: u32) @ le_bytes 4 (0 :: u32) @ concat (map ics_frame (guest_structures cpus)))"
    using encode_structures_Ok [of "guest_structures cpus" "replicate 36 0 @ le_bytes 4 (0xfee00000 :: u32) @ le_bytes 4 (0 :: u32)" 1024]
      guest_structures_ok
    by (simp add: madt_encode_table_def Let_def try_extend_def SDT_HEADER_def)
  then obtain buffer n where e: "encode_sdt MADT_SIGNATURE MADT_REVISION 0 (madt_encode_table ?b 1024) 1024 [] = Ok (buffer, n)"
    using write_sdt_header_eq [OF madt_table.signature]
    by (simp add: encode_sdt_def try_extend_def SDT_HEADER_def)
  have "\<exists>sdt madt. sdt_new mem a = Ok sdt \<and> sdt_signature sdt = MADT_SIGNATURE \<and> madt_new sdt = Ok madt \<and>
      madt_ica madt = 0xfee00000 \<and> structures (madt_ics madt) = Some (map Ok (map (\<lambda>c. Ics_LocalApic 0 (ucast c) LocalApicFlags_ENABLED) cpus @
          [Ics_IoApic 0 0xfec00000 0])) \<and>
        madt_apic_ids madt = Some (map (\<lambda>c. ucast (ucast c :: u8)) cpus)"
    if mem: "phys_bytes mem a n = buffer" for mem a
  proof -
    obtain sdt madt where "sdt_new mem a = Ok sdt" "sdt_signature sdt = MADT_SIGNATURE" "madt_new sdt = Ok madt"
      "madt_ica madt = 0xfee00000" "structures (madt_ics madt) = Some (map Ok (guest_structures cpus))"
      using madt_read_back [OF e mem] guest_structures_ok by auto
    moreover from this(5) have "madt_apic_ids madt = Some (map (\<lambda>c. ucast (ucast c :: u8)) cpus)"
      by (simp add: madt_apic_ids_def guest_apic_ids)
    ultimately show ?thesis by (auto simp: guest_structures_def)
  qed
  with b e show ?thesis by blast
qed

theorem guest_madt_read_back_witness:
  "\<exists>b buffer n. guest_madt [0, 3] = Ok b \<and>
    encode_sdt MADT_SIGNATURE MADT_REVISION 0 (madt_encode_table b 1024) 1024 [] = Ok (buffer, n) \<and>
    (\<exists>sdt madt. sdt_new (\<lambda>x. buffer ! unat x) 0 = Ok sdt \<and> madt_new sdt = Ok madt \<and> madt_apic_ids madt = Some [0, 3])"
proof -
  obtain b buffer n where b: "guest_madt [0, 3] = Ok b"
    and e: "encode_sdt MADT_SIGNATURE MADT_REVISION 0 (madt_encode_table b 1024) 1024 [] = Ok (buffer, n)"
    and r: "\<forall>mem a. phys_bytes mem a n = buffer \<longrightarrow>
      (\<exists>sdt madt. sdt_new mem a = Ok sdt \<and> sdt_signature sdt = MADT_SIGNATURE \<and> madt_new sdt = Ok madt \<and>
        madt_ica madt = 0xfee00000 \<and> structures (madt_ics madt) = Some (map Ok (map (\<lambda>c. Ics_LocalApic 0 (ucast c) LocalApicFlags_ENABLED) [0, 3 :: u32] @
          [Ics_IoApic 0 0xfec00000 0])) \<and>
        madt_apic_ids madt = Some (map (\<lambda>c. ucast (ucast c :: u8)) [0, 3 :: u32]))"
    using guest_madt_read_back [of "[0, 3]"] by auto
  have "length buffer = n" "n \<le> 1024" by (rule madt_table.encode_sdt_bytes [OF e], simp)+
  then have "phys_bytes (\<lambda>x. buffer ! unat x) 0 n = buffer"
    by (auto simp: phys_bytes_def unat_of_nat intro: nth_equalityI)
  with b e r show ?thesis by fastforce
qed

end
