(* ===== verification/Ioapic.thy ===== *)
theory Ioapic
  imports Madt
begin

text \<open>
  The I/O APICs of the machine (\<open>ioapic.rs\<close>): their registers behind the select and window
  registers, the redirection table and its entries, and the mapping of global system
  interrupts to vectors.

  The registers are hardware. \<open>store reg old val\<close> is what a register holds after \<open>val\<close> has
  been written to it; the datasheet says that it is \<open>val\<close> but for read-only bits.
\<close>

section \<open>Registers\<close>

definition IOREDTBL_KNOWN_BITS_MASK :: u64 where "IOREDTBL_KNOWN_BITS_MASK = 0xff0000000001ffff"
definition IOREDTBL_RW_MASK :: u64 where "IOREDTBL_RW_MASK = 0xff0000000001afff"
definition IOAPIC_VERSION :: u8 where "IOAPIC_VERSION = 0x11"

definition IOAPICID :: u8 where "IOAPICID = 0x00"
definition IOAPICVER :: u8 where "IOAPICVER = 0x01"
definition IOAPICARB :: u8 where "IOAPICARB = 0x02"
definition IOREDTBL_OFFSET :: u8 where "IOREDTBL_OFFSET = 0x10"
definition MAX_IOAPIC_COUNT :: nat where "MAX_IOAPIC_COUNT = 16"

record IoApic =
  addr_lock :: u64
  ioapic_gsi_base :: u32

text \<open>
  For the base address of each I/O APIC its selected register and its registers; and the
  static \<open>IOAPICS\<close>, None before it is initialised.
\<close>

record ioapic_state =
  ioregsel :: "u64 \<Rightarrow> u8"
  ioregs :: "u64 \<Rightarrow> u8 \<Rightarrow> u32"
  ioapics :: "IoApic list option"

definition select_reg :: "u64 \<Rightarrow> u8 \<Rightarrow> ioapic_state \<Rightarrow> ioapic_state" where
  "select_reg base reg s = s\<lparr>ioregsel := (ioregsel s)(base := reg)\<rparr>"

definition read_raw :: "IoApic \<Rightarrow> u8 \<Rightarrow> (ioapic_state, u32, Error) action" where
  "read_raw a reg s =
    (let s = select_reg (addr_lock a) reg s
     in (Ok (ioregs s (addr_lock a) (ioregsel s (addr_lock a))), s))"

definition write_raw :: "(u8 \<Rightarrow> u32 \<Rightarrow> u32 \<Rightarrow> u32) \<Rightarrow> IoApic \<Rightarrow> u8 \<Rightarrow> u32 \<Rightarrow> (ioapic_state, unit, Error) action" where
  "write_raw store a reg val s =
    (let base = addr_lock a; s = select_reg base reg s; sel = ioregsel s base
     in (Ok (), s\<lparr>ioregs := (ioregs s)(base := (ioregs s base)(sel := store sel (ioregs s base sel) val))\<rparr>))"

definition ioapic_id_read :: "IoApic \<Rightarrow> (ioapic_state, u8, Error) action" where
  "ioapic_id_read a = bind_state (read_raw a IOAPICID) (\<lambda>raw. return_state (ucast (drop_bit 24 raw AND 0x0f)))"

definition set_id :: "(u8 \<Rightarrow> u32 \<Rightarrow> u32 \<Rightarrow> u32) \<Rightarrow> IoApic \<Rightarrow> u32 \<Rightarrow> (ioapic_state, unit, Error) action" where
  "set_id store a i =
    (if 0x0f < i then lift_state (Err InvalidValue) else write_raw store a IOAPICID (push_bit 24 i))"

definition ioapic_version :: "IoApic \<Rightarrow> (ioapic_state, u8, Error) action" where
  "ioapic_version a = bind_state (read_raw a IOAPICVER) (\<lambda>raw. return_state (ucast (raw AND 0xff)))"

definition max_redirection_entry :: "IoApic \<Rightarrow> (ioapic_state, u8, Error) action" where
  "max_redirection_entry a =
    bind_state (read_raw a IOAPICVER) (\<lambda>raw. return_state (ucast (drop_bit 16 raw AND 0xff)))"

definition arbitration_id :: "IoApic \<Rightarrow> (ioapic_state, u8, Error) action" where
  "arbitration_id a = bind_state (read_raw a IOAPICARB) (\<lambda>raw. return_state (ucast (drop_bit 24 raw AND 0x0f)))"

definition set_arbitration_id :: "(u8 \<Rightarrow> u32 \<Rightarrow> u32 \<Rightarrow> u32) \<Rightarrow> IoApic \<Rightarrow> u8 \<Rightarrow> (ioapic_state, unit, Error) action" where
  "set_arbitration_id store a i =
    (if 15 < i then lift_state (Err InvalidValue) else write_raw store a IOAPICARB (push_bit 24 (ucast i)))"

definition ioapic_new :: "u64 \<Rightarrow> u32 \<Rightarrow> (ioapic_state, IoApic, Error) action" where
  "ioapic_new addr base =
    (let a = \<lparr>addr_lock = addr, ioapic_gsi_base = base\<rparr>
     in bind_state (ioapic_version a) (\<lambda>v.
          if v \<noteq> IOAPIC_VERSION then lift_state (Err NotSupported) else return_state a))"

definition ioapic_try_from :: "Ics \<Rightarrow> (ioapic_state, IoApic, Error) action" where
  "ioapic_try_from ics =
    (case ics of
       Ics_IoApic i addr base \<Rightarrow> ioapic_new addr base
     | _ \<Rightarrow> bind_state (lift_state (ics_type ics)) (\<lambda>_. lift_state (Err InvalidValue)))"

section \<open>Redirection table entries\<close>

datatype IoDestinationMode = IoPhysical | IoLogical
datatype IoTriggerMode = IoEdge | IoLevel
datatype PinPolarity = ActiveHigh | ActiveLow
datatype IoDeliveryMode = IoFixed | IoLowestPriority | IoSMI | IoNMI | IoINIT | IoExtINT
datatype DeliveryStatus = Idle | SendPending

primrec destination_mode_code :: "IoDestinationMode \<Rightarrow> u8" where
  "destination_mode_code IoPhysical = 0"
| "destination_mode_code IoLogical = 1"

primrec trigger_mode_code :: "IoTriggerMode \<Rightarrow> u8" where
  "trigger_mode_code IoEdge = 0"
| "trigger_mode_code IoLevel = 1"

primrec pin_polarity_code :: "PinPolarity \<Rightarrow> u8" where
  "pin_polarity_code ActiveHigh = 0"
| "pin_polarity_code ActiveLow = 1"

primrec delivery_mode_code :: "IoDeliveryMode \<Rightarrow> u8" where
  "delivery_mode_code IoFixed = 0b000"
| "delivery_mode_code IoLowestPriority = 0b001"
| "delivery_mode_code IoSMI = 0b010"
| "delivery_mode_code IoNMI = 0b100"
| "delivery_mode_code IoINIT = 0b101"
| "delivery_mode_code IoExtINT = 0b111"

primrec delivery_status_code :: "DeliveryStatus \<Rightarrow> u8" where
  "delivery_status_code Idle = 0"
| "delivery_status_code SendPending = 1"

definition destination_mode_from :: "u8 \<Rightarrow> IoDestinationMode res" where
  "destination_mode_from = enum_from [IoPhysical, IoLogical] destination_mode_code"

definition trigger_mode_from :: "u8 \<Rightarrow> IoTriggerMode res" where
  "trigger_mode_from = enum_from [IoEdge, IoLevel] trigger_mode_code"

definition pin_polarity_from :: "u8 \<Rightarrow> PinPolarity res" where
  "pin_polarity_from = enum_from [ActiveHigh, ActiveLow] pin_polarity_code"

definition delivery_mode_from :: "u8 \<Rightarrow> IoDeliveryMode res" where
  "delivery_mode_from = enum_from [IoFixed, IoLowestPriority, IoSMI, IoNMI, IoINIT, IoExtINT] delivery_mode_code"

definition delivery_status_from :: "u8 \<Rightarrow> DeliveryStatus res" where
  "delivery_status_from = enum_from [Idle, SendPending] delivery_status_code"

definition valid_for_level_trigger :: "IoDeliveryMode \<Rightarrow> bool" where
  "valid_for_level_trigger m = (case m of IoFixed \<Rightarrow> True | IoLowestPriority \<Rightarrow> True | _ \<Rightarrow> False)"

record IoRedTblEntry =
  entry_vector :: u8
  delivery_mode :: IoDeliveryMode
  destination_mode :: IoDestinationMode
  delivery_status :: DeliveryStatus
  pin_polarity :: PinPolarity
  remote_irr :: bool
  trigger_mode :: IoTriggerMode
  interrupt_mask :: bool
  entry_destination :: u8

definition validate :: "IoRedTblEntry \<Rightarrow> unit res" where
  "validate e =
    (if trigger_mode e = IoLevel \<and> \<not> valid_for_level_trigger (delivery_mode e) then Err InvalidValue
     else if destination_mode e = IoPhysical \<and> 15 < entry_destination e then Err InvalidValue
     else if delivery_mode e = IoSMI \<and> entry_vector e \<noteq> 0 then Err InvalidValue
     else Ok ())"

definition entry_new ::
  "u8 \<Rightarrow> IoDeliveryMode \<Rightarrow> IoDestinationMode \<Rightarrow> PinPolarity \<Rightarrow> IoTriggerMode \<Rightarrow> bool \<Rightarrow> u8 \<Rightarrow> IoRedTblEntry res" where
  "entry_new vector mode dmode polarity trigger masked destination =
    (let e = \<lparr>entry_vector = vector, delivery_mode = mode, destination_mode = dmode, delivery_status = Idle,
              pin_polarity = polarity, remote_irr = False, trigger_mode = trigger, interrupt_mask = masked,
              entry_destination = destination\<rparr>
     in and_then (validate e) (\<lambda>_. Ok e))"

definition entry_try_from :: "u64 \<Rightarrow> IoRedTblEntry res" where
  "entry_try_from bits =
    (if bits AND NOT IOREDTBL_KNOWN_BITS_MASK \<noteq> 0 then Err NotSupported
     else
       and_then (delivery_mode_from (ucast (drop_bit 8 bits AND 0x7))) (\<lambda>mode.
       and_then (destination_mode_from (ucast (drop_bit 11 bits AND 0x1))) (\<lambda>dmode.
       and_then (delivery_status_from (ucast (drop_bit 12 bits AND 0x1))) (\<lambda>status.
       and_then (pin_polarity_from (ucast (drop_bit 13 bits AND 0x1))) (\<lambda>polarity.
       and_then (trigger_mode_from (ucast (drop_bit 15 bits AND 0x1))) (\<lambda>trigger.
       let e = \<lparr>entry_vector = ucast (bits AND 0xff), delivery_mode = mode, destination_mode = dmode,
                delivery_status = status, pin_polarity = polarity, remote_irr = (drop_bit 14 bits AND 0x1 \<noteq> 0),
                trigger_mode = trigger, interrupt_mask = (drop_bit 16 bits AND 0x1 \<noteq> 0),
                entry_destination = ucast (drop_bit 56 bits AND 0xff)\<rparr>
       in and_then (validate e) (\<lambda>_. Ok e)))))))"

definition entry_into :: "IoRedTblEntry \<Rightarrow> u64" where
  "entry_into e =
    ucast (entry_vector e) OR
    push_bit 8 (ucast (delivery_mode_code (delivery_mode e))) OR
    push_bit 11 (ucast (destination_mode_code (destination_mode e))) OR
    push_bit 12 (ucast (delivery_status_code (delivery_status e))) OR
    push_bit 13 (ucast (pin_polarity_code (pin_polarity e))) OR
    (if remote_irr e then push_bit 14 1 else 0) OR
    push_bit 15 (ucast (trigger_mode_code (trigger_mode e))) OR
    (if interrupt_mask e then push_bit 16 1 else 0) OR
    push_bit 56 (ucast (entry_destination e))"

section \<open>The redirection table\<close>

definition read_ioredtbl_raw :: "IoApic \<Rightarrow> u8 \<Rightarrow> (ioapic_state, u64, Error) action" where
  "read_ioredtbl_raw a i =
    (let base_reg = IOREDTBL_OFFSET + i * 2 in
     bind_state (read_raw a base_reg) (\<lambda>low.
     bind_state (read_raw a (base_reg + 1)) (\<lambda>high.
       return_state (ucast low OR push_bit 32 (ucast high)))))"

definition read_ioredtbl :: "IoApic \<Rightarrow> u8 \<Rightarrow> (ioapic_state, IoRedTblEntry, Error) action" where
  "read_ioredtbl a i =
    (if 23 < i then lift_state (Err InvalidValue)
     else bind_state (read_ioredtbl_raw a i) (\<lambda>bits. lift_state (entry_try_from bits)))"

definition write_ioredtbl_raw ::
  "(u8 \<Rightarrow> u32 \<Rightarrow> u32 \<Rightarrow> u32) \<Rightarrow> IoApic \<Rightarrow> u8 \<Rightarrow> u64 \<Rightarrow> (ioapic_state, unit, Error) action" where
  "write_ioredtbl_raw store a i val =
    (let base_reg = IOREDTBL_OFFSET + i * 2 in
     bind_state (write_raw store a base_reg (ucast (val AND 0xffffffff)))
       (\<lambda>_. write_raw store a (base_reg + 1) (ucast (drop_bit 32 val))))"

definition write_ioredtbl ::
  "(u8 \<Rightarrow> u32 \<Rightarrow> u32 \<Rightarrow> u32) \<Rightarrow> IoApic \<Rightarrow> u8 \<Rightarrow> IoRedTblEntry \<Rightarrow> (ioapic_state, unit, Error) action" where
  "write_ioredtbl store a i e =
    (let val = entry_into e in
     if 23 < i then lift_state (Err InvalidValue)
     else if val AND NOT IOREDTBL_RW_MASK \<noteq> 0 then lift_state (Err InvalidValue)
     else write_ioredtbl_raw store a i val)"

definition get_ivec_range :: "IoApic \<Rightarrow> (ioapic_state, u32 \<times> u32, Error) action" where
  "get_ivec_range a =
    bind_state (max_redirection_entry a)
      (\<lambda>n. return_state (ioapic_gsi_base a, ioapic_gsi_base a + ucast n))"

primrec ioapic_with_gsi :: "u32 \<Rightarrow> IoApic list \<Rightarrow> (ioapic_state, (IoApic \<times> u8) option, Error) action" where
  "ioapic_with_gsi gsi [] = return_state None"
| "ioapic_with_gsi gsi (a # as) =
    bind_state (get_ivec_range a) (\<lambda>(first, last).
      if first \<le> gsi \<and> gsi < last then return_state (Some (a, ucast (gsi - ioapic_gsi_base a)))
      else ioapic_with_gsi gsi as)"

definition ioapic_for_gsi :: "u32 \<Rightarrow> (ioapic_state, (IoApic \<times> u8) option, Error) action" where
  "ioapic_for_gsi gsi s = bind_state (lift_state (unwrap (ioapics s))) (ioapic_with_gsi gsi) s"

definition map_gsi_vector ::
  "(u8 \<Rightarrow> u32 \<Rightarrow> u32 \<Rightarrow> u32) \<Rightarrow> u32 \<Rightarrow> u8 \<Rightarrow> u8 \<Rightarrow> (ioapic_state, unit, Error) action" where
  "map_gsi_vector store gsi vector apic =
    bind_state (ioapic_for_gsi gsi) (\<lambda>found.
      case found of
        Some (a, i) \<Rightarrow>
          bind_state (lift_state (entry_new vector IoFixed IoPhysical ActiveHigh IoEdge False apic))
            (write_ioredtbl store a i)
      | None \<Rightarrow> lift_state (Err NotFound))"

text \<open>
  \<open>init_ioapics\<close> over the structures of the table; an I/O APIC that is not supported is
  skipped, and one too many panics.
\<close>

primrec collect_ioapics :: "Ics res list \<Rightarrow> IoApic list \<Rightarrow> (ioapic_state, IoApic list, Error) action" where
  "collect_ioapics [] acc = return_state acc"
| "collect_ioapics (item # items) acc = (\<lambda>s.
    case item of
      Ok ics \<Rightarrow>
        (case ics of
           Ics_IoApic i addr base \<Rightarrow>
             (case ioapic_try_from ics s of
                (Ok a, s') \<Rightarrow> bind_state (lift_state (array_push MAX_IOAPIC_COUNT acc a)) (collect_ioapics items) s'
              | (Err e, s') \<Rightarrow> collect_ioapics items acc s'
              | (Panic, s') \<Rightarrow> (Panic, s')
              | (Undefined, s') \<Rightarrow> (Undefined, s'))
         | _ \<Rightarrow> collect_ioapics items acc s)
    | _ \<Rightarrow> collect_ioapics items acc s)"

definition init_ioapics :: "Ics res list \<Rightarrow> (ioapic_state, unit, Error) action" where
  "init_ioapics items =
    bind_state (collect_ioapics items []) (\<lambda>as s. (Ok (), s\<lparr>ioapics := Some as\<rparr>))"

section \<open>Lemmas\<close>

interpretation io_delivery: primitive_enum "[IoFixed, IoLowestPriority, IoSMI, IoNMI, IoINIT, IoExtINT]" delivery_mode_code
proof
  show "m \<in> set [IoFixed, IoLowestPriority, IoSMI, IoNMI, IoINIT, IoExtINT]" for m by (cases m) simp_all
qed simp

interpretation io_destination: primitive_enum "[IoPhysical, IoLogical]" destination_mode_code
proof
  show "m \<in> set [IoPhysical, IoLogical]" for m by (cases m) simp_all
qed simp

interpretation io_trigger: primitive_enum "[IoEdge, IoLevel]" trigger_mode_code
proof
  show "m \<in> set [IoEdge, IoLevel]" for m by (cases m) simp_all
qed simp

interpretation io_polarity: primitive_enum "[ActiveHigh, ActiveLow]" pin_polarity_code
proof
  show "m \<in> set [ActiveHigh, ActiveLow]" for m by (cases m) simp_all
qed simp

interpretation io_status: primitive_enum "[Idle, SendPending]" delivery_status_code
proof
  show "m \<in> set [Idle, SendPending]" for m by (cases m) simp_all
qed simp

lemma ok_or_Ok: "ok_or e r = Ok x \<longleftrightarrow> r = Some x"
  by (cases r) auto

lemma mode_from_iff:
  "delivery_mode_from n = Ok m1 \<longleftrightarrow> n = delivery_mode_code m1"
  "destination_mode_from n = Ok m2 \<longleftrightarrow> n = destination_mode_code m2"
  "trigger_mode_from n = Ok m3 \<longleftrightarrow> n = trigger_mode_code m3"
  "pin_polarity_from n = Ok m4 \<longleftrightarrow> n = pin_polarity_code m4"
  "delivery_status_from n = Ok m5 \<longleftrightarrow> n = delivery_status_code m5"
  by (simp_all add: delivery_mode_from_def destination_mode_from_def trigger_mode_from_def pin_polarity_from_def
      delivery_status_from_def enum_from_def ok_or_Ok io_delivery.try_from_Some_iff io_destination.try_from_Some_iff
      io_trigger.try_from_Some_iff io_polarity.try_from_Some_iff io_status.try_from_Some_iff)

lemma mode_code_bit:
  "bit (destination_mode_code m2) n \<longleftrightarrow> n = 0 \<and> m2 = IoLogical"
  "bit (trigger_mode_code m3) n \<longleftrightarrow> n = 0 \<and> m3 = IoLevel"
  "bit (pin_polarity_code m4) n \<longleftrightarrow> n = 0 \<and> m4 = ActiveLow"
  "bit (delivery_status_code m5) n \<longleftrightarrow> n = 0 \<and> m5 = SendPending"
  "bit (delivery_mode_code m1) n \<Longrightarrow> n < 3"
proof -
  show "bit (destination_mode_code m2) n \<longleftrightarrow> n = 0 \<and> m2 = IoLogical" by (cases m2) (auto simp: bit_1_iff)
  show "bit (trigger_mode_code m3) n \<longleftrightarrow> n = 0 \<and> m3 = IoLevel" by (cases m3) (auto simp: bit_1_iff)
  show "bit (pin_polarity_code m4) n \<longleftrightarrow> n = 0 \<and> m4 = ActiveLow" by (cases m4) (auto simp: bit_1_iff)
  show "bit (delivery_status_code m5) n \<longleftrightarrow> n = 0 \<and> m5 = SendPending" by (cases m5) (auto simp: bit_1_iff)
  have "take_bit 3 (delivery_mode_code m1) = delivery_mode_code m1" by (cases m1) simp_all
  then show "bit (delivery_mode_code m1) n \<Longrightarrow> n < 3" by (metis bit_take_bit_iff)
qed

lemma entry_into_bit:
  "bit (entry_into e) n \<longleftrightarrow>
    n < 8 \<and> bit (entry_vector e) n \<or>
    8 \<le> n \<and> n < 11 \<and> bit (delivery_mode_code (delivery_mode e)) (n - 8) \<or>
    n = 11 \<and> destination_mode e = IoLogical \<or>
    n = 12 \<and> delivery_status e = SendPending \<or>
    n = 13 \<and> pin_polarity e = ActiveLow \<or>
    n = 14 \<and> remote_irr e \<or>
    n = 15 \<and> trigger_mode e = IoLevel \<or>
    n = 16 \<and> interrupt_mask e \<or>
    56 \<le> n \<and> n < 64 \<and> bit (entry_destination e) (n - 56)"
proof -
  have byte: "bit (push_bit k (ucast (w :: u8)) :: u64) n \<longleftrightarrow> k \<le> n \<and> n < 64 \<and> bit w (n - k)" for k w
    by (auto simp: bit_simps)
  have v: "bit (ucast (entry_vector e) :: u64) n \<longleftrightarrow> n < 8 \<and> bit (entry_vector e) n"
    by (auto simp: bit_simps dest: bit_imp_le_length)
  have dm: "bit (push_bit 8 (ucast (delivery_mode_code m)) :: u64) n \<longleftrightarrow> 8 \<le> n \<and> n < 11 \<and> bit (delivery_mode_code m) (n - 8)" for m
    unfolding byte using mode_code_bit(5) [of m "n - 8"] by linarith
  have flag: "bit (if c then push_bit k 1 else 0 :: u64) n \<longleftrightarrow> n = k \<and> c" if "k < 64" for k c
    using that by (auto simp: bit_simps bit_1_iff)
  have one: "k \<le> n \<and> n < 64 \<and> n \<le> k \<and> c \<longleftrightarrow> n = k \<and> c" if "k < 64" for k c
    using that by auto
  show ?thesis
    by (simp only: entry_into_def bit_or_iff v dm flag) (simp add: byte mode_code_bit(1-4) one flag disj_assoc)
qed

lemma known_bits: "bits AND NOT IOREDTBL_KNOWN_BITS_MASK = 0 \<longleftrightarrow> (\<forall>n. bit bits n \<longrightarrow> n < 17 \<or> 56 \<le> n)"
proof -
  have m: "IOREDTBL_KNOWN_BITS_MASK = mask 17 OR push_bit 56 (mask 8)"
    by (simp add: IOREDTBL_KNOWN_BITS_MASK_def mask_eq_exp_minus_1 push_bit_eq_mult)
  have lt: "n < 64" if "bit bits n" for n using bit_imp_le_length [OF that] by simp
  have "bits AND NOT (mask 17 OR push_bit 56 (mask 8)) = 0 \<longleftrightarrow> (\<forall>n. bit bits n \<longrightarrow> n < 64 \<longrightarrow> n < 17 \<or> 56 \<le> n)"
    unfolding bit_eq_iff by (auto simp: bit_simps)
  with lt show ?thesis unfolding m by blast
qed

lemma entry_fields:
  "bits AND NOT IOREDTBL_KNOWN_BITS_MASK = 0 \<and>
   ucast (drop_bit 8 bits AND 0x7) = delivery_mode_code (delivery_mode e) \<and>
   ucast (drop_bit 11 bits AND 0x1) = destination_mode_code (destination_mode e) \<and>
   ucast (drop_bit 12 bits AND 0x1) = delivery_status_code (delivery_status e) \<and>
   ucast (drop_bit 13 bits AND 0x1) = pin_polarity_code (pin_polarity e) \<and>
   ucast (drop_bit 15 bits AND 0x1) = trigger_mode_code (trigger_mode e) \<and>
   ucast (bits AND 0xff) = entry_vector e \<and> (drop_bit 14 bits AND 0x1 \<noteq> 0) = remote_irr e \<and>
   (drop_bit 16 bits AND 0x1 \<noteq> 0) = interrupt_mask e \<and> ucast (drop_bit 56 bits AND 0xff) = entry_destination e
   \<longleftrightarrow> bits = entry_into e"
  (is "?known \<and> ?rest \<longleftrightarrow> _")
proof -
  have m: "(0x7 :: u64) = mask 3" "(0xff :: u64) = mask 8"
    by (simp_all add: mask_eq_exp_minus_1)
  have flag: "(drop_bit k bits AND 1 \<noteq> 0) = bit bits k" for k
    by (simp add: and_one_eq bit_iff_odd_drop_bit mod_2_eq_odd)
  have field: "ucast (drop_bit k bits AND mask l) = (c :: u8) \<longleftrightarrow> (\<forall>n < l. bit bits (k + n) \<longleftrightarrow> bit c n)"
    if "\<And>n. bit c n \<Longrightarrow> n < l" "l \<le> 8" for k l c
  proof -
    have "ucast (drop_bit k bits AND mask l) = c \<longleftrightarrow> (\<forall>n < 8. (bit bits (k + n) \<and> n < l) = bit c n)"
      by (auto simp: bit_eq_iff bit_simps)
    also have "\<dots> \<longleftrightarrow> (\<forall>n < l. bit bits (k + n) = bit c n)" using that by (meson less_le_trans)
    finally show ?thesis .
  qed
  have one: "ucast (drop_bit k bits AND 1) = (c :: u8) \<longleftrightarrow> (bit bits k \<longleftrightarrow> bit c 0)" if "\<And>n. bit c n \<Longrightarrow> n < 1" for k c
    using field [of c 1 k] that by simp
  have ones: "ucast (drop_bit k bits AND 1) = destination_mode_code m2 \<longleftrightarrow> bit bits k = (m2 = IoLogical)"
    "ucast (drop_bit k bits AND 1) = delivery_status_code m5 \<longleftrightarrow> bit bits k = (m5 = SendPending)"
    "ucast (drop_bit k bits AND 1) = pin_polarity_code m4 \<longleftrightarrow> bit bits k = (m4 = ActiveLow)"
    "ucast (drop_bit k bits AND 1) = trigger_mode_code m3 \<longleftrightarrow> bit bits k = (m3 = IoLevel)" for k m2 m3 m4 m5
    by (subst one; simp add: mode_code_bit)+
  have bytes: "ucast (bits AND mask 8) = (c :: u8) \<longleftrightarrow> (\<forall>n < 8. bit bits n \<longleftrightarrow> bit c n)"
    "ucast (drop_bit 56 bits AND mask 8) = c \<longleftrightarrow> (\<forall>n < 8. bit bits (56 + n) \<longleftrightarrow> bit c n)" for c
    using field [of c 8 0] field [of c 8 56] bit_imp_le_length [of c] by auto
  let ?v = "\<lambda>n. bit (entry_into e) n"
  have "?known \<and> ?rest \<longleftrightarrow> (\<forall>n. bit bits n \<longrightarrow> n < 17 \<or> 56 \<le> n) \<and> (\<forall>n < 3. bit bits (8 + n) = ?v (8 + n)) \<and>
      bit bits 11 = ?v 11 \<and> bit bits 12 = ?v 12 \<and> bit bits 13 = ?v 13 \<and> bit bits 15 = ?v 15 \<and>
      (\<forall>n < 8. bit bits n = ?v n) \<and> bit bits 14 = ?v 14 \<and> bit bits 16 = ?v 16 \<and> (\<forall>n < 8. bit bits (56 + n) = ?v (56 + n))"
    unfolding m known_bits flag
    by (simp add: field mode_code_bit(5) ones bytes entry_into_bit)
  also have "\<dots> \<longleftrightarrow> (\<forall>n. bit bits n = ?v n)"
  proof (rule iffI, rule allI, elim conjE)
    fix n :: nat
    assume known: "\<forall>n. bit bits n \<longrightarrow> n < 17 \<or> 56 \<le> n" and low: "\<forall>n < 8. bit bits n = ?v n"
      and mode: "\<forall>n < 3. bit bits (8 + n) = ?v (8 + n)" and high: "\<forall>n < 8. bit bits (56 + n) = ?v (56 + n)"
      and flags: "bit bits 11 = ?v 11" "bit bits 12 = ?v 12" "bit bits 13 = ?v 13" "bit bits 15 = ?v 15"
        "bit bits 14 = ?v 14" "bit bits 16 = ?v 16"
    have "bit bits n = ?v n" if "8 \<le> n" "n < 11" using mode [rule_format, of "n - 8"] that by simp
    moreover have "bit bits n = ?v n" if "56 \<le> n" "n < 64" using high [rule_format, of "n - 56"] that by simp
    moreover have "bit bits n = ?v n" if "17 \<le> n" "n < 56" using known [rule_format, of n] that by (auto simp: entry_into_bit)
    moreover have "bit bits n = ?v n" if "64 \<le> n"
      using that bit_imp_le_length [of bits n] by (auto simp: entry_into_bit)
    moreover have "n \<in> {11, 12, 13, 14, 15, 16}" if "11 \<le> n" "n < 17" using that by auto
    moreover have "bit bits n = ?v n" if "n \<in> {11, 12, 13, 14, 15, 16}" using that flags by auto
    ultimately show "bit bits n = ?v n" using low [rule_format, of n] by linarith
  qed (auto simp: entry_into_bit)
  also have "\<dots> \<longleftrightarrow> bits = entry_into e" by (auto intro: bit_word_eqI)
  finally show ?thesis .
qed

lemma entry_try_from_iff: "entry_try_from bits = Ok e \<longleftrightarrow> bits = entry_into e \<and> validate e = Ok ()"
proof -
  have "entry_try_from bits = Ok e \<longleftrightarrow>
     (bits AND NOT IOREDTBL_KNOWN_BITS_MASK = 0 \<and>
      delivery_mode_from (ucast (drop_bit 8 bits AND 0x7)) = Ok (delivery_mode e) \<and>
      destination_mode_from (ucast (drop_bit 11 bits AND 0x1)) = Ok (destination_mode e) \<and>
      delivery_status_from (ucast (drop_bit 12 bits AND 0x1)) = Ok (delivery_status e) \<and>
      pin_polarity_from (ucast (drop_bit 13 bits AND 0x1)) = Ok (pin_polarity e) \<and>
      trigger_mode_from (ucast (drop_bit 15 bits AND 0x1)) = Ok (trigger_mode e) \<and>
      ucast (bits AND 0xff) = entry_vector e \<and> (drop_bit 14 bits AND 0x1 \<noteq> 0) = remote_irr e \<and>
      (drop_bit 16 bits AND 0x1 \<noteq> 0) = interrupt_mask e \<and> ucast (drop_bit 56 bits AND 0xff) = entry_destination e) \<and>
     validate e = Ok ()"
    by (cases e) (auto simp: entry_try_from_def Let_def and_then_Ok_iff split: if_splits)
  then show ?thesis unfolding mode_from_iff entry_fields .
qed

text \<open>
  C34: Decoding and encoding a redirection entry agree: a 64-bit value is accepted as an entry exactly when
  it is that entry's encoding and the entry is valid. So decoding loses nothing, every valid entry survives
  the trip through its register, and no value with reserved bits set or an inconsistent combination
  (level-triggered NMI, physical destination above 15, SMI with a vector) is accepted.
\<close>

theorem redirection_entry_roundtrip:
  "entry_try_from bits = Ok e \<longleftrightarrow> bits = entry_into e \<and> validate e = Ok ()"
  by (rule entry_try_from_iff)

definition covers :: "ioapic_state \<Rightarrow> u32 \<Rightarrow> IoApic \<Rightarrow> bool" where
  "covers s gsi a \<longleftrightarrow>
    ioapic_gsi_base a \<le> gsi \<and> gsi < ioapic_gsi_base a + (drop_bit 16 (ioregs s (addr_lock a) IOAPICVER) AND 0xff)"

lemma get_ivec_range_outcome:
  "\<exists>s'. get_ivec_range a s = (Ok (ioapic_gsi_base a, ioapic_gsi_base a + (drop_bit 16 (ioregs s (addr_lock a) IOAPICVER) AND 0xff)), s')
     \<and> ioregs s' = ioregs s \<and> ioapics s' = ioapics s"
proof -
  have "(ucast (ucast (w AND 0xff) :: u8) :: u32) = w AND 0xff" for w :: u32
  proof -
    have "(0xff :: u32) = mask 8" by (simp add: mask_eq_exp_minus_1)
    then show ?thesis by (auto simp: bit_eq_iff bit_simps)
  qed
  then show ?thesis
    by (simp add: get_ivec_range_def max_redirection_entry_def read_raw_def select_reg_def bind_state_def
        return_state_def Let_def)
qed

lemma ioapic_with_gsi_outcome:
  "\<exists>s'. ioapic_with_gsi gsi as s =
      (Ok (map_option (\<lambda>a. (a, ucast (gsi - ioapic_gsi_base a))) (find (covers s gsi) as)), s')
    \<and> ioregs s' = ioregs s \<and> ioapics s' = ioapics s"
proof (induction as arbitrary: s)
  case (Cons a as)
  obtain s1 where s1: "get_ivec_range a s = (Ok (ioapic_gsi_base a, ioapic_gsi_base a + (drop_bit 16 (ioregs s (addr_lock a) IOAPICVER) AND 0xff)), s1)"
    "ioregs s1 = ioregs s" "ioapics s1 = ioapics s"
    using get_ivec_range_outcome [of a s] by blast
  then have "covers s1 = covers s" by (intro ext) (simp add: covers_def)
  with Cons.IH [of s1] s1 show ?case
    by (auto simp: bind_state_def return_state_def covers_def)
qed (simp add: return_state_def)


lemma fixed_entry:
  "entry_new vector IoFixed IoPhysical ActiveHigh IoEdge False apic =
    (if 15 < apic then Err InvalidValue
     else Ok \<lparr>entry_vector = vector, delivery_mode = IoFixed, destination_mode = IoPhysical, delivery_status = Idle,
              pin_polarity = ActiveHigh, remote_irr = False, trigger_mode = IoEdge, interrupt_mask = False,
              entry_destination = apic\<rparr>)"
  by (simp add: entry_new_def validate_def Let_def)

lemma write_fixed_entry:
  fixes a :: IoApic and vector apic i :: u8
  defines "e \<equiv> \<lparr>entry_vector = vector, delivery_mode = IoFixed, destination_mode = IoPhysical, delivery_status = Idle,
              pin_polarity = ActiveHigh, remote_irr = False, trigger_mode = IoEdge, interrupt_mask = False,
              entry_destination = apic\<rparr>"
  shows "ioregs (snd (write_ioredtbl store a i e s)) =
      (if 23 < i then ioregs s else let r = ioregs s (addr_lock a); low = 0x10 + i * 2; high = 0x11 + i * 2 in
       (ioregs s)(addr_lock a := r(low := store low (r low) (ucast vector), high := store high (r high) (push_bit 24 (ucast apic)))))"
    and "fst (write_ioredtbl store a i e s) = (if 23 < i then Err InvalidValue else Ok ())"
proof -
  have e: "bit (entry_into e) n \<longleftrightarrow> (if n < 8 then bit vector n else 56 \<le> n \<and> n < 64 \<and> bit apic (n - 56))" for n
    by (auto simp: entry_into_def e_def bit_simps dest: bit_imp_le_length)
  have k: "(0xffffffff :: u64) = mask 32" "IOREDTBL_RW_MASK = push_bit 56 (mask 8) OR (push_bit 15 (mask 2) OR push_bit 13 1 OR mask 12)"
    "bit (1 :: u64) n = (n = 0)" for n
    by (simp_all add: IOREDTBL_RW_MASK_def mask_eq_exp_minus_1 push_bit_eq_mult bit_1_iff)
  have rw: "entry_into e AND NOT IOREDTBL_RW_MASK = 0"
    unfolding k by (rule bit_word_eqI) (auto simp: e bit_simps)
  have low: "(ucast (entry_into e AND 0xffffffff) :: u32) = ucast vector"
    unfolding k by (rule bit_word_eqI) (auto simp: e bit_simps dest: bit_imp_le_length)
  have high: "(ucast (drop_bit 32 (entry_into e)) :: u32) = push_bit 24 (ucast apic)"
    by (rule bit_word_eqI) (auto simp: e bit_simps)
  have "(0x10 + i * 2) + 1 = (0x11 + i * 2 :: u8)" "0x10 + i * 2 \<noteq> (0x11 + i * 2 :: u8)" by simp_all
  then show "ioregs (snd (write_ioredtbl store a i e s)) =
      (if 23 < i then ioregs s else let r = ioregs s (addr_lock a); low = 0x10 + i * 2; high = 0x11 + i * 2 in
       (ioregs s)(addr_lock a := r(low := store low (r low) (ucast vector), high := store high (r high) (push_bit 24 (ucast apic)))))"
    "fst (write_ioredtbl store a i e s) = (if 23 < i then Err InvalidValue else Ok ())"
    by (simp_all add: write_ioredtbl_def rw write_ioredtbl_raw_def low high write_raw_def select_reg_def
        bind_state_def lift_state_def Let_def IOREDTBL_OFFSET_def)
qed

text \<open>
  C35: Mapping an interrupt to a vector, on every branch and for every register behaviour \<open>store\<close>. The first
  I/O APIC whose range covers the interrupt is taken; without one the call is NotFound. A local APIC id above
  15 or a table index above 23 is InvalidValue. Otherwise exactly the two registers of the one redirection
  entry change, to the vector and to the destination, and no other register of any I/O APIC does. The range
  ends below the base plus the maximum entry, so the last entry of an I/O APIC is never used.
\<close>

theorem map_gsi_vector_effect:
  assumes "ioapics s = Some as"
  shows "(\<lambda>(r, s'). (r, ioregs s')) (map_gsi_vector store gsi vector apic s) =
    (case find (covers s gsi) as of
       None \<Rightarrow> (Err NotFound, ioregs s)
     | Some a \<Rightarrow>
         let i = ucast (gsi - ioapic_gsi_base a); r = ioregs s (addr_lock a); low = 0x10 + i * 2; high = 0x11 + i * 2 in
         if 15 < apic \<or> 23 < i then (Err InvalidValue, ioregs s)
         else (Ok (), (ioregs s)(addr_lock a := r(low := store low (r low) (ucast vector),
                                                high := store high (r high) (push_bit 24 (ucast apic))))))"
proof -
  obtain s1 where s1: "ioapic_with_gsi gsi as s =
      (Ok (map_option (\<lambda>a. (a, ucast (gsi - ioapic_gsi_base a))) (find (covers s gsi) as)), s1)" "ioregs s1 = ioregs s"
    using ioapic_with_gsi_outcome [of gsi as s] by blast
  show ?thesis
  proof (cases "find (covers s gsi) as")
    case None
    with s1 assms show ?thesis
      by (simp add: map_gsi_vector_def ioapic_for_gsi_def bind_state_def lift_state_def)
  next
    case (Some a)
    with s1 assms show ?thesis
      by (auto simp: map_gsi_vector_def ioapic_for_gsi_def bind_state_def lift_state_def fixed_entry
          write_fixed_entry Let_def split_beta split del: if_split split: if_splits)
  qed
qed

theorem map_gsi_vector_effect_witness:
  "let a = \<lparr>addr_lock = 0xfec00000, ioapic_gsi_base = 0\<rparr>;
       s = \<lparr>ioregsel = \<lambda>_. 0, ioregs = \<lambda>_ r. if r = 1 then 0x170011 else 0, ioapics = Some [a]\<rparr>;
       f = \<lambda>gsi. map_gsi_vector (\<lambda>_ _ v. v) gsi 0x24 0 s
   in fst (f 4) = Ok () \<and> ioregs (snd (f 4)) 0xfec00000 0x18 = 0x24 \<and> fst (f 23) = Err NotFound"
proof -
  let ?a = "\<lparr>addr_lock = 0xfec00000, ioapic_gsi_base = 0\<rparr>"
  let ?s = "\<lparr>ioregsel = \<lambda>_. 0, ioregs = \<lambda>_ r. if r = 1 then 0x170011 else 0, ioapics = Some [?a]\<rparr>"
  have "ioapics ?s = Some [?a]" by simp
  note f = map_gsi_vector_effect [OF this, of "\<lambda>_ _ v. v" _ "0x24" 0]
  have "covers ?s 4 ?a" "\<not> covers ?s 23 ?a" by (simp_all add: covers_def IOAPICVER_def)
  with f [of 4] f [of 23] show ?thesis by (auto simp: Let_def split_beta)
qed

end
