(* ===== verification/Vmexit.thy ===== *)
theory Vmexit
  imports Memory
begin

text \<open>
  The reasons of VM exits (\<open>vmexit.rs\<close>): the registers of the guest, and the decoding of the
  exit reason and of the information that comes with it from the fields of the VMCS.

  The pointer to the virtual CPU at the end of \<open>GuestCpuState\<close> is not a field of the record:
  the virtual CPU is part of the state of the core.
\<close>

record GuestCpuState =
  cr2 :: u64
  r15 :: u64
  r14 :: u64
  r13 :: u64
  r12 :: u64
  r11 :: u64
  r10 :: u64
  r9 :: u64
  r8 :: u64
  rbp :: u64
  rdi :: u64
  rsi :: u64
  rdx :: u64
  rcx :: u64
  rbx :: u64
  rax :: u64

section \<open>Information about an exit\<close>

datatype ApicAccessKind =
    LinearRead | LinearWrite | LinearFetch | LinearEventDelivery
  | PhysicalAccessDuringEvent | PhysicalAccessDuringFetch

primrec apic_access_kind_code :: "ApicAccessKind \<Rightarrow> u8" where
  "apic_access_kind_code LinearRead = 0"
| "apic_access_kind_code LinearWrite = 1"
| "apic_access_kind_code LinearFetch = 2"
| "apic_access_kind_code LinearEventDelivery = 3"
| "apic_access_kind_code PhysicalAccessDuringEvent = 10"
| "apic_access_kind_code PhysicalAccessDuringFetch = 15"

definition apic_access_kinds :: "ApicAccessKind list" where
  "apic_access_kinds =
    [LinearRead, LinearWrite, LinearFetch, LinearEventDelivery, PhysicalAccessDuringEvent,
     PhysicalAccessDuringFetch]"

record ApicAccessInformation =
  apic_offset :: "u16 option"
  apic_kind :: ApicAccessKind
  async_instr_exec :: bool

definition apic_access_information :: "vmcs \<Rightarrow> ApicAccessInformation res" where
  "apic_access_information vmcs =
    and_then (vmcs_read ExitQualification vmcs) (\<lambda>qualifier.
    and_then (enum_from apic_access_kinds apic_access_kind_code (ucast (drop_bit 12 qualifier AND 0b1111))) (\<lambda>kind.
    let offset = (if kind = LinearRead \<or> kind = LinearWrite \<or> kind = LinearFetch \<or> kind = LinearEventDelivery
                  then Some (ucast (qualifier AND 0xfff)) else None)
    in Ok \<lparr>apic_offset = offset, apic_kind = kind, async_instr_exec = (qualifier AND push_bit 16 1 \<noteq> 0)\<rparr>))"

record IoInstructionInformation =
  io_size :: u8
  io_input :: bool
  io_string :: bool
  io_rep :: bool
  io_immediate :: bool
  io_port :: u16

definition io_instruction_information :: "vmcs \<Rightarrow> IoInstructionInformation res" where
  "io_instruction_information vmcs =
    and_then (vmcs_read ExitQualification vmcs) (\<lambda>qualifier.
    Ok \<lparr>io_size = ucast (qualifier AND 7) + 1, io_input = (qualifier AND push_bit 3 1 \<noteq> 0),
        io_string = (qualifier AND push_bit 4 1 \<noteq> 0), io_rep = (qualifier AND push_bit 5 1 \<noteq> 0),
        io_immediate = (qualifier AND push_bit 6 1 \<noteq> 0),
        io_port = ucast (drop_bit 16 (qualifier AND 0xffff0000))\<rparr>)"

datatype InterruptType = ExternalInterruptType | NonMaskableInterruptType | HardwareExceptionType | SoftwareExceptionType

primrec interrupt_type_code :: "InterruptType \<Rightarrow> u8" where
  "interrupt_type_code ExternalInterruptType = 0"
| "interrupt_type_code NonMaskableInterruptType = 1"
| "interrupt_type_code HardwareExceptionType = 3"
| "interrupt_type_code SoftwareExceptionType = 6"

definition interrupt_types :: "InterruptType list" where
  "interrupt_types = [ExternalInterruptType, NonMaskableInterruptType, HardwareExceptionType, SoftwareExceptionType]"

record VectoredEventInformation =
  event_vector :: u8
  event_interrupt_type :: InterruptType
  event_error_code :: "u32 option"
  event_nmi_unblocking_iret :: bool
  event_valid :: bool

definition vectored_event_information :: "vmcs \<Rightarrow> VectoredEventInformation res" where
  "vectored_event_information vmcs =
    and_then (vmcs_read VmExitIntrInfo vmcs) (\<lambda>inter_info.
    and_then (vmcs_read VmExitIntrErrorCode vmcs) (\<lambda>inter_error.
    let error_code = (if inter_info AND push_bit 11 1 \<noteq> 0 then Some (ucast inter_error) else None)
    in and_then (enum_from interrupt_types interrupt_type_code (ucast (drop_bit 8 (inter_info AND 0x700)))) (\<lambda>ty.
    Ok \<lparr>event_vector = ucast (inter_info AND 0xff), event_interrupt_type = ty, event_error_code = error_code,
        event_nmi_unblocking_iret = (inter_info AND push_bit 12 1 \<noteq> 0),
        event_valid = (inter_info AND push_bit 31 1 \<noteq> 0)\<rparr>)))"

record EptInformation =
  ept_read :: bool
  ept_write :: bool
  ept_exec :: bool
  ept_read_allowed :: bool
  ept_write_allowed :: bool
  ept_priv_exec_allowed :: bool
  ept_user_exec_allowed :: bool
  ept_guest_linear_addr :: "GuestPhysAddr option"
  ept_after_page_translation :: bool
  ept_user_mode_address :: bool
  ept_read_write_page :: bool
  ept_nx_page :: bool
  ept_nmi_unblocking_iret :: bool
  ept_guest_phys_addr :: GuestPhysAddr

definition ept_information :: "vmcs \<Rightarrow> EptInformation res" where
  "ept_information vmcs =
    and_then (vmcs_read ExitQualification vmcs) (\<lambda>qualifier.
    and_then
      (if qualifier AND push_bit 7 1 \<noteq> 0 then and_then (vmcs_read GuestLinearAddress vmcs) (\<lambda>a. Ok (Some a)) else Ok None) (\<lambda>linear.
    and_then (vmcs_read GuestPhysicalAddress vmcs) (\<lambda>physical.
    Ok \<lparr>ept_read = (qualifier AND push_bit 0 1 \<noteq> 0), ept_write = (qualifier AND push_bit 1 1 \<noteq> 0),
        ept_exec = (qualifier AND push_bit 2 1 \<noteq> 0), ept_read_allowed = (qualifier AND push_bit 3 1 \<noteq> 0),
        ept_write_allowed = (qualifier AND push_bit 4 1 \<noteq> 0), ept_priv_exec_allowed = (qualifier AND push_bit 5 1 \<noteq> 0),
        ept_user_exec_allowed = (qualifier AND push_bit 6 1 \<noteq> 0), ept_guest_linear_addr = linear,
        ept_after_page_translation = (qualifier AND push_bit 8 1 \<noteq> 0),
        ept_user_mode_address = (qualifier AND push_bit 9 1 \<noteq> 0),
        ept_read_write_page = (qualifier AND push_bit 10 1 \<noteq> 0), ept_nx_page = (qualifier AND push_bit 11 1 \<noteq> 0),
        ept_nmi_unblocking_iret = (qualifier AND push_bit 12 1 \<noteq> 0), ept_guest_phys_addr = physical\<rparr>)))"

datatype CrAccessType = MovToCr | MovFromCr | Clts | Lmsw

primrec cr_access_type_code :: "CrAccessType \<Rightarrow> u8" where
  "cr_access_type_code MovToCr = 0"
| "cr_access_type_code MovFromCr = 1"
| "cr_access_type_code Clts = 2"
| "cr_access_type_code Lmsw = 3"

definition cr_access_types :: "CrAccessType list" where
  "cr_access_types = [MovToCr, MovFromCr, Clts, Lmsw]"

datatype MovCrRegister =
  MovRax | MovRcx | MovRdx | MovRbx | MovRsp | MovRbp | MovRsi | MovRdi | MovR8 | MovR9 | MovR10 | MovR11 | MovR12 | MovR13 | MovR14 | MovR15

primrec mov_cr_register_code :: "MovCrRegister \<Rightarrow> u8" where
  "mov_cr_register_code MovRax = 0"
| "mov_cr_register_code MovRcx = 1"
| "mov_cr_register_code MovRdx = 2"
| "mov_cr_register_code MovRbx = 3"
| "mov_cr_register_code MovRsp = 4"
| "mov_cr_register_code MovRbp = 5"
| "mov_cr_register_code MovRsi = 6"
| "mov_cr_register_code MovRdi = 7"
| "mov_cr_register_code MovR8 = 8"
| "mov_cr_register_code MovR9 = 9"
| "mov_cr_register_code MovR10 = 10"
| "mov_cr_register_code MovR11 = 11"
| "mov_cr_register_code MovR12 = 12"
| "mov_cr_register_code MovR13 = 13"
| "mov_cr_register_code MovR14 = 14"
| "mov_cr_register_code MovR15 = 15"

definition mov_cr_registers :: "MovCrRegister list" where
  "mov_cr_registers = [MovRax, MovRcx, MovRdx, MovRbx, MovRsp, MovRbp, MovRsi, MovRdi, MovR8, MovR9, MovR10, MovR11, MovR12, MovR13, MovR14, MovR15]"

definition mov_cr_read :: "MovCrRegister \<Rightarrow> vmcs \<Rightarrow> GuestCpuState \<Rightarrow> u64 res" where
  "mov_cr_read reg vmcs cpu =
    (case reg of
       MovRax \<Rightarrow> Ok (rax cpu)
     | MovRcx \<Rightarrow> Ok (rcx cpu)
     | MovRdx \<Rightarrow> Ok (rdx cpu)
     | MovRbx \<Rightarrow> Ok (rbx cpu)
     | MovRsp \<Rightarrow> vmcs_read GuestRsp vmcs
     | MovRbp \<Rightarrow> Ok (rbp cpu)
     | MovRsi \<Rightarrow> Ok (rsi cpu)
     | MovRdi \<Rightarrow> Ok (rdi cpu)
     | MovR8 \<Rightarrow> Ok (r8 cpu)
     | MovR9 \<Rightarrow> Ok (r9 cpu)
     | MovR10 \<Rightarrow> Ok (r10 cpu)
     | MovR11 \<Rightarrow> Ok (r11 cpu)
     | MovR12 \<Rightarrow> Ok (r12 cpu)
     | MovR13 \<Rightarrow> Ok (r13 cpu)
     | MovR14 \<Rightarrow> Ok (r14 cpu)
     | MovR15 \<Rightarrow> Ok (r15 cpu))"

definition mov_cr_write :: "MovCrRegister \<Rightarrow> u64 \<Rightarrow> (vmcs \<times> GuestCpuState, unit, Error) action" where
  "mov_cr_write reg val = (\<lambda>(vmcs, cpu).
    case reg of
       MovRax \<Rightarrow> (Ok (), vmcs, cpu\<lparr>rax := val\<rparr>)
     | MovRcx \<Rightarrow> (Ok (), vmcs, cpu\<lparr>rcx := val\<rparr>)
     | MovRdx \<Rightarrow> (Ok (), vmcs, cpu\<lparr>rdx := val\<rparr>)
     | MovRbx \<Rightarrow> (Ok (), vmcs, cpu\<lparr>rbx := val\<rparr>)
     | MovRsp \<Rightarrow> (case vmcs_write GuestRsp val vmcs of (r, vmcs) \<Rightarrow> (r, vmcs, cpu))
     | MovRbp \<Rightarrow> (Ok (), vmcs, cpu\<lparr>rbp := val\<rparr>)
     | MovRsi \<Rightarrow> (Ok (), vmcs, cpu\<lparr>rsi := val\<rparr>)
     | MovRdi \<Rightarrow> (Ok (), vmcs, cpu\<lparr>rdi := val\<rparr>)
     | MovR8 \<Rightarrow> (Ok (), vmcs, cpu\<lparr>r8 := val\<rparr>)
     | MovR9 \<Rightarrow> (Ok (), vmcs, cpu\<lparr>r9 := val\<rparr>)
     | MovR10 \<Rightarrow> (Ok (), vmcs, cpu\<lparr>r10 := val\<rparr>)
     | MovR11 \<Rightarrow> (Ok (), vmcs, cpu\<lparr>r11 := val\<rparr>)
     | MovR12 \<Rightarrow> (Ok (), vmcs, cpu\<lparr>r12 := val\<rparr>)
     | MovR13 \<Rightarrow> (Ok (), vmcs, cpu\<lparr>r13 := val\<rparr>)
     | MovR14 \<Rightarrow> (Ok (), vmcs, cpu\<lparr>r14 := val\<rparr>)
     | MovR15 \<Rightarrow> (Ok (), vmcs, cpu\<lparr>r15 := val\<rparr>))"

record CrInformation =
  cr_num :: u8
  cr_access_type :: CrAccessType
  cr_lmsw_memory_operand :: bool
  cr_register :: "MovCrRegister option"
  cr_lmsw_data :: "u16 option"

definition cr_information :: "vmcs \<Rightarrow> CrInformation res" where
  "cr_information vmcs =
    and_then (vmcs_read ExitQualification vmcs) (\<lambda>qualifier.
    and_then (enum_from cr_access_types cr_access_type_code (ucast (drop_bit 4 (qualifier AND 0b110000)))) (\<lambda>access_type.
    let reg = ucast (drop_bit 8 (qualifier AND 0xf00)); num = ucast (qualifier AND 0b1111) in
    and_then
      (if access_type = MovToCr \<or> access_type = MovFromCr then
         and_then (enum_from mov_cr_registers mov_cr_register_code reg) (\<lambda>reg. Ok (num, Some reg, None))
       else Ok (0, None, Some (ucast (drop_bit 16 (qualifier AND 0xffff0000))))) (\<lambda>(num, reg, source).
    Ok \<lparr>cr_num = num, cr_access_type = access_type, cr_lmsw_memory_operand = (qualifier AND push_bit 6 1 \<noteq> 0),
        cr_register = reg, cr_lmsw_data = source\<rparr>)))"

section \<open>The reason of an exit\<close>

datatype (plugins only: code size) ExitInformation =
    Exit_NonMaskableInterrupt VectoredEventInformation |
    Exit_ExternalInterrupt VectoredEventInformation | Exit_TripleFault | Exit_InitSignal |
    Exit_StartUpIpi | Exit_IoSystemManagementInterrupt | Exit_OtherSystemManagementInterrupt |
    Exit_InterruptWindow | Exit_NonMaskableInterruptWindow | Exit_TaskSwitch | Exit_CpuId |
    Exit_GetSec | Exit_Hlt | Exit_Invd | Exit_InvlPg | Exit_Rdpmc | Exit_Rdtsc | Exit_Rsm |
    Exit_VmCall | Exit_VmClear | Exit_VmLaunch | Exit_VmPtrLd | Exit_VmPtrRst | Exit_VmRead |
    Exit_VmResume | Exit_VmWrite | Exit_VmxOff | Exit_VmxOn | Exit_CrAccess CrInformation |
    Exit_MovDr | Exit_IoInstruction IoInstructionInformation | Exit_RdMsr | Exit_WrMsr |
    Exit_VmEntryInvalidGuestState | Exit_VmEntryMsrLoad | Exit_Mwait | Exit_MonitorTrapFlag |
    Exit_Monitor | Exit_Pause | Exit_VmEntryMachineCheck | Exit_TprBelowThreshold |
    Exit_ApicAccess ApicAccessInformation | Exit_VirtualEio | Exit_AccessGdtridtr |
    Exit_AccessLdtrTr | Exit_EptViolation EptInformation | Exit_EptMisconfigure | Exit_InvEpt |
    Exit_Rdtscp | Exit_VmxPreemptionTimerExpired | Exit_Invvpid | Exit_Wbinvd | Exit_Xsetbv |
    Exit_ApicWrite | Exit_RdRand | Exit_Invpcid | Exit_VmFunc | Exit_Encls | Exit_RdSeed |
    Exit_PageModificationLogFull | Exit_Xsaves | Exit_Xrstors

definition ExitReasonFlags :: u64 where
  "ExitReasonFlags = push_bit 27 1 OR push_bit 28 1 OR push_bit 29 1 OR push_bit 31 1"

record ExitReason =
  exit_flags :: u64
  exit_info :: ExitInformation

text \<open>The reasons that come with no further information.\<close>

definition plain_exits :: "(u32 \<times> ExitInformation) list" where
  "plain_exits =
    [
     (2, Exit_TripleFault), (3, Exit_InitSignal), (4, Exit_StartUpIpi),
     (5, Exit_IoSystemManagementInterrupt), (6, Exit_OtherSystemManagementInterrupt),
     (7, Exit_InterruptWindow), (8, Exit_NonMaskableInterruptWindow), (9, Exit_TaskSwitch),
     (10, Exit_CpuId), (11, Exit_GetSec), (12, Exit_Hlt), (13, Exit_Invd), (14, Exit_InvlPg),
     (15, Exit_Rdpmc), (16, Exit_Rdtsc), (17, Exit_Rsm), (18, Exit_VmCall), (19, Exit_VmClear),
     (20, Exit_VmLaunch), (21, Exit_VmPtrLd), (22, Exit_VmPtrRst), (23, Exit_VmRead),
     (24, Exit_VmResume), (25, Exit_VmWrite), (26, Exit_VmxOff), (27, Exit_VmxOn),
     (29, Exit_MovDr), (31, Exit_RdMsr), (32, Exit_WrMsr), (33, Exit_VmEntryInvalidGuestState),
     (34, Exit_VmEntryMsrLoad), (36, Exit_Mwait), (37, Exit_MonitorTrapFlag), (39, Exit_Monitor),
     (40, Exit_Pause), (41, Exit_VmEntryMachineCheck), (43, Exit_TprBelowThreshold),
     (45, Exit_VirtualEio), (46, Exit_AccessGdtridtr), (47, Exit_AccessLdtrTr),
     (49, Exit_EptMisconfigure), (50, Exit_InvEpt), (51, Exit_Rdtscp),
     (52, Exit_VmxPreemptionTimerExpired), (53, Exit_Invvpid), (54, Exit_Wbinvd),
     (55, Exit_Xsetbv), (56, Exit_ApicWrite), (57, Exit_RdRand), (58, Exit_Invpcid),
     (59, Exit_VmFunc), (60, Exit_Encls), (61, Exit_RdSeed), (62, Exit_PageModificationLogFull),
     (63, Exit_Xsaves), (64, Exit_Xrstors)]"

definition exit_reason :: "vmcs \<Rightarrow> ExitReason res" where
  "exit_reason vmcs =
    and_then (vmcs_read VmExitReason vmcs) (\<lambda>reason.
    let basic_reason = ucast (reason AND 0x7fff); flags = reason AND ExitReasonFlags in
    and_then
      (if basic_reason = 0 then and_then (vectored_event_information vmcs) (\<lambda>info. Ok (Exit_NonMaskableInterrupt info))
       else if basic_reason = 1 then and_then (vectored_event_information vmcs) (\<lambda>info. Ok (Exit_ExternalInterrupt info))
       else if basic_reason = 28 then and_then (cr_information vmcs) (\<lambda>info. Ok (Exit_CrAccess info))
       else if basic_reason = 30 then and_then (io_instruction_information vmcs) (\<lambda>info. Ok (Exit_IoInstruction info))
       else if basic_reason = 44 then and_then (apic_access_information vmcs) (\<lambda>info. Ok (Exit_ApicAccess info))
       else if basic_reason = 48 then and_then (ept_information vmcs) (\<lambda>info. Ok (Exit_EptViolation info))
       else ok_or InvalidValue (map_of plain_exits basic_reason)) (\<lambda>info.
    Ok \<lparr>exit_flags = flags, exit_info = info\<rparr>))"

section \<open>Well-formed exits\<close>

definition exit_ok :: "ExitInformation \<Rightarrow> bool" where
  "exit_ok info =
    (case info of
       Exit_CrAccess i \<Rightarrow>
         cr_num i < 16 \<and> (cr_register i \<noteq> None \<longleftrightarrow> cr_access_type i = MovToCr \<or> cr_access_type i = MovFromCr)
     | Exit_IoInstruction i \<Rightarrow> 1 \<le> io_size i \<and> io_size i \<le> 8
     | Exit_ApicAccess i \<Rightarrow>
         (case apic_offset i of
            None \<Rightarrow> apic_kind i = PhysicalAccessDuringEvent \<or> apic_kind i = PhysicalAccessDuringFetch
          | Some offset \<Rightarrow> offset < 0x1000 \<and> apic_kind i \<noteq> PhysicalAccessDuringEvent \<and> apic_kind i \<noteq> PhysicalAccessDuringFetch)
     | _ \<Rightarrow> True)"

lemma and_mask_less: "ucast (x AND mask n :: u64) < (2 ^ n :: 'a::len word)" if "n < LENGTH('a)" "n < 64"
proof -
  have "unat (ucast (x AND mask n) :: 'a word) \<le> unat (x AND mask n)" by (simp add: unsigned_ucast_eq)
  also have "\<dots> < 2 ^ n" using that by (simp add: take_bit_eq_mask [symmetric] unsigned_take_bit_eq)
  also have "2 ^ n = unat (2 ^ n :: 'a word)"
    using that(1) unat_of_nat [of "2 ^ n", where 'a = 'a] by simp
  finally show ?thesis by (simp add: word_less_nat_alt)
qed

text \<open>A decoding gives a value with a property, or rejects its input.\<close>

definition decodes :: "('a \<Rightarrow> bool) \<Rightarrow> 'a res \<Rightarrow> bool" where
  "decodes P r = (case r of Ok x \<Rightarrow> P x | Err e \<Rightarrow> e = InvalidValue | _ \<Rightarrow> False)"

lemma decodes_Ok [simp]: "decodes P (Ok x) = P x"
  by (simp add: decodes_def)

lemma decodes_and_then: "decodes Q r \<Longrightarrow> (\<And>x. Q x \<Longrightarrow> decodes P (f x)) \<Longrightarrow> decodes P (and_then r f)"
  by (cases r) (simp_all add: decodes_def)

lemma decodes_option: "(\<And>x. y = Some x \<Longrightarrow> P x) \<Longrightarrow> decodes P (ok_or InvalidValue y)"
  by (cases y) (simp_all add: decodes_def)

lemma decodes_enum: "decodes (\<lambda>_. True) (enum_from vs code n)"
  unfolding enum_from_def by (rule decodes_option) simp

lemma decodes_wrap: "decodes (\<lambda>i. P (f i)) r \<Longrightarrow> decodes P (and_then r (\<lambda>i. Ok (f i)))"
  by (erule decodes_and_then) simp

lemma low_fields:
  fixes q :: u64
  shows "(ucast (q AND 0b1111) :: u8) < 16" "(ucast (q AND 0xfff) :: u16) < 0x1000"
    "1 \<le> (ucast (q AND 7) :: u8) + 1" "(ucast (q AND 7) :: u8) + 1 \<le> 8"
proof -
  have m: "(0b1111 :: u64) = mask 4" "(0xfff :: u64) = mask 12" "(7 :: u64) = mask 3" by (simp_all add: mask_eq_exp_minus_1)
  show "(ucast (q AND 0b1111) :: u8) < 16" using and_mask_less [of 4 q, where 'a = 8] by (simp add: m)
  show "(ucast (q AND 0xfff) :: u16) < 0x1000" using and_mask_less [of 12 q, where 'a = 16] by (simp add: m)
  have "(ucast (q AND 7) :: u8) < 8" using and_mask_less [of 3 q, where 'a = 8] by (simp add: m)
  then have "unat (ucast (q AND 7) :: u8) < 8" by (simp add: word_less_nat_alt)
  moreover then have "unat ((ucast (q AND 7) :: u8) + 1) = unat (ucast (q AND 7) :: u8) + 1"
    by (simp add: unat_word_ariths)
  ultimately show "1 \<le> (ucast (q AND 7) :: u8) + 1" "(ucast (q AND 7) :: u8) + 1 \<le> 8"
    by (simp_all add: word_le_nat_alt)
qed

lemma decodes_operand:
  "decodes (\<lambda>(num, reg, source). num < 16 \<and> (reg \<noteq> None \<longleftrightarrow> ty = MovToCr \<or> ty = MovFromCr))
    (if ty = MovToCr \<or> ty = MovFromCr
     then and_then (enum_from vs code n) (\<lambda>reg. Ok (ucast (q AND 0b1111 :: u64) :: u8, Some reg, None))
     else Ok (0, None, Some source))"
  using low_fields(1) [of q] by (auto intro!: decodes_and_then [OF decodes_enum])

lemma decodes_cr: "decodes (\<lambda>i. exit_ok (Exit_CrAccess i)) (cr_information vmcs)"
  unfolding cr_information_def vmcs_read_def and_then.simps Let_def
  by (rule decodes_and_then [OF decodes_enum], rule decodes_and_then [OF decodes_operand]) (auto simp: exit_ok_def)

lemma decodes_io: "decodes (\<lambda>i. exit_ok (Exit_IoInstruction i)) (io_instruction_information vmcs)"
  by (simp add: io_instruction_information_def vmcs_read_def exit_ok_def low_fields)

lemma decodes_apic: "decodes (\<lambda>i. exit_ok (Exit_ApicAccess i)) (apic_access_information vmcs)"
  unfolding apic_access_information_def vmcs_read_def and_then.simps Let_def
proof (rule decodes_and_then [OF decodes_enum])
  fix kind :: ApicAccessKind
  show "decodes (\<lambda>i. exit_ok (Exit_ApicAccess i)) (Ok \<lparr>apic_offset =
      (if kind = LinearRead \<or> kind = LinearWrite \<or> kind = LinearFetch \<or> kind = LinearEventDelivery
       then Some (ucast (q AND 0xfff)) else None), apic_kind = kind, async_instr_exec = b\<rparr>)" for q :: u64 and b
    using low_fields(2) [of q] by (cases kind) (simp_all add: exit_ok_def)
qed

lemma decodes_vectored: "decodes (\<lambda>_. True) (vectored_event_information vmcs)"
  by (auto simp: vectored_event_information_def vmcs_read_def Let_def intro!: decodes_and_then [OF decodes_enum])

lemma decodes_ept: "decodes (\<lambda>_. True) (ept_information vmcs)"
  by (simp add: ept_information_def vmcs_read_def)

lemma exit_ok_other:
  "exit_ok (Exit_NonMaskableInterrupt i)" "exit_ok (Exit_ExternalInterrupt i)" "exit_ok (Exit_EptViolation j)"
  by (simp_all add: exit_ok_def)

lemma decodes_plain: "decodes exit_ok (ok_or InvalidValue (map_of plain_exits n))"
proof (rule decodes_option)
  fix info assume "map_of plain_exits n = Some info"
  moreover have "list_all (\<lambda>(n, info). exit_ok info) plain_exits" by (simp add: plain_exits_def exit_ok_def)
  ultimately show "exit_ok info" by (auto dest!: map_of_SomeD simp: list_all_iff)
qed

text \<open>
  Decoded exits are well formed. Whatever the fields of the VMCS hold, an exit is decoded or rejected as invalid,
  without a panic; a decoded port access has a size from 1 to 8, an access to a control register names a general
  purpose register exactly when it is a move, and an access to the APIC page has an offset in the page exactly when
  it is an access to a linear address.
\<close>

theorem exit_reason_wellformed:
  "case exit_reason vmcs of Ok reason \<Rightarrow> exit_ok (exit_info reason) | Err e \<Rightarrow> e = InvalidValue | _ \<Rightarrow> False"
proof -
  have "decodes (\<lambda>reason. exit_ok (exit_info reason)) (exit_reason vmcs)"
    unfolding exit_reason_def vmcs_read_def and_then.simps Let_def
    by (rule decodes_wrap)
       (auto simp: exit_ok_other intro!: decodes_wrap decodes_cr decodes_io decodes_apic decodes_vectored decodes_ept decodes_plain)
  then show ?thesis by (simp add: decodes_def)
qed

end
