(* ===== verification/Emulate.thy ===== *)
theory Emulate
  imports Vmexit Vm
begin

unbundle bit_operations_syntax

text \<open>
  The emulation of guest instructions (\<open>src/mythril/src/emulate\<close>): control registers, \<open>cpuid\<close>, port
  I/O and memory-mapped I/O, over the state of the virtual CPU.

  Of the decoder \<open>iced_x86\<close> the code uses the kinds of the first two operands, their registers and the
  immediate values; an instruction is the record of these. The decoder itself, the \<open>cpuid\<close> instruction and
  the flags after \<open>invvpid\<close> are parameters, as is what a register of an I/O APIC keeps of a write.
\<close>

section \<open>The virtual CPU\<close>

text \<open>
  \<open>VCpu\<close>, next to the state of the core it runs on: the position of its machine, its VMCS, its
  local APIC and the interrupts that wait for injection, by vector.
\<close>

record vcpu_state = vm_state +
  vcpu_vm :: nat
  active_vmcs :: vmcs
  local_apic :: LocalApic
  pending_interrupts :: "(u8, InjectedInterruptType) RBT.rbt"

datatype OpKind = OpRegister | OpMemory | OpMemory64 | Immediate8 | Immediate16 | Immediate32 | Immediate64 | OtherOpKind

text \<open>
  A general purpose register (\<open>AL\<close> is the low byte of \<open>RAX\<close>, and so on) or another one, such as \<open>AH\<close>.
\<close>

datatype Width = W8 | W16 | W32 | W64

primrec width_bytes :: "Width \<Rightarrow> nat" where
  "width_bytes W8 = 1"
| "width_bytes W16 = 2"
| "width_bytes W32 = 4"
| "width_bytes W64 = 8"

datatype Register = Gpr MovCrRegister Width | OtherRegister

record Instruction =
  op0_kind :: OpKind
  op1_kind :: OpKind
  op_register :: "nat \<Rightarrow> Register"
  immediate8 :: u8
  immediate16 :: u16
  immediate32 :: u32
  immediate64 :: u64

record CpuIdResult =
  res_eax :: u32
  res_ebx :: u32
  res_ecx :: u32
  res_edx :: u32

record processor =
  host :: platform
  cpuid_count :: "u32 \<Rightarrow> u32 \<Rightarrow> CpuIdResult"
  decode :: "nat \<Rightarrow> u8 list \<Rightarrow> u64 \<Rightarrow> Instruction"
  invvpid_rflags :: "u64 \<Rightarrow> 128 word \<Rightarrow> u64"
  invvpid_errno :: "u64 \<Rightarrow> 128 word \<Rightarrow> u64"
  ioapic_store :: "u8 \<Rightarrow> u32 \<Rightarrow> u32 \<Rightarrow> u32"

text \<open>The registers of the guest, the responses so far and the core with its virtual CPU.\<close>

type_synonym 'a exit_state = "GuestCpuState \<times> DeviceEventResponse list \<times> 'a vcpu_state_scheme"

definition read_field :: "u64 \<Rightarrow> ('a vcpu_state_scheme, u64, Error) action" where
  "read_field field s = (vmcs_read field (active_vmcs s), s)"

definition write_field :: "u64 \<Rightarrow> u64 \<Rightarrow> ('a vcpu_state_scheme, unit, Error) action" where
  "write_field field val s = (case vmcs_write field val (active_vmcs s) of (r, v) \<Rightarrow> (r, s\<lparr>active_vmcs := v\<rparr>))"

section \<open>Invalidation\<close>

datatype InvVpidMode =
    IndividualAddress u16 GuestVirtAddr
  | SingleContext u16
  | AllContext
  | SingleContextRetainGlobal u16

primrec invvpid_operands :: "InvVpidMode \<Rightarrow> u64 \<times> 128 word" where
  "invvpid_operands (IndividualAddress vpid addr) = (0, ucast vpid OR push_bit 64 (ucast (guest_virt_addr_as_u64 addr)))"
| "invvpid_operands (SingleContext vpid) = (1, ucast vpid)"
| "invvpid_operands AllContext = (2, 0)"
| "invvpid_operands (SingleContextRetainGlobal vpid) = (3, ucast vpid)"

definition invvpid :: "processor \<Rightarrow> InvVpidMode \<Rightarrow> unit res" where
  "invvpid hw mode =
    (let (t, val) = invvpid_operands mode
     in check_vm_insruction (invvpid_rflags hw t val) (invvpid_errno hw t val))"

section \<open>Control registers\<close>

definition emulate_access :: "processor \<Rightarrow> CrInformation \<Rightarrow> (GuestCpuState \<times> 'a vcpu_state_scheme, unit, Error) action" where
  "emulate_access hw info = (\<lambda>(cpu, s).
    if cr_num info = 0 then
      (case cr_access_type info of
         Clts \<Rightarrow> on_snd (bind_state (read_field GuestCr0) (\<lambda>cr0. write_field GuestCr0 (cr0 AND NOT 0b1000)))
       | MovToCr \<Rightarrow>
           bind_state (lift_state (unwrap (cr_register info))) (\<lambda>reg.
           bind_state (lift_state (mov_cr_read reg (active_vmcs s) cpu)) (\<lambda>val.
           on_snd (write_field GuestCr0 val)))
       | _ \<Rightarrow> lift_state Panic) (cpu, s)
    else if cr_num info = 3 then
      (case cr_access_type info of
         MovToCr \<Rightarrow>
           bind_state (lift_state (unwrap (cr_register info))) (\<lambda>reg.
           bind_state (lift_state (mov_cr_read reg (active_vmcs s) cpu)) (\<lambda>val.
           bind_state
             (if val AND push_bit 63 1 = 0 then
                bind_state (on_snd (read_field VirtualProcessorId)) (\<lambda>vpid.
                bind_state (lift_state (invvpid hw (SingleContextRetainGlobal (ucast vpid)))) (\<lambda>_.
                return_state val))
              else return_state (val AND NOT (push_bit 63 1))) (\<lambda>val.
           on_snd (write_field GuestCr3 val))))
       | MovFromCr \<Rightarrow>
           bind_state (lift_state (unwrap (cr_register info))) (\<lambda>reg.
           bind_state (on_snd (read_field GuestCr3)) (\<lambda>val (cpu, s).
             case mov_cr_write reg val (active_vmcs s, cpu) of
               (r, v, cpu') \<Rightarrow> (r, cpu', s\<lparr>active_vmcs := v\<rparr>)))
       | _ \<Rightarrow> lift_state Panic) (cpu, s)
    else (Err InvalidValue, cpu, s))"

section \<open>Processor identification\<close>

definition emulate_cpuid :: "processor \<Rightarrow> 'a core_state_scheme \<Rightarrow> GuestCpuState \<Rightarrow> GuestCpuState" where
  "emulate_cpuid hw s cpu =
    (let res = cpuid_count hw (ucast (rax cpu)) (ucast (rcx cpu));
         res = (if (ucast (rax cpu) :: u32) = 1 then
                  res\<lparr>res_edx := res_edx res AND NOT (push_bit 12 1),
                      res_ecx := res_ecx res AND NOT (push_bit 26 1) AND NOT (push_bit 31 1) AND NOT (push_bit 24 1)\<rparr>
                else if (ucast (rax cpu) :: u32) = 0x0b then res\<lparr>res_edx := this_core s\<rparr>
                else res)
     in cpu\<lparr>rax := ucast (res_eax res) OR (rax cpu AND 0xffffffff00000000),
            rbx := ucast (res_ebx res) OR (rbx cpu AND 0xffffffff00000000),
            rcx := ucast (res_ecx res) OR (rcx cpu AND 0xffffffff00000000),
            rdx := ucast (res_edx res) OR (rdx cpu AND 0xffffffff00000000)\<rparr>)"

section \<open>Port I/O\<close>

definition vcpu_dispatch ::
  "processor \<Rightarrow> Ident \<Rightarrow> DeviceEvent \<Rightarrow> (DeviceEventResponse list \<times> 'a vcpu_state_scheme, DeviceEvent, Error) action" where
  "vcpu_dispatch hw ident event = (\<lambda>(rs, s). dispatch_event (host hw) (vcpu_vm s) ident event (active_vmcs s) (rs, s))"

text \<open>\<open>slice::chunks_exact\<close>\<close>

definition chunks_exact :: "nat \<Rightarrow> 'b list \<Rightarrow> 'b list list" where
  "chunks_exact n xs = map (\<lambda>i. take n (drop (i * n) xs)) [0..<length xs div n]"

definition guest_view :: "'a vcpu_state_scheme \<Rightarrow> GuestAddressSpaceView res" where
  "guest_view s = view_from_vmcs (active_vmcs s) (guest_space (vms s ! vcpu_vm s))"

definition outs_chunk ::
  "processor \<Rightarrow> Port \<Rightarrow> u8 list \<Rightarrow> (DeviceEventResponse list \<times> 'a vcpu_state_scheme, unit, Error) action" where
  "outs_chunk hw port chunk =
    bind_state (lift_state (write_request_try_from chunk)) (\<lambda>request.
    bind_state (vcpu_dispatch hw (AtPort port) (PortWrite port request)) (\<lambda>_. return_state ()))"

definition emulate_outs :: "processor \<Rightarrow> Port \<Rightarrow> IoInstructionInformation \<Rightarrow> ('a exit_state, unit, Error) action" where
  "emulate_outs hw port exit = (\<lambda>(cpu, rs, s).
    bind_state (on_snd (on_snd (read_field GuestLinearAddress))) (\<lambda>linear_addr.
    bind_state (lift_state (guest_virt_addr_new linear_addr (active_vmcs s))) (\<lambda>guest_addr.
    bind_state (lift_state (guest_view s)) (\<lambda>view.
    bind_state (lift_state (view_read_bytes (entry_address (host hw)) view guest_addr
        (rcx cpu * ucast (io_size exit)) (Read 0) (memory s))) (\<lambda>bytes.
    bind_state (on_snd (for_each (outs_chunk hw port) (chunks_exact (unat (io_size exit)) bytes))) (\<lambda>_.
    on_fst (\<lambda>cpu. (Ok (), cpu\<lparr>rsi := rsi cpu + of_nat (length bytes), rcx := 0\<rparr>))))))) (cpu, rs, s))"

fun reply_bytes :: "DeviceEvent \<Rightarrow> u8 list" where
  "reply_bytes (PortRead port req) = read_as_slice req"
| "reply_bytes (MemRead addr req) = req"
| "reply_bytes _ = []"

primrec ins_chunks ::
  "processor \<Rightarrow> Port \<Rightarrow> u8 list list \<Rightarrow> (DeviceEventResponse list \<times> 'a vcpu_state_scheme, u8 list, Error) action" where
  "ins_chunks hw port [] = return_state []"
| "ins_chunks hw port (chunk # rest) =
    bind_state (lift_state (read_request_try_from chunk)) (\<lambda>request.
    bind_state (vcpu_dispatch hw (AtPort port) (PortRead port request)) (\<lambda>event.
    bind_state (ins_chunks hw port rest) (\<lambda>bytes. return_state (reply_bytes event @ bytes))))"

text \<open>
  \<open>vec!\<close> of more than \<open>isize::MAX\<close> bytes panics. The bytes of an incomplete last chunk stay 0.
\<close>

definition emulate_ins :: "processor \<Rightarrow> Port \<Rightarrow> IoInstructionInformation \<Rightarrow> ('a exit_state, unit, Error) action" where
  "emulate_ins hw port exit = (\<lambda>(cpu, rs, s).
    bind_state (on_snd (on_snd (read_field GuestLinearAddress))) (\<lambda>linear_addr.
    bind_state (lift_state (guest_virt_addr_new linear_addr (active_vmcs s))) (\<lambda>guest_addr.
    bind_state (if unat (rcx cpu) < 2 ^ 63 then return_state (replicate (unat (rcx cpu)) 0) else lift_state Panic) (\<lambda>bytes.
    bind_state (on_snd (ins_chunks hw port (chunks_exact (unat (io_size exit)) bytes))) (\<lambda>filled.
    let bytes = filled @ drop (length filled) bytes in
    bind_state (\<lambda>(cpu, rs, s). (guest_view s, cpu, rs, s)) (\<lambda>view.
    bind_state (on_snd (on_snd (\<lambda>s.
        case view_write_bytes (entry_address (host hw)) view guest_addr bytes (Read 0) (memory s) of
          (r, m) \<Rightarrow> (r, s\<lparr>memory := m\<rparr>)))) (\<lambda>_.
    on_fst (\<lambda>cpu. (Ok (), cpu\<lparr>rdi := rdi cpu + of_nat (length bytes), rcx := 0\<rparr>)))))))) (cpu, rs, s))"

text \<open>\<open>&arr[4 - size as usize..]\<close>\<close>

definition last_bytes :: "u8 \<Rightarrow> u8 list \<Rightarrow> u8 list res" where
  "last_bytes sz arr = (if unat sz \<le> 4 then Ok (drop (4 - unat sz) arr) else Panic)"

definition emulate_portio :: "processor \<Rightarrow> IoInstructionInformation \<Rightarrow> ('a exit_state, unit, Error) action" where
  "emulate_portio hw exit = (\<lambda>(cpu, rs, s).
    (if \<not> io_string exit then
       if \<not> io_input exit then
         bind_state (lift_state (last_bytes (io_size exit) (be_bytes 4 (ucast (rax cpu) :: u32)))) (\<lambda>arr.
         on_snd (outs_chunk hw (io_port exit) arr))
       else
         bind_state (lift_state (last_bytes (io_size exit) [0, 0, 0, 0])) (\<lambda>arr.
         bind_state (lift_state (read_request_try_from arr)) (\<lambda>request.
         bind_state (on_snd (vcpu_dispatch hw (AtPort (io_port exit)) (PortRead (io_port exit) request))) (\<lambda>event.
         let arr = replicate (4 - unat (io_size exit)) 0 @ reply_bytes event in
         on_fst (\<lambda>cpu.
           let cleared = rax cpu AND push_bit (unat (io_size exit * 8)) (NOT (rax cpu))
           in (Ok (), cpu\<lparr>rax := cleared OR ucast (from_be_bytes arr :: u32)\<rparr>)))))
     else if \<not> io_input exit then emulate_outs hw (io_port exit) exit
     else emulate_ins hw (io_port exit) exit) (cpu, rs, s))"

section \<open>Memory-mapped I/O\<close>

type_synonym 'a MemIoCallback =
  "GuestPhysAddr \<Rightarrow> DeviceEvent \<Rightarrow> (DeviceEventResponse list \<times> 'a vcpu_state_scheme, DeviceEvent, Error) action"

definition read_register_value :: "Register \<Rightarrow> vmcs \<Rightarrow> GuestCpuState \<Rightarrow> u8 list res" where
  "read_register_value reg vmcs cpu =
    (case reg of
       Gpr r w \<Rightarrow> and_then (mov_cr_read r vmcs cpu) (\<lambda>v. Ok (be_bytes (width_bytes w) v))
     | OtherRegister \<Rightarrow> Err InvalidValue)"

definition mmio_data :: "Instruction \<Rightarrow> vmcs \<Rightarrow> GuestCpuState \<Rightarrow> u8 list res" where
  "mmio_data instr vmcs cpu =
    (case op1_kind instr of
       OpRegister \<Rightarrow> read_register_value (op_register instr 1) vmcs cpu
     | Immediate8 \<Rightarrow> Ok (be_bytes 1 (immediate8 instr))
     | Immediate16 \<Rightarrow> Ok (be_bytes 2 (immediate16 instr))
     | Immediate32 \<Rightarrow> Ok (be_bytes 4 (immediate32 instr))
     | Immediate64 \<Rightarrow> Ok (be_bytes 8 (immediate64 instr))
     | _ \<Rightarrow> Err NotSupported)"

definition do_mmio_write :: "GuestPhysAddr \<Rightarrow> Instruction \<Rightarrow> 'a MemIoCallback \<Rightarrow> ('a exit_state, unit, Error) action" where
  "do_mmio_write addr instr on_write = (\<lambda>(cpu, rs, s).
    bind_state (lift_state (mmio_data instr (active_vmcs s) cpu)) (\<lambda>data.
    bind_state (on_snd (on_write addr (MemWrite addr data))) (\<lambda>_. return_state ())) (cpu, rs, s))"

text \<open>The register a read goes to, and the number of bytes; the stack and the base pointer are not among them.\<close>

definition mmio_destination :: "Instruction \<Rightarrow> (MovCrRegister \<times> nat) res" where
  "mmio_destination instr =
    (if op0_kind instr = OpRegister then
       (case op_register instr 0 of
          Gpr r w \<Rightarrow> if r = MovRsp \<or> r = MovRbp then Err InvalidValue else Ok (r, width_bytes w)
        | OtherRegister \<Rightarrow> Err InvalidValue)
     else Err NotSupported)"

definition do_mmio_read :: "GuestPhysAddr \<Rightarrow> Instruction \<Rightarrow> 'a MemIoCallback \<Rightarrow> ('a exit_state, unit, Error) action" where
  "do_mmio_read addr instr on_read =
    bind_state (lift_state (mmio_destination instr)) (\<lambda>(reg, sz).
    bind_state (on_snd (on_read addr (MemRead addr (replicate sz 0)))) (\<lambda>event.
    bind_state (\<lambda>(cpu, rs, s). (mov_cr_read reg (active_vmcs s) cpu, cpu, rs, s)) (\<lambda>old (cpu, rs, s).
      let val = from_le_bytes (reply_bytes event) :: u64
      in case mov_cr_write reg ((old AND NOT (mask (8 * sz))) OR val) (active_vmcs s, cpu) of
           (r, v, cpu') \<Rightarrow> (r, cpu', rs, s\<lparr>active_vmcs := v\<rparr>))))"

definition process_memio_op ::
  "processor \<Rightarrow> GuestPhysAddr \<Rightarrow> 'a MemIoCallback \<Rightarrow> 'a MemIoCallback \<Rightarrow> ('a exit_state, unit, Error) action" where
  "process_memio_op hw addr on_read on_write = (\<lambda>(cpu, rs, s).
    bind_state (on_snd (on_snd (read_field VmExitInstructionLen))) (\<lambda>instruction_len.
    bind_state (on_snd (on_snd (read_field GuestRip))) (\<lambda>ip.
    bind_state (lift_state (guest_virt_addr_new ip (active_vmcs s))) (\<lambda>ip_addr.
    bind_state (lift_state (guest_view s)) (\<lambda>view.
    bind_state (lift_state (view_read_bytes (entry_address (host hw)) view ip_addr instruction_len (Read 0) (memory s))) (\<lambda>bytes.
    bind_state (on_snd (on_snd (read_field GuestIa32Efer))) (\<lambda>efer.
    let mode = (if efer AND 0x100 \<noteq> 0 then 64 else 32);
        instr = decode hw mode bytes ip
    in if op0_kind instr = OpMemory \<or> op0_kind instr = OpMemory64 then do_mmio_write addr instr on_write
       else if op1_kind instr = OpMemory \<or> op1_kind instr = OpMemory64 then do_mmio_read addr instr on_read
       else lift_state (Err InvalidValue))))))) (cpu, rs, s))"

definition on_ept_violation :: "processor \<Rightarrow> 'a MemIoCallback" where
  "on_ept_violation hw addr event = vcpu_dispatch hw (AtAddr addr) event"

definition handle_ept_violation :: "processor \<Rightarrow> EptInformation \<Rightarrow> ('a exit_state, unit, Error) action" where
  "handle_ept_violation hw exit =
    bind_state (on_snd (on_snd (read_field GuestPhysicalAddress))) (\<lambda>addr.
    process_memio_op hw addr (on_ept_violation hw) (on_ept_violation hw))"

definition address_to_apic_offset :: "GuestPhysAddr \<Rightarrow> u16 res" where
  "address_to_apic_offset addr =
    (if GUEST_LOCAL_APIC_ADDR \<le> addr \<and> addr < GUEST_LOCAL_APIC_ADDR + of_nat BASE_PAGE_SIZE
     then Ok (ucast ((addr - GUEST_LOCAL_APIC_ADDR) div 4)) else Panic)"

text \<open>\<open>copy_from_slice\<close> panics when the lengths differ.\<close>

definition on_apic_read :: "'a MemIoCallback" where
  "on_apic_read addr event = (\<lambda>(rs, s).
    bind_state (lift_state (address_to_apic_offset addr)) (\<lambda>offset.
    bind_state (lift_state (register_read offset s)) (\<lambda>res.
      case event of
        MemRead a req \<Rightarrow> if length req = 4 then return_state (MemRead a (be_bytes 4 res)) else lift_state Panic
      | _ \<Rightarrow> lift_state (Err NotSupported))) (rs, s))"

definition on_apic_write :: "'a MemIoCallback" where
  "on_apic_write addr event =
    bind_state (lift_state (address_to_apic_offset addr)) (\<lambda>offset.
    bind_state
      (case event of
         MemWrite a req \<Rightarrow> if length req = 4 then return_state (from_be_bytes req) else lift_state Panic
       | _ \<Rightarrow> lift_state (Err NotSupported)) (\<lambda>val.
    on_snd (\<lambda>s.
      case register_write (vcpu_vm s) offset val (local_apic s, s) of
        (r, l, s') \<Rightarrow> (and_then r (\<lambda>_. Ok event), s'\<lparr>local_apic := l\<rparr>))))"

definition handle_apic_access :: "processor \<Rightarrow> ApicAccessInformation \<Rightarrow> ('a exit_state, unit, Error) action" where
  "handle_apic_access hw exit =
    bind_state (lift_state (unwrap (apic_offset exit))) (\<lambda>offset.
    process_memio_op hw (GUEST_LOCAL_APIC_ADDR + ucast offset * 4) on_apic_read on_apic_write)"

end
