(* ===== verification/Vcpu.thy ===== *)
theory Vcpu
  imports Ioapic Emulate
begin

unbundle bit_operations_syntax

text \<open>
  Virtual CPUs (\<open>src/mythril/src/vcpu.rs\<close>, with \<open>vmx.rs\<close> and the handler of \<open>vmexit.rs\<close>): the set-up of the
  VMCS, the start of the cores of a guest, the handling of VM exits and the injection of interrupts.

  The addresses of the stack, the descriptor tables and the exit handler, the contents of a fresh VMCS and the
  flags after the instructions \<open>vmxon\<close> and \<open>vmptrld\<close> are parameters. The pointer to the virtual
  CPU on the host stack, by which the exit handler finds it, is not modelled.
\<close>

record run_state = vcpu_state +
  ioapic_regs :: ioapic_state
  console :: "u8 list"
  serial_data :: "Port \<Rightarrow> nat \<Rightarrow> u8"
  serial_reads :: nat
  host_cr0 :: u64
  host_cr4 :: u64

record host_values =
  host_cr3 :: u64
  gdt64_code :: u64
  gdt64_data :: u64
  idtr_base :: u64
  gdtr_base :: u64
  host_stack :: u64
  exit_handler :: u64
  has_vmx :: bool
  vmxon_rflags :: "u64 \<Rightarrow> u64"
  vmxon_errno :: "u64 \<Rightarrow> u64"
  vmptrld_rflags :: "u64 \<Rightarrow> u64"
  vmptrld_errno :: "u64 \<Rightarrow> u64"
  fresh_vmcs :: vmcs

section \<open>VMX operation\<close>

definition IA32_VMX_BASIC :: u32 where "IA32_VMX_BASIC = 0x480"
definition IA32_VMX_PINBASED_CTLS :: u32 where "IA32_VMX_PINBASED_CTLS = 0x481"
definition IA32_VMX_PROCBASED_CTLS :: u32 where "IA32_VMX_PROCBASED_CTLS = 0x482"
definition IA32_VMX_EXIT_CTLS :: u32 where "IA32_VMX_EXIT_CTLS = 0x483"
definition IA32_VMX_ENTRY_CTLS :: u32 where "IA32_VMX_ENTRY_CTLS = 0x484"
definition IA32_VMX_CR0_FIXED0 :: u32 where "IA32_VMX_CR0_FIXED0 = 0x486"
definition IA32_VMX_CR4_FIXED0 :: u32 where "IA32_VMX_CR4_FIXED0 = 0x488"
definition IA32_VMX_PROCBASED_CTLS2 :: u32 where "IA32_VMX_PROCBASED_CTLS2 = 0x48b"
definition IA32_EFER :: u32 where "IA32_EFER = 0xc0000080"
definition IA32_FS_BASE :: u32 where "IA32_FS_BASE = 0xc0000100"
definition IA32_GS_BASE :: u32 where "IA32_GS_BASE = 0xc0000101"

text \<open>A boxed page, zero except for the bytes stored at an offset.\<close>

definition new_page :: "processor \<Rightarrow> u64 \<Rightarrow> u8 list \<Rightarrow> ('a vcpu_state_scheme, u64, Error) action" where
  "new_page hw offset bs s =
    (case alloc_page (box_new (host hw)) (memory s) of
       (Ok page, m) \<Rightarrow> (Ok page, s\<lparr>memory := ram_write (page + offset) bs m\<rparr>)
     | (r, m) \<Rightarrow> (r, s\<lparr>memory := m\<rparr>))"

definition revision_page :: "processor \<Rightarrow> (u32 \<Rightarrow> u64) \<Rightarrow> (run_state, u64, Error) action" where
  "revision_page hw rdmsr = new_page hw 0 (le_bytes 4 (ucast (rdmsr IA32_VMX_BASIC) :: u32))"

definition vmx_enable :: "processor \<Rightarrow> host_values \<Rightarrow> (run_state, unit, Error) action" where
  "vmx_enable hw h =
    (if \<not> has_vmx h then lift_state (Err NotSupported)
     else
       bind_state (\<lambda>s. (Ok (), s\<lparr>host_cr0 := host_cr0 s OR 0x20, host_cr4 := host_cr4 s OR push_bit 13 1\<rparr>)) (\<lambda>_.
       bind_state (revision_page hw (msrs (fresh_vmcs h))) (\<lambda>region.
       lift_state (check_vm_insruction (vmxon_rflags h region) (vmxon_errno h region)))))"

definition vmcs_activate :: "processor \<Rightarrow> host_values \<Rightarrow> (run_state, unit, Error) action" where
  "vmcs_activate hw h =
    bind_state (revision_page hw (msrs (fresh_vmcs h))) (\<lambda>region.
    bind_state (lift_state (check_vm_insruction (vmptrld_rflags h region) (vmptrld_errno h region))) (\<lambda>_ s.
      (Ok (), s\<lparr>active_vmcs := fresh_vmcs h\<rparr>)))"

section \<open>The initial VMCS\<close>

definition write_fields :: "(u64 \<times> u64) list \<Rightarrow> (vmcs, unit, Error) action" where
  "write_fields = for_each (\<lambda>(field, val). vmcs_write field val)"

definition initialize_host_vmcs :: "host_values \<Rightarrow> u64 \<Rightarrow> u64 \<Rightarrow> u64 \<Rightarrow> (vmcs, unit, Error) action" where
  "initialize_host_vmcs h cr0 cr4 stack = (\<lambda>v. write_fields
    [(HostCr0, cr0), (HostCr3, host_cr3 h), (HostCr4, cr4),
     (HostCsSelector, gdt64_code h), (HostSsSelector, gdt64_data h), (HostDsSelector, gdt64_data h),
     (HostEsSelector, gdt64_data h), (HostFsSelector, gdt64_data h), (HostGsSelector, gdt64_data h),
     (HostTrSelector, gdt64_data h),
     (HostIa32SysenterCs, 0x00), (HostIa32SysenterEsp, 0x00), (HostIa32SysenterEip, 0x00),
     (HostIdtrBase, idtr_base h), (HostGdtrBase, gdtr_base h),
     (HostFsBase, msrs v IA32_FS_BASE), (HostGsBase, msrs v IA32_GS_BASE), (HostRsp, stack),
     (HostIa32Efer, msrs v IA32_EFER), (HostRip, exit_handler h)] v)"

definition guest_segments :: "(u64 \<times> u64) list" where
  "guest_segments =
    [(GuestEsSelector, 0x00), (GuestCsSelector, 0xf000), (GuestSsSelector, 0x00), (GuestDsSelector, 0x00),
     (GuestFsSelector, 0x00), (GuestGsSelector, 0x00), (GuestTrSelector, 0x00), (GuestLdtrSelector, 0x00),
     (GuestEsBase, 0x00), (GuestCsBase, 0xffff0000), (GuestSsBase, 0x00), (GuestDsBase, 0x00), (GuestFsBase, 0x00),
     (GuestGsBase, 0x00), (GuestTrBase, 0x00), (GuestLdtrBase, 0x00), (GuestIdtrBase, 0x00), (GuestGdtrBase, 0x00),
     (GuestEsLimit, 0xffff), (GuestCsLimit, 0xffff), (GuestSsLimit, 0xffff), (GuestDsLimit, 0xffff),
     (GuestFsLimit, 0xffff), (GuestGsLimit, 0xffff), (GuestTrLimit, 0xffff), (GuestLdtrLimit, 0xffff),
     (GuestIdtrLimit, 0xffff), (GuestGdtrLimit, 0xffff),
     (GuestEsArBytes, 0x0093), (GuestSsArBytes, 0x0093), (GuestDsArBytes, 0x0093), (GuestFsArBytes, 0x0093),
     (GuestGsArBytes, 0x0093), (GuestCsArBytes, 0x009b), (GuestLdtrArBytes, 0x0082), (GuestTrArBytes, 0x008b)]"

definition initialize_guest_vmcs :: "(vmcs, unit, Error) action" where
  "initialize_guest_vmcs v =
    (let cr0_fixed0 = msrs v IA32_VMX_CR0_FIXED0 AND NOT (push_bit 0 1) AND NOT (push_bit 31 1);
         cr4_fixed0 = msrs v IA32_VMX_CR4_FIXED0
     in write_fields
       (guest_segments @
        [(GuestInterruptibilityInfo, 0x00), (GuestDr7, 0x00), (GuestRsp, 0x00), (GuestRflags, push_bit 1 1),
         (VmcsLinkPointer, 0xffffffff), (VmcsLinkPointerHigh, 0xffffffff), (GuestIa32Efer, 0x00),
         (Cr0GuestHostMask, cr0_fixed0 AND 0x00000000ffffffff), (Cr4GuestHostMask, cr4_fixed0 AND 0x00000000ffffffff),
         (GuestCr0, cr0_fixed0), (GuestCr4, cr4_fixed0), (Cr0ReadShadow, 0x00), (Cr4ReadShadow, 0x00),
         (GuestCr3, 0x00), (GuestRip, 0xfff0), (GuestActivityState, ucast (activity_state_code Active))]) v)"

definition INTERRUPT_WINDOW_EXITING :: u64 where "INTERRUPT_WINDOW_EXITING = 0x4"
definition UNCOND_IO_EXITING :: u64 where "UNCOND_IO_EXITING = 0x01000000"
definition TPR_SHADOW :: u64 where "TPR_SHADOW = 0x00200000"
definition ACTIVATE_MSR_BITMAP :: u64 where "ACTIVATE_MSR_BITMAP = 0x10000000"
definition ACTIVATE_SECONDARY_CONTROLS :: u64 where "ACTIVATE_SECONDARY_CONTROLS = 0x80000000"

text \<open>
  \<open>VIRTUALIZE_APIC_ACCESSES\<close>, \<open>ENABLE_EPT\<close>, \<open>ENABLE_RDTSCP\<close>, \<open>ENABLE_VPID\<close>,
  \<open>ENABLE_INVPCID\<close> and \<open>UNRESTRICTED_GUEST\<close>
\<close>

definition secondary_controls :: u64 where
  "secondary_controls = 0x1 OR 0x2 OR 0x8 OR 0x20 OR 0x1000 OR 0x80"

definition EXT_INTR_EXIT :: u64 where "EXT_INTR_EXIT = 0x1"

text \<open>\<open>IA32E_MODE\<close>, \<open>ACK_INTR_ON_EXIT\<close> and \<open>SAVE_GUEST_EFER\<close>\<close>

definition exit_controls :: u64 where "exit_controls = 0x200 OR 0x8000 OR 0x100000"

definition write_with_fixed :: "u64 \<Rightarrow> u64 \<Rightarrow> u32 \<Rightarrow> ('a vcpu_state_scheme, unit, Error) action" where
  "write_with_fixed field val msr s =
    (case vmcs_write_with_fixed field val msr (active_vmcs s) of
       (r, v) \<Rightarrow> (and_then r (\<lambda>_. Ok ()), s\<lparr>active_vmcs := v\<rparr>))"

definition initialize_ctrl_vmcs :: "processor \<Rightarrow> ('a vcpu_state_scheme, unit, Error) action" where
  "initialize_ctrl_vmcs hw =
    bind_state (write_with_fixed CpuBasedVmExecControl
      (UNCOND_IO_EXITING OR TPR_SHADOW OR ACTIVATE_MSR_BITMAP OR ACTIVATE_SECONDARY_CONTROLS) IA32_VMX_PROCBASED_CTLS) (\<lambda>_.
    bind_state (write_with_fixed SecondaryVmExecControl secondary_controls IA32_VMX_PROCBASED_CTLS2) (\<lambda>_.
    bind_state (\<lambda>s. write_field VirtualProcessorId (ucast (this_core s) + 1) s) (\<lambda>_.
    bind_state (write_with_fixed PinBasedVmExecControl EXT_INTR_EXIT IA32_VMX_PINBASED_CTLS) (\<lambda>_.
    bind_state (write_with_fixed VmExitControls exit_controls IA32_VMX_EXIT_CTLS) (\<lambda>_.
    bind_state (write_with_fixed VmEntryControls 0 IA32_VMX_ENTRY_CTLS) (\<lambda>_.
    bind_state (new_page hw 3 [push_bit 3 1]) (\<lambda>msr_bitmap.
    bind_state (write_field MsrBitmap msr_bitmap) (\<lambda>_.
    bind_state (write_field ExceptionBitmap 0) (\<lambda>_.
    bind_state (write_field Cr3TargetCount 0) (\<lambda>_.
    write_field TprThreshold 0))))))))))"

definition on_vmcs :: "(vmcs, 'b, Error) action \<Rightarrow> ('a vcpu_state_scheme, 'b, Error) action" where
  "on_vmcs f s = (case f (active_vmcs s) of (r, v) \<Rightarrow> (r, s\<lparr>active_vmcs := v\<rparr>))"

definition PER_CORE_HOST_STACK_SIZE :: u64 where "PER_CORE_HOST_STACK_SIZE = 1024 * 1024"

definition vcpu_new :: "processor \<Rightarrow> host_values \<Rightarrow> nat \<Rightarrow> (run_state, unit, Error) action" where
  "vcpu_new hw h v =
    bind_state (vmx_enable hw h) (\<lambda>_.
    bind_state (vmcs_activate hw h) (\<lambda>_.
    bind_state (\<lambda>s. (Ok (), s\<lparr>vcpu_vm := v, local_apic := lapic_new, pending_interrupts := RBT.empty\<rparr>)) (\<lambda>_.
    bind_state (\<lambda>s. write_field EptPointer (eptp (guest_space (vms s ! v))) s) (\<lambda>_.
    bind_state (\<lambda>s. write_field ApicAccessAddr (apic_access_page (vms s ! v)) s) (\<lambda>_.
    bind_state (\<lambda>s. on_vmcs (initialize_host_vmcs h (host_cr0 s) (host_cr4 s)
        (host_stack h + PER_CORE_HOST_STACK_SIZE - 8)) s) (\<lambda>_.
    bind_state (on_vmcs initialize_guest_vmcs) (\<lambda>_.
    initialize_ctrl_vmcs hw)))))))"

section \<open>Starting the cores of a guest\<close>

definition start_at :: "GuestPhysAddr \<Rightarrow> (vmcs, unit, Error) action" where
  "start_at addr = write_fields [(GuestCsSelector, drop_bit 4 addr), (GuestCsBase, 0x0000), (GuestRip, 0)]"

text \<open>
  \<open>wait_for_init\<close> polls its queue; \<open>others n\<close> is what the other cores do before the poll \<open>n\<close>, and
  \<open>None\<close> is a wait that never ends.
\<close>

partial_function (option) wait_for_init ::
  "(nat \<Rightarrow> 'a vcpu_state_scheme \<Rightarrow> 'a vcpu_state_scheme) \<Rightarrow> nat \<Rightarrow> 'a vcpu_state_scheme \<Rightarrow>
    (unit res \<times> 'a vcpu_state_scheme) option" where
  "wait_for_init others n s =
    (case recv_msg (others n s) of
       (Ok msg, s') \<Rightarrow>
         (case msg of
            Some (StartVcpu addr) \<Rightarrow> Some (on_vmcs (start_at addr) s')
          | _ \<Rightarrow> wait_for_init others (Suc n) s')
     | (Err e, s') \<Rightarrow> Some (Err e, s')
     | (Panic, s') \<Rightarrow> Some (Panic, s')
     | (Undefined, s') \<Rightarrow> Some (Undefined, s'))"

partial_function (option) wait_cores_ready ::
  "(nat \<Rightarrow> run_state \<Rightarrow> run_state) \<Rightarrow> nat \<Rightarrow> run_state \<Rightarrow> run_state option" where
  "wait_cores_ready others n s =
    (if all_cores_ready (vms s ! vcpu_vm s) then Some s else wait_cores_ready others (Suc n) (others n s))"

text \<open>
  \<open>mp_entry_point\<close> up to the launch; every failure is an \<open>expect\<close>, which panics.
\<close>

definition mp_entry_point ::
  "processor \<Rightarrow> host_values \<Rightarrow> (nat \<Rightarrow> run_state \<Rightarrow> run_state) \<Rightarrow> run_state \<Rightarrow> (unit res \<times> run_state) option" where
  "mp_entry_point hw h others s =
    (case bind_state init_timer_wheel (\<lambda>_ s.
            bind_state (lift_state (unwrap (get_by_core_id (this_core s) s))) (\<lambda>v.
            bind_state (\<lambda>s. case vcpu_new hw h v s of (Err e, s') \<Rightarrow> (Panic, s') | x \<Rightarrow> x) (\<lambda>_ s.
            bind_state (lift_state (bsp_id (vms s ! v))) (\<lambda>bsp s. (Ok (bsp = this_core s), notify_ready v s)) s)) s) s of
       (Ok is_vm_bsp, s') \<Rightarrow>
         (case wait_cores_ready others 0 s' of
            None \<Rightarrow> None
          | Some s'' \<Rightarrow>
              if is_vm_bsp then Some (Ok (), s'')
              else map_option (\<lambda>(r, t). (case r of Err e \<Rightarrow> Panic | _ \<Rightarrow> r, t)) (wait_for_init others 0 s''))
     | (Err e, s') \<Rightarrow> Some (Panic, s')
     | (Panic, s') \<Rightarrow> Some (Panic, s')
     | (Undefined, s') \<Rightarrow> Some (Undefined, s'))"

section \<open>Interrupts\<close>

definition inject_interrupt :: "u8 \<Rightarrow> InjectedInterruptType \<Rightarrow> 'a vcpu_state_scheme \<Rightarrow> 'a vcpu_state_scheme" where
  "inject_interrupt vector kind s = s\<lparr>pending_interrupts := RBT.insert vector kind (pending_interrupts s)\<rparr>"

definition route_interrupt :: "u32 \<Rightarrow> ('a vcpu_state_scheme, unit, Error) action" where
  "route_interrupt gsi s =
    bind_state (lift_state (gsi_destination (vcpu_vm s) gsi s)) (\<lambda>(destination, vector, kind) s.
      if destination = this_core s then (Ok (), inject_interrupt vector kind s)
      else send_msg_core (GuestInterrupt kind vector) destination True s) s"

definition fire_timer :: "TimerInterruptType \<Rightarrow> ('a vcpu_state_scheme, unit, Error) action" where
  "fire_timer event =
    (case event of
       Direct vector kind \<Rightarrow> (\<lambda>s. (Ok (), inject_interrupt vector kind s))
     | TimerGSI gsi \<Rightarrow> route_interrupt gsi)"

text \<open>\<open>InterruptibilityState::from_bits\<close>\<close>

definition interruptibility_from_bits :: "u64 \<Rightarrow> u64 option" where
  "interruptibility_from_bits bits = (if bits AND NOT 0x1f = 0 then Some bits else None)"

definition pop_pending :: "('a vcpu_state_scheme, unit, Error) action" where
  "pop_pending s =
    (case RBT.entries (pending_interrupts s) of
       [] \<Rightarrow> (Ok (), s)
     | (vector, kind) # _ \<Rightarrow>
         write_field VmEntryIntrInfoField
           (0x80000000 OR ucast vector OR push_bit 8 (ucast (injected_interrupt_code kind)))
           (s\<lparr>pending_interrupts := RBT.delete vector (pending_interrupts s)\<rparr>))"

text \<open>The end of \<open>handle_vmexit\<close>: at most one pending interrupt is injected.\<close>

definition deliver_pending :: "('a vcpu_state_scheme, unit, Error) action" where
  "deliver_pending s =
    (if RBT.is_empty (pending_interrupts s) then (Ok (), s)
     else
       bind_state (read_field GuestInterruptibilityInfo) (\<lambda>info.
       bind_state (lift_state (ok_or InvalidValue (interruptibility_from_bits info))) (\<lambda>interruptibility.
       bind_state (read_field GuestRflags) (\<lambda>rflags.
       bind_state (read_field CpuBasedVmExecControl) (\<lambda>field.
       if interruptibility \<noteq> 0 \<or> rflags AND 0b1000000000 = 0 then
         write_field CpuBasedVmExecControl (field OR INTERRUPT_WINDOW_EXITING)
       else
         bind_state (write_field CpuBasedVmExecControl (field AND NOT INTERRUPT_WINDOW_EXITING)) (\<lambda>_.
         bind_state pop_pending (\<lambda>_ s.
           write_field CpuBasedVmExecControl
             (if RBT.is_empty (pending_interrupts s) then field AND NOT INTERRUPT_WINDOW_EXITING
              else field OR INTERRUPT_WINDOW_EXITING) s)))))) s)"

section \<open>VM exits\<close>

definition skip_emulated_instruction :: "('a vcpu_state_scheme, unit, Error) action" where
  "skip_emulated_instruction =
    bind_state (read_field GuestRip) (\<lambda>rip.
    bind_state (read_field VmExitInstructionLen) (\<lambda>len.
    write_field GuestRip (rip + len)))"

definition set_host_serial :: "Port option \<Rightarrow> 'a vcpu_state_scheme \<Rightarrow> 'a vcpu_state_scheme" where
  "set_host_serial serial s =
    s\<lparr>vms := (vms s)[vcpu_vm s := (vms s ! vcpu_vm s)\<lparr>host_serial := serial\<rparr>]\<rparr>"

definition handle_msg :: "VirtualMachineMsg \<Rightarrow> ('a vcpu_state_scheme, unit, Error) action" where
  "handle_msg msg =
    (case msg of
       GrantConsole serial \<Rightarrow> (\<lambda>s. (Ok (), set_host_serial (Some serial) s))
     | CancelTimer i \<Rightarrow> cancel_timer i
     | GuestInterrupt kind vector \<Rightarrow> (\<lambda>s. (Ok (), inject_interrupt vector kind s))
     | StartVcpu addr \<Rightarrow> return_state ())"

definition handle_ipc :: "('a vcpu_state_scheme, unit, Error) action" where
  "handle_ipc = bind_state recv_all_msgs (for_each handle_msg)"

definition handle_uart_keypress :: "processor \<Rightarrow> (DeviceEventResponse list \<times> run_state, unit, Error) action" where
  "handle_uart_keypress hw = (\<lambda>(rs, s).
    case host_serial (vms s ! vcpu_vm s) of
      None \<Rightarrow> (Ok (), rs, s)
    | Some port \<Rightarrow>
        bind_state
          (vcpu_dispatch hw (AtPort port) (HostUartReceived (serial_data s port (serial_reads s)))) (\<lambda>_. return_state ())
          (rs, s\<lparr>serial_reads := Suc (serial_reads s)\<rparr>))"

text \<open>The bytes of \<open>String::from_utf8_lossy\<close> of a single byte.\<close>

definition utf8_lossy :: "u8 \<Rightarrow> u8 list" where
  "utf8_lossy b = (if b < 0x80 then [b] else [0xef, 0xbf, 0xbd])"

definition next_console :: "processor \<Rightarrow> (run_state, unit, Error) action" where
  "next_console hw s =
    (case host_serial (vms s ! vcpu_vm s) of
       None \<Rightarrow> (Err NotFound, s)
     | Some serial \<Rightarrow>
         bind_state (\<lambda>s. if vms s = [] then (Panic, s) else (Ok ((vm_id (vms s ! vcpu_vm s) + 1) mod of_nat (length (vms s))), s)) (\<lambda>next_vmid.
         bind_state (send_msg (GrantConsole serial) next_vmid True) (\<lambda>_.
         bind_state (\<lambda>s. (and_then (bsp_core_id next_vmid s) (ok_or NotFound), s)) (\<lambda>next_bsp s.
           case map_gsi_vector (ioapic_store hw) gsi_UART vector_UART (ucast next_bsp) (ioapic_regs s) of
             (r, io) \<Rightarrow> (case r of Err e \<Rightarrow> Err DeviceError | _ \<Rightarrow> r, s\<lparr>ioapic_regs := io\<rparr>)))) (set_host_serial None s))"

definition handle_response :: "processor \<Rightarrow> DeviceEventResponse \<Rightarrow> (run_state, unit, Error) action" where
  "handle_response hw response =
    (case response of
       GSI gsi \<Rightarrow> route_interrupt gsi
     | NextConsole \<Rightarrow> next_console hw
     | GuestUartTransmitted val \<Rightarrow> (\<lambda>s.
         (Ok (), if host_serial (vms s ! vcpu_vm s) \<noteq> None then s\<lparr>console := console s @ utf8_lossy val\<rparr> else s)))"

text \<open>An emulated instruction is skipped once its emulation succeeds.\<close>

definition then_skip :: "('a exit_state, unit, Error) action \<Rightarrow> ('a exit_state, unit, Error) action" where
  "then_skip f = bind_state f (\<lambda>_. on_snd (on_snd skip_emulated_instruction))"

text \<open>A read of the APIC base register shows the guest a local APIC without x2APIC mode.\<close>

definition emulate_rdmsr :: "('a exit_state, unit, Error) action" where
  "emulate_rdmsr = (\<lambda>(cpu, rs, s).
    let real_apic_base = apic_regs s IA32_APIC_BASE AND NOT (push_bit 10 1)
    in (Ok (),
        if (ucast (rcx cpu) :: u32) = 0x1b then cpu\<lparr>rdx := drop_bit 32 real_apic_base, rax := real_apic_base AND 0xffffffff\<rparr> else cpu,
        rs, s))"

definition handle_interrupt_exit :: "processor \<Rightarrow> u8 \<Rightarrow> (DeviceEventResponse list \<times> run_state, unit, Error) action" where
  "handle_interrupt_exit hw vector =
    bind_state
      (if vector = vector_UART then handle_uart_keypress hw
       else if vector = vector_IPC then on_snd handle_ipc
       else return_state ()) (\<lambda>_.
    on_snd (\<lambda>s. (Ok (), eoi s)))"

definition emulate_exit :: "processor \<Rightarrow> ExitInformation \<Rightarrow> (GuestCpuState \<times> DeviceEventResponse list \<times> run_state, unit, Error) action" where
  "emulate_exit hw info =
    (case info of
       Exit_RdMsr \<Rightarrow> then_skip emulate_rdmsr
     | Exit_ApicAccess info \<Rightarrow> then_skip (handle_apic_access hw info)
     | Exit_CrAccess info \<Rightarrow>
         then_skip (\<lambda>(cpu, rs, s). case emulate_access hw info (cpu, s) of (r, cpu', s') \<Rightarrow> (r, cpu', rs, s'))
     | Exit_CpuId \<Rightarrow> then_skip (\<lambda>(cpu, rs, s). (Ok (), emulate_cpuid hw s cpu, rs, s))
     | Exit_IoInstruction info \<Rightarrow> then_skip (emulate_portio hw info)
     | Exit_EptViolation info \<Rightarrow> then_skip (handle_ept_violation hw info)
     | Exit_InterruptWindow \<Rightarrow> return_state ()
     | Exit_ExternalInterrupt info \<Rightarrow> on_snd (handle_interrupt_exit hw (event_vector info))
     | _ \<Rightarrow> lift_state Panic)"

definition handle_vmexit_impl :: "processor \<Rightarrow> ExitReason \<Rightarrow> (GuestCpuState \<times> run_state, unit, Error) action" where
  "handle_vmexit_impl hw exit = (\<lambda>(cpu, s).
    case bind_state (emulate_exit hw (exit_info exit)) (\<lambda>_ (cpu, rs, s).
           case for_each (handle_response hw) rs s of (r, s') \<Rightarrow> (r, cpu, rs, s')) (cpu, [], s) of
      (r, cpu', rs, s') \<Rightarrow> (r, cpu', s'))"

definition handle_vmexit :: "processor \<Rightarrow> ExitReason \<Rightarrow> (GuestCpuState \<times> run_state, unit, Error) action" where
  "handle_vmexit hw exit =
    bind_state (handle_vmexit_impl hw exit) (\<lambda>_.
    bind_state (on_snd expire_elapsed_timers) (\<lambda>events.
    bind_state (on_snd (for_each fire_timer events)) (\<lambda>_.
    on_snd deliver_pending)))"

definition vmexit_handler :: "processor \<Rightarrow> (GuestCpuState \<times> run_state, unit, Error) action" where
  "vmexit_handler hw = (\<lambda>(cpu, s).
    case exit_reason (active_vmcs s) of
      Ok reason \<Rightarrow>
        (case handle_vmexit hw reason (cpu, s) of
           (Err e, x) \<Rightarrow> (Panic, x)
         | y \<Rightarrow> y)
    | Undefined \<Rightarrow> (Undefined, cpu, s)
    | _ \<Rightarrow> (Panic, cpu, s))"

section \<open>Writes that succeed\<close>

definition writable :: "vmcs \<Rightarrow> bool" where
  "writable v \<longleftrightarrow> (\<forall>field val. \<not> bit (vmwrite_rflags v field val) 0 \<and> \<not> bit (vmwrite_rflags v field val) 6)"

definition set_field :: "u64 \<Rightarrow> u64 \<Rightarrow> vmcs \<Rightarrow> vmcs" where
  "set_field field val v = v\<lparr>vmcs_values := (vmcs_values v)(field := val)\<rparr>"

lemma set_field_simps [simp]:
  "writable (set_field field val v) = writable v" "msrs (set_field field val v) = msrs v"
  "vmcs_values (set_field field val v) = (vmcs_values v)(field := val)"
  by (simp_all add: set_field_def writable_def)

lemma vmcs_write_writable: "writable v \<Longrightarrow> vmcs_write field val v = (Ok (), set_field field val v)"
  by (simp add: writable_def set_field_def vmcs_write_def Let_def check_vm_insruction_def)

lemma write_field_writable:
  "writable (active_vmcs s) \<Longrightarrow> write_field field val s = (Ok (), s\<lparr>active_vmcs := set_field field val (active_vmcs s)\<rparr>)"
  by (simp add: write_field_def vmcs_write_writable)

lemma write_fields_writable:
  "writable v \<Longrightarrow> write_fields fs v = (Ok (), fold (\<lambda>(field, val). set_field field val) fs v)"
  unfolding write_fields_def
  by (induction fs arbitrary: v) (auto simp: vmcs_write_writable bind_state_def return_state_def)

lemma read_field_Ok: "read_field field s = (Ok (vmcs_values (active_vmcs s) field), s)"
  by (simp add: read_field_def vmcs_read_def)

section \<open>Injection\<close>

lemma pending_first:
  assumes "RBT.entries t = (k, x) # rest"
  shows "Min (dom (RBT.lookup t)) = k" "RBT.lookup t k = Some x"
    "RBT.is_empty (RBT.delete k t) \<longleftrightarrow> dom (RBT.lookup t) = {k}"
proof -
  have keys: "RBT.keys t = k # map fst rest" using assms by (simp add: RBT.keys_def_alt)
  have dom: "dom (RBT.lookup t) = set (k # map fst rest)" using RBT.lookup_keys [of t] keys by simp
  have "sorted (RBT.keys t)" by (rule RBT.sorted_keys)
  then show "Min (dom (RBT.lookup t)) = k" unfolding dom using keys by (intro Min_eqI) auto
  show "RBT.lookup t k = Some x" using assms RBT.lookup_in_tree [of t k x] by simp
  moreover have "RBT.is_empty (RBT.delete k t) \<longleftrightarrow> RBT.lookup (RBT.delete k t) = Map.empty"
    by (simp only: RBT.lookup_empty_empty RBT.is_empty_empty)
  ultimately show "RBT.is_empty (RBT.delete k t) \<longleftrightarrow> dom (RBT.lookup t) = {k}"
    by (auto simp: fun_eq_iff dom_def set_eq_iff split: if_splits)
qed

lemma window_bits:
  "x OR INTERRUPT_WINDOW_EXITING = set_bit 2 x" "x AND NOT INTERRUPT_WINDOW_EXITING = unset_bit 2 x"
  by (simp_all add: set_bit_eq_or unset_bit_eq_and_not INTERRUPT_WINDOW_EXITING_def push_bit_eq_mult)

lemma interrupt_flag: "x AND 0b1000000000 = 0 \<longleftrightarrow> \<not> bit (x :: u64) 9"
  using bit_iff_and_push_bit_not_eq_0 [of x 9] by (simp add: push_bit_eq_mult)

lemma interruptibility_bits: "interruptibility_from_bits i = (if drop_bit 5 i = 0 then Some i else None)"
proof -
  have mask: "(0x1f :: u64) = mask 5" by (simp add: mask_eq_exp_minus_1)
  have "drop_bit 5 (i AND NOT (mask 5)) = drop_bit 5 i"
    using bit_imp_le_length [of i "5 + n" for n] by (intro bit_eqI) (force simp: bit_simps)
  moreover have "i AND NOT (mask 5) = 0" if "drop_bit 5 i = 0"
  proof (rule bit_eqI)
    fix n
    have "\<not> bit (drop_bit 5 i) (n - 5)" using that by simp
    then show "bit (i AND NOT (mask 5)) n = bit 0 n" by (cases "n < 5") (auto simp: bit_simps)
  qed
  ultimately have "i AND NOT (mask 5) = 0 \<longleftrightarrow> drop_bit 5 i = 0" by (metis drop_bit_of_0)
  then show ?thesis unfolding mask [symmetric] by (simp add: interruptibility_from_bits_def)
qed

text \<open>
  C4: Interrupts reach the guest one at a time, lowest vector first, and none is lost. As long as writes to the
  VMCS succeed: without pending interrupts nothing changes; a guest that blocks interrupts keeps them all
  pending and exits as soon as it can take one; otherwise exactly the lowest pending vector is injected with its
  type, it alone stops being pending, and the guest exits again at the next opportunity exactly when others are
  still pending. No other field of the VMCS and no other control bit changes.
\<close>

theorem pending_interrupt_delivery:
  assumes "writable (active_vmcs s)"
  shows
    "let pending = RBT.lookup (pending_interrupts s); field = vmcs_values (active_vmcs s); vector = Min (dom pending);
         info = field GuestInterruptibilityInfo; control = field CpuBasedVmExecControl
     in if pending = Map.empty then deliver_pending s = (Ok (), s)
        else if drop_bit 5 info \<noteq> 0 then deliver_pending s = (Err InvalidValue, s)
        else if info \<noteq> 0 \<or> \<not> bit (field GuestRflags) 9 then
          deliver_pending s =
            (Ok (), s\<lparr>active_vmcs := set_field CpuBasedVmExecControl (set_bit 2 control) (active_vmcs s)\<rparr>)
        else \<exists>s' kind. deliver_pending s = (Ok (), s') \<and> pending vector = Some kind \<and>
          RBT.lookup (pending_interrupts s') = pending(vector := None) \<and>
          vmcs_values (active_vmcs s') = field
            (VmEntryIntrInfoField := 0x80000000 OR ucast vector OR push_bit 8 (ucast (injected_interrupt_code kind)),
             CpuBasedVmExecControl := (if dom pending = {vector} then unset_bit 2 control else set_bit 2 control)) \<and>
          s'\<lparr>pending_interrupts := pending_interrupts s, active_vmcs := active_vmcs s\<rparr> = s"
proof -
  let ?field = "vmcs_values (active_vmcs s)"
  show ?thesis
  proof (cases "RBT.entries (pending_interrupts s)")
    case Nil
    then have "pending_interrupts s = RBT.empty" using RBT.lookup_keys [of "pending_interrupts s"]
      by (simp add: RBT.keys_def_alt flip: RBT.lookup_empty_empty)
    then show ?thesis by (simp add: deliver_pending_def)
  next
    case (Cons e rest)
    obtain vector kind where e: "e = (vector, kind)" by fastforce
    note first = pending_first [OF Cons [unfolded e]]
    have some: "RBT.lookup (pending_interrupts s) \<noteq> Map.empty" "\<not> RBT.is_empty (pending_interrupts s)"
      using first(2) by (auto simp flip: RBT.lookup_empty_empty)
    show ?thesis
      using assms some first Cons
      by (auto simp: deliver_pending_def Let_def bind_state_def lift_state_def read_field_Ok interruptibility_bits
          write_field_writable pop_pending_def e window_bits interrupt_flag)
  qed
qed

definition quiet_vmcs :: vmcs where
  "quiet_vmcs = \<lparr>vmcs_values = (\<lambda>x. if x = GuestRflags then 0x202 else 0), vmwrite_rflags = (\<lambda>x y. 0),
    vmwrite_errno = (\<lambda>x y. 0), msrs = (\<lambda>x. 0)\<rparr>"

definition quiet_vcpu :: vcpu_state where
  "quiet_vcpu = \<lparr>this_core = 0, apic_regs = (\<lambda>x. 0), msr_writes = [], base_reg = 0, ticks_per_ms = 1, contexts = [],
    vms = [], frequency = 1, tsc = (\<lambda>i. 0), tsc_reads = 0, timer_wheel = None, memory = \<lparr>tables = Map.empty, ram = (\<lambda>x. 0), live = []\<rparr>,
    vcpu_vm = 0, active_vmcs = quiet_vmcs, local_apic = lapic_new,
    pending_interrupts = RBT.insert 48 ExternalInterrupt (RBT.insert 36 ExternalInterrupt RBT.empty)\<rparr>"

theorem pending_interrupt_delivery_witness:
  "writable (active_vmcs quiet_vcpu) \<and>
    (\<exists>s'. deliver_pending quiet_vcpu = (Ok (), s') \<and> RBT.lookup (pending_interrupts s') = [48 \<mapsto> ExternalInterrupt] \<and>
      vmcs_values (active_vmcs s') VmEntryIntrInfoField = 0x80000024 \<and> bit (vmcs_values (active_vmcs s') CpuBasedVmExecControl) 2)"
proof -
  have ok: "writable (active_vmcs quiet_vcpu)" by (simp add: writable_def quiet_vcpu_def quiet_vmcs_def)
  have look: "RBT.lookup (pending_interrupts quiet_vcpu) = [36 \<mapsto> ExternalInterrupt, 48 \<mapsto> ExternalInterrupt]"
    by (simp add: quiet_vcpu_def)
  have dom: "dom [36 \<mapsto> ExternalInterrupt, 48 \<mapsto> ExternalInterrupt] = {36 :: u8, 48}" by auto
  have field: "vmcs_values (active_vmcs quiet_vcpu) GuestInterruptibilityInfo = 0"
    "bit (vmcs_values (active_vmcs quiet_vcpu) GuestRflags) 9" "vmcs_values (active_vmcs quiet_vcpu) CpuBasedVmExecControl = 0"
    by (simp_all add: quiet_vcpu_def quiet_vmcs_def vmcs_fields)
  have others: "[36 \<mapsto> ExternalInterrupt, 48 \<mapsto> ExternalInterrupt] \<noteq> Map.empty" "Min {36 :: u8, 48} = 36" "{36 :: u8, 48} \<noteq> {36}"
    by auto
  have now: "[36 \<mapsto> ExternalInterrupt, 48 \<mapsto> ExternalInterrupt](36 := None) = [48 :: u8 \<mapsto> ExternalInterrupt]"
    "[36 \<mapsto> ExternalInterrupt, 48 \<mapsto> ExternalInterrupt] (36 :: u8) = Some ExternalInterrupt" by auto
  from pending_interrupt_delivery [OF ok] obtain s' kind where s': "deliver_pending quiet_vcpu = (Ok (), s')"
    "RBT.lookup (pending_interrupts s') = [48 \<mapsto> ExternalInterrupt]" "kind = ExternalInterrupt"
    "vmcs_values (active_vmcs s') = (vmcs_values (active_vmcs quiet_vcpu))
      (VmEntryIntrInfoField := 0x80000000 OR ucast (36 :: u8) OR push_bit 8 (ucast (injected_interrupt_code kind)),
       CpuBasedVmExecControl := set_bit 2 0)"
    unfolding Let_def look dom others(2) now field(1,3)
    by (simp only: others field(2) now if_False simp_thms drop_bit_of_0 option.inject) blast
  then show ?thesis using ok by (simp add: bit_simps vmcs_fields)
qed

section \<open>The initial state of a virtual CPU\<close>

lemma vmcs_write_set_field: "vmcs_write field val v = (Ok (), v') \<Longrightarrow> v' = set_field field val v"
  unfolding set_field_def by (rule vmcs_write_Ok)

definition same_rest :: "'a vcpu_state_scheme \<Rightarrow> 'a vcpu_state_scheme \<Rightarrow> bool" where
  "same_rest s s' \<longleftrightarrow> vms s' = vms s \<and> vcpu_vm s' = vcpu_vm s \<and> this_core s' = this_core s \<and>
    pending_interrupts s' = pending_interrupts s"

lemma write_field_Ok:
  "write_field field val s = (Ok u, s') \<Longrightarrow>
    active_vmcs s' = set_field field val (active_vmcs s) \<and> memory s' = memory s \<and> same_rest s s'"
  by (auto simp: write_field_def same_rest_def dest!: vmcs_write_set_field split: prod.splits)

lemma write_fields_Ok:
  "write_fields fs v = (Ok (), v') \<Longrightarrow>
    msrs v' = msrs v \<and> (\<forall>x. vmcs_values v' x = (case map_of (rev fs) x of Some y \<Rightarrow> y | None \<Rightarrow> vmcs_values v x))"
  unfolding write_fields_def
proof (induction fs arbitrary: v)
  case (Cons f fs)
  obtain v1 where v1: "vmcs_write (fst f) (snd f) v = (Ok (), v1)" "for_each (\<lambda>(field, val). vmcs_write field val) fs v1 = (Ok (), v')"
    using Cons(2) by (auto simp: bind_state_Ok_iff split: prod.splits)
  with Cons(1) [OF v1(2)] show ?case by (auto dest!: vmcs_write_set_field simp: map_add_def split: option.splits)
qed (simp add: return_state_def)

lemma write_with_fixed_Ok:
  assumes "write_with_fixed field val msr s = (Ok u, s')"
  shows "\<exists>w. active_vmcs s' = set_field field w (active_vmcs s) \<and> memory s' = memory s \<and> same_rest s s' \<and> val AND NOT w = 0"
proof -
  obtain r v where v: "vmcs_write_with_fixed field val msr (active_vmcs s) = (Ok r, v)" "s' = s\<lparr>active_vmcs := v\<rparr>"
    using assms by (auto simp: write_with_fixed_def and_then_Ok_iff split: prod.splits)
  then have "v = set_field field r (active_vmcs s)" "val AND NOT r = 0"
    by (auto simp: vmcs_write_with_fixed_def Let_def bind_state_Ok_iff return_state_def dest!: vmcs_write_set_field split: if_splits)
  with v show ?thesis by (auto simp: same_rest_def)
qed

lemma new_page_Ok:
  "new_page hw offset bs s = (Ok page, s') \<Longrightarrow>
    \<exists>m. alloc_page (box_new (host hw)) (memory s) = (Ok page, m) \<and> memory s' = ram_write (page + offset) bs m \<and>
      active_vmcs s' = active_vmcs s \<and> same_rest s s'"
  by (auto simp: new_page_def same_rest_def split: prod.splits outcome.splits)

text \<open>What the set-up of the execution controls leaves alone, and what it asks for.\<close>

definition control_values :: "u64 \<Rightarrow> u64 \<Rightarrow> u64 \<Rightarrow> u64 \<Rightarrow> u64 \<Rightarrow> u64 \<Rightarrow> u64 \<Rightarrow> (u64 \<times> u64) list" where
  "control_values cpu sec vpid pin exit entry page =
    [(CpuBasedVmExecControl, cpu), (SecondaryVmExecControl, sec), (VirtualProcessorId, vpid), (PinBasedVmExecControl, pin),
     (VmExitControls, exit), (VmEntryControls, entry), (MsrBitmap, page), (ExceptionBitmap, 0), (Cr3TargetCount, 0),
     (TprThreshold, 0)]"

lemma initialize_ctrl_vmcs_Ok:
  assumes "initialize_ctrl_vmcs hw s = (Ok (), s')"
  shows "\<exists>cpu sec pin exit entry page m.
    active_vmcs s' = fold (\<lambda>(field, val). set_field field val)
      (control_values cpu sec (ucast (this_core s) + 1) pin exit entry page) (active_vmcs s) \<and>
    alloc_page (box_new (host hw)) (memory s) = (Ok page, m) \<and> memory s' = ram_write (page + 3) [8] m \<and>
    same_rest s s' \<and>
    (UNCOND_IO_EXITING OR TPR_SHADOW OR ACTIVATE_MSR_BITMAP OR ACTIVATE_SECONDARY_CONTROLS) AND NOT cpu = 0 \<and>
    secondary_controls AND NOT sec = 0 \<and> EXT_INTR_EXIT AND NOT pin = 0"
  using assms unfolding initialize_ctrl_vmcs_def bind_state_Ok_iff
  apply (elim exE conjE)
  apply ((drule write_field_Ok | drule write_with_fixed_Ok | drule new_page_Ok)+)
  apply (elim exE conjE)
  apply (intro exI, rule conjI)
   apply (simp only: control_values_def fold.simps case_prod_conv o_apply id_apply)
   apply (simp add: same_rest_def)
  apply (rule conjI, simp)
  apply (simp add: same_rest_def)
  done


lemma fold_set_field:
  "vmcs_values (fold (\<lambda>(field, val). set_field field val) fs v) x =
    (case map_of (rev fs) x of Some y \<Rightarrow> y | None \<Rightarrow> vmcs_values v x)"
  by (induction fs arbitrary: v) (auto simp: map_add_def split: option.splits)

lemma on_vmcs_Ok: "on_vmcs f s = (Ok u, s') \<Longrightarrow> f (active_vmcs s) = (Ok u, active_vmcs s') \<and> memory s' = memory s \<and> same_rest s s'"
  by (auto simp: on_vmcs_def same_rest_def split: prod.splits)

lemma vmx_on_Ok:
  assumes "vmx_enable hw h s = (Ok u, s1)" "vmcs_activate hw h s1 = (Ok u', s2)"
  shows "vms s2 = vms s \<and> this_core s2 = this_core s"
  using assms
  by (auto simp: vmx_enable_def vmcs_activate_def revision_page_def bind_state_Ok_iff lift_state_def same_rest_def
      dest!: new_page_Ok split: if_splits)

lemma initialize_guest_vmcs_Ok:
  assumes "initialize_guest_vmcs v = (Ok u, v')"
  shows "vmcs_values v' GuestCsBase + vmcs_values v' GuestRip = 0xfffffff0" "vmcs_values v' GuestRflags = 2"
    "\<not> bit (vmcs_values v' GuestCr0) 0" "\<not> bit (vmcs_values v' GuestCr0) 31"
    "vmcs_values v' EptPointer = vmcs_values v EptPointer" "vmcs_values v' HostRip = vmcs_values v HostRip"
    "vmcs_values v' HostRsp = vmcs_values v HostRsp"
proof -
  note w = write_fields_Ok [OF assms [unfolded initialize_guest_vmcs_def Let_def, simplified unit_eq [of u]], THEN conjunct2]
  show "vmcs_values v' GuestCsBase + vmcs_values v' GuestRip = 0xfffffff0" "vmcs_values v' GuestRflags = 2"
    "vmcs_values v' EptPointer = vmcs_values v EptPointer" "vmcs_values v' HostRip = vmcs_values v HostRip"
    "vmcs_values v' HostRsp = vmcs_values v HostRsp"
    by (simp_all add: w guest_segments_def vmcs_fields)
  have "vmcs_values v' GuestCr0 = msrs v IA32_VMX_CR0_FIXED0 AND NOT (push_bit 0 1) AND NOT (push_bit 31 1)"
    by (simp add: w guest_segments_def vmcs_fields)
  then show "\<not> bit (vmcs_values v' GuestCr0) 0" "\<not> bit (vmcs_values v' GuestCr0) 31" by (simp_all add: bit_simps)
qed

lemma initialize_host_vmcs_Ok:
  assumes "initialize_host_vmcs h cr0 cr4 stack v = (Ok u, v')"
  shows "vmcs_values v' HostRip = exit_handler h" "vmcs_values v' HostRsp = stack"
    "vmcs_values v' EptPointer = vmcs_values v EptPointer"
proof -
  note w = write_fields_Ok [OF assms [unfolded initialize_host_vmcs_def, simplified unit_eq [of u]], THEN conjunct2]
  show "vmcs_values v' HostRip = exit_handler h" "vmcs_values v' HostRsp = stack"
    "vmcs_values v' EptPointer = vmcs_values v EptPointer"
    by (simp_all add: w vmcs_fields)
qed


lemma asked_bit: "x AND NOT y = 0 \<Longrightarrow> bit x n \<Longrightarrow> bit (y :: u64) n"
proof -
  assume "x AND NOT y = 0" "bit x n"
  then have "\<not> bit (x AND NOT y) n" by simp
  with \<open>bit x n\<close> show "bit y n" by (auto simp: bit_simps dest: bit_imp_le_length)
qed

lemma msr_bitmap_page:
  assumes "alloc_page new m0 = (Ok page, m)" "i < 4096"
  shows "ram (ram_write (page + 3) [8] m) (page + of_nat i) = (if i = 3 then 8 else 0)"
proof -
  have i: "unat (of_nat i :: u64) = i" using assms(2) by (simp add: unat_of_nat)
  then have "(of_nat i :: u64) = 3 \<longleftrightarrow> i = 3" by (simp add: word_unat_eq_iff)
  then have three: "unat (page + of_nat i - (page + 3)) < 1 \<longleftrightarrow> i = 3"
    by (simp add: unat_eq_0 del: unat_sub_if')
  have "ram m (page + of_nat i) = 0"
    using assms i by (auto simp: alloc_page_def BASE_PAGE_SIZE_def split: option.splits)
  then show ?thesis using three by (simp add: ram_write_def)
qed

text \<open>
  C5: A new virtual CPU starts the way a processor leaves reset, and inside its machine. When the set-up succeeds,
  the guest starts in real mode at the linear address \<open>0xfffffff0\<close>, behind the nested page tables of its own
  machine and under a processor identifier of its own; it exits on every port access and every external
  interrupt, to the exit handler of the host, and of the reads of model specific registers only on that of the
  APIC base; no interrupt is pending.
\<close>

theorem vcpu_new_reset_state:
  assumes "vcpu_new hw h v s = (Ok (), s')"
  shows "let field = vmcs_values (active_vmcs s') in
    vcpu_vm s' = v \<and> RBT.is_empty (pending_interrupts s') \<and> vms s' = vms s \<and>
    field GuestCsBase + field GuestRip = 0xfffffff0 \<and> field GuestRflags = 2 \<and>
    \<not> bit (field GuestCr0) 0 \<and> \<not> bit (field GuestCr0) 31 \<and>
    field EptPointer = eptp (guest_space (vms s ! v)) \<and> field VirtualProcessorId = ucast (this_core s) + 1 \<and>
    field HostRip = exit_handler h \<and> field HostRsp = host_stack h + 0x100000 - 8 \<and>
    bit (field CpuBasedVmExecControl) 24 \<and> bit (field CpuBasedVmExecControl) 28 \<and> bit (field CpuBasedVmExecControl) 31 \<and>
    bit (field SecondaryVmExecControl) 1 \<and> bit (field SecondaryVmExecControl) 7 \<and> bit (field PinBasedVmExecControl) 0 \<and>
    (\<forall>i < 4096. \<forall>k < 8. bit (ram (memory s') (field MsrBitmap + of_nat i)) k \<longleftrightarrow> i * 8 + k = 0x1b)"
proof -
  obtain s1 s2 s3 s4 s5 s6 s7 where
    on: "vmx_enable hw h s = (Ok (), s1)" "vmcs_activate hw h s1 = (Ok (), s2)"
    and s3: "s3 = s2\<lparr>vcpu_vm := v, local_apic := lapic_new, pending_interrupts := RBT.empty\<rparr>"
    and wr: "write_field EptPointer (eptp (guest_space (vms s3 ! v))) s3 = (Ok (), s4)"
      "write_field ApicAccessAddr (apic_access_page (vms s4 ! v)) s4 = (Ok (), s5)"
      "on_vmcs (initialize_host_vmcs h (host_cr0 s5) (host_cr4 s5) (host_stack h + PER_CORE_HOST_STACK_SIZE - 8)) s5 = (Ok (), s6)"
      "on_vmcs initialize_guest_vmcs s6 = (Ok (), s7)" "initialize_ctrl_vmcs hw s7 = (Ok (), s')"
    using assms unfolding vcpu_new_def bind_state_Ok_iff by auto
  note w = write_field_Ok [OF wr(1)] write_field_Ok [OF wr(2)] on_vmcs_Ok [OF wr(3)] on_vmcs_Ok [OF wr(4)]
  obtain cpu sec pin exit entry page m where
    c: "active_vmcs s' = fold (\<lambda>(field, val). set_field field val)
      (control_values cpu sec (ucast (this_core s7) + 1) pin exit entry page) (active_vmcs s7)"
    "alloc_page (box_new (host hw)) (memory s7) = (Ok page, m)" "memory s' = ram_write (page + 3) [8] m" "same_rest s7 s'"
    "(UNCOND_IO_EXITING OR TPR_SHADOW OR ACTIVATE_MSR_BITMAP OR ACTIVATE_SECONDARY_CONTROLS) AND NOT cpu = 0"
    "secondary_controls AND NOT sec = 0" "EXT_INTR_EXIT AND NOT pin = 0"
    using initialize_ctrl_vmcs_Ok [OF wr(5)] by blast
  have rest: "vms s7 = vms s" "this_core s7 = this_core s" "vcpu_vm s7 = v" "pending_interrupts s7 = RBT.empty"
    using w vmx_on_Ok [OF on] by (simp_all add: same_rest_def s3)
  note guest = initialize_guest_vmcs_Ok [OF conjunct1 [OF w(4)]] and hostv = initialize_host_vmcs_Ok [OF conjunct1 [OF w(3)]]
  have kept: "vmcs_values (active_vmcs s') f = vmcs_values (active_vmcs s7) f"
    if "f \<in> {GuestCsBase, GuestRip, GuestRflags, GuestCr0, EptPointer, HostRip, HostRsp}" for f
    using that by (auto simp: c(1) fold_set_field control_values_def vmcs_fields)
  have set: "vmcs_values (active_vmcs s') CpuBasedVmExecControl = cpu" "vmcs_values (active_vmcs s') SecondaryVmExecControl = sec"
    "vmcs_values (active_vmcs s') PinBasedVmExecControl = pin" "vmcs_values (active_vmcs s') MsrBitmap = page"
    "vmcs_values (active_vmcs s') VirtualProcessorId = ucast (this_core s) + 1"
    by (simp_all add: c(1) fold_set_field control_values_def vmcs_fields rest)
  have ept: "vmcs_values (active_vmcs s7) EptPointer = eptp (guest_space (vms s ! v))"
    using w vmx_on_Ok [OF on] guest(5) hostv(3) by (simp add: vmcs_fields s3)
  have bits: "bit cpu 24" "bit cpu 28" "bit cpu 31" "bit sec 1" "bit sec 7" "bit pin 0"
    by (rule asked_bit [OF c(5)] asked_bit [OF c(6)] asked_bit [OF c(7)],
        simp add: UNCOND_IO_EXITING_def TPR_SHADOW_def ACTIVATE_MSR_BITMAP_def ACTIVATE_SECONDARY_CONTROLS_def
          secondary_controls_def EXT_INTR_EXIT_def)+
  have bitmap: "bit (ram (memory s') (page + of_nat i)) k \<longleftrightarrow> i * 8 + k = 0x1b" if "i < 4096" "k < 8" for i k
  proof -
    have "bit (8 :: u8) k \<longleftrightarrow> k = 3" using that(2) by (auto simp: less_Suc_eq numeral_eq_Suc)
    then show ?thesis using that by (auto simp: c(3) msr_bitmap_page [OF c(2)])
  qed
  show ?thesis
    using rest c(4) guest hostv bits bitmap
    by (simp add: Let_def kept set ept same_rest_def PER_CORE_HOST_STACK_SIZE_def)
qed

definition plain_hw :: processor where
  "plain_hw = \<lparr>host = \<lparr>box_new = first_fit, entry_address = id, system_start_time = 0, bios_blob = [], access_page = (\<lambda>i. 0)\<rparr>,
    cpuid_count = (\<lambda>x y. \<lparr>res_eax = 0, res_ebx = 0, res_ecx = 0, res_edx = 0\<rparr>),
    decode = (\<lambda>mode bytes ip. \<lparr>op0_kind = OtherOpKind, op1_kind = OtherOpKind, op_register = (\<lambda>i. OtherRegister),
      immediate8 = 0, immediate16 = 0, immediate32 = 0, immediate64 = 0\<rparr>),
    invvpid_rflags = (\<lambda>x y. 0), invvpid_errno = (\<lambda>x y. 0), ioapic_store = (\<lambda>r old new. new)\<rparr>"

definition plain_host :: host_values where
  "plain_host = \<lparr>host_cr3 = 0x1000, gdt64_code = 8, gdt64_data = 16, idtr_base = 0, gdtr_base = 0, host_stack = 0x200000,
    exit_handler = 0x100000, has_vmx = True, vmxon_rflags = (\<lambda>x. 2), vmxon_errno = (\<lambda>x. 0), vmptrld_rflags = (\<lambda>x. 2),
    vmptrld_errno = (\<lambda>x. 0), fresh_vmcs = quiet_vmcs\<lparr>msrs := (\<lambda>x. 0xffffffff00000000)\<rparr>\<rparr>"

definition plain_machine :: Machine where
  "plain_machine = \<lparr>vm_id = 0, vm_cpus = [0], vm_memory = 0, host_serial = None, vm_devices = [],
    virtual_device_map = device_map_default, guest_space = \<lparr>root = 0x5000\<rparr>, apic_access_page = 0x6000,
    logical_apic_state = Map.empty, cpus_ready = 0\<rparr>"

definition plain_run :: run_state where
  "plain_run = vcpu_state.extend (quiet_vcpu\<lparr>vms := [plain_machine]\<rparr>)
    \<lparr>ioapic_regs = \<lparr>ioregsel = (\<lambda>x. 0), ioregs = (\<lambda>x y. 0), ioapics = None\<rparr>, console = [], serial_data = (\<lambda>x y. 0),
     serial_reads = 0, host_cr0 = 0, host_cr4 = 0\<rparr>"

theorem vcpu_new_reset_state_witness:
  "\<exists>s'. vcpu_new plain_hw plain_host 0 plain_run = (Ok (), s') \<and>
    vmcs_values (active_vmcs s') EptPointer = 0x501e \<and> vmcs_values (active_vmcs s') VirtualProcessorId = 1"
proof -
  have "fst (vcpu_new plain_hw plain_host 0 plain_run) = Ok ()" by code_simp
  then obtain s' where s': "vcpu_new plain_hw plain_host 0 plain_run = (Ok (), s')" by (metis prod.collapse)
  have "eptp (guest_space (vms plain_run ! 0)) = 0x501e" "this_core plain_run = 0" by code_simp+
  with vcpu_new_reset_state [OF s'] s' show ?thesis by (simp add: Let_def)
qed

section \<open>Waiting for the start\<close>

text \<open>The state after the polls \<open>0 \<dots> n - 1\<close>, and what the poll \<open>n\<close> gives.\<close>

primrec polled :: "(nat \<Rightarrow> 'a vcpu_state_scheme \<Rightarrow> 'a vcpu_state_scheme) \<Rightarrow> nat \<Rightarrow> 'a vcpu_state_scheme \<Rightarrow> 'a vcpu_state_scheme" where
  "polled others 0 s = s"
| "polled others (Suc n) s = snd (recv_msg (others n (polled others n s)))"

definition poll :: "(nat \<Rightarrow> 'a vcpu_state_scheme \<Rightarrow> 'a vcpu_state_scheme) \<Rightarrow> nat \<Rightarrow> 'a vcpu_state_scheme \<Rightarrow> VirtualMachineMsg option res" where
  "poll others n s = fst (recv_msg (others n (polled others n s)))"

lemma wait_for_init_polls:
  assumes "\<And>j. j < k \<Longrightarrow> \<exists>msg. poll others j s = Ok msg \<and> (\<forall>a. msg \<noteq> Some (StartVcpu a))"
  shows "wait_for_init others 0 s = wait_for_init others k (polled others k s)"
  using assms
proof (induction k)
  case (Suc k)
  obtain msg where msg: "poll others k s = Ok msg" "\<forall>a. msg \<noteq> Some (StartVcpu a)" using Suc(2) [of k] by auto
  obtain t where "recv_msg (others k (polled others k s)) = (Ok msg, t)"
    using msg(1) by (cases "recv_msg (others k (polled others k s))") (simp add: poll_def)
  with msg(2) have "wait_for_init others k (polled others k s) = wait_for_init others (Suc k) (polled others (Suc k) s)"
    by (subst wait_for_init.simps) (auto split: option.split VirtualMachineMsg.split)
  with Suc show ?case by simp
qed simp

text \<open>
  C38: A waiting core of a guest starts. Once a start message arrives, after any number of polls without one, and
  the writes to the VMCS succeed, the wait ends; messages of other kinds are dropped. The code segment selector is
  the paragraph of the requested address, but the segment base and the instruction pointer are 0: the core
  starts at the linear address 0, whatever address was requested.
\<close>

theorem wait_for_init_starts:
  assumes "\<And>j. j < k \<Longrightarrow> \<exists>msg. poll others j s = Ok msg \<and> (\<forall>a. msg \<noteq> Some (StartVcpu a))"
    and "poll others k s = Ok (Some (StartVcpu addr))" "writable (active_vmcs (polled others (Suc k) s))"
  shows "\<exists>v. wait_for_init others 0 s = Some (Ok (), (polled others (Suc k) s)\<lparr>active_vmcs := v\<rparr>) \<and>
    vmcs_values v = (vmcs_values (active_vmcs (polled others (Suc k) s)))
      (GuestCsSelector := drop_bit 4 addr, GuestCsBase := 0, GuestRip := 0) \<and>
    vmcs_values v GuestCsBase + vmcs_values v GuestRip = 0"
proof -
  obtain t where "recv_msg (others k (polled others k s)) = (Ok (Some (StartVcpu addr)), t)"
    using assms(2) by (cases "recv_msg (others k (polled others k s))") (simp add: poll_def)
  then have "wait_for_init others 0 s = Some (on_vmcs (start_at addr) (polled others (Suc k) s))"
    using wait_for_init_polls [OF assms(1)] by (simp add: wait_for_init.simps [of others k])
  with assms(3) show ?thesis
    by (auto simp: on_vmcs_def start_at_def write_fields_writable vmcs_fields)
qed

definition ap_core :: "VirtualMachineMsg list \<Rightarrow> vcpu_state" where
  "ap_core q = quiet_vcpu\<lparr>this_core := 1, contexts := [\<lparr>ctx_core_id = 1, ctx_vm = 0, msgqueue = q\<rparr>]\<rparr>"

lemma ap_core_recv: "recv_msg (ap_core (msg # q)) = (Ok (Some msg), ap_core q)"
  by (simp add: recv_msg_def ap_core_def set_queue_def)

lemma ap_core_writable: "writable (active_vmcs (ap_core q))"
  by (simp add: ap_core_def quiet_vcpu_def writable_def quiet_vmcs_def)

theorem wait_for_init_starts_witness:
  "\<exists>v. wait_for_init (\<lambda>n s. if n = 1 then ap_core [StartVcpu 0x8000] else s) 0 (ap_core [GrantConsole 0x3f8]) =
      Some (Ok (), (ap_core [])\<lparr>active_vmcs := v\<rparr>) \<and>
    vmcs_values v GuestCsSelector = 0x800 \<and> vmcs_values v GuestCsBase + vmcs_values v GuestRip = 0"
proof -
  let ?others = "\<lambda>n s. if n = (1 :: nat) then ap_core [StartVcpu 0x8000] else s" and ?s = "ap_core [GrantConsole 0x3f8]"
  have idle: "\<exists>msg. poll ?others j ?s = Ok msg \<and> (\<forall>a. msg \<noteq> Some (StartVcpu a))" if "j < 1" for j
    using that by (simp add: poll_def ap_core_recv)
  have got: "poll ?others 1 ?s = Ok (Some (StartVcpu 0x8000))" and p: "polled ?others (Suc 1) ?s = ap_core []"
    by (simp_all add: poll_def ap_core_recv)
  obtain v where v: "wait_for_init ?others 0 ?s = Some (Ok (), (ap_core [])\<lparr>active_vmcs := v\<rparr>)"
    "vmcs_values v = (vmcs_values (active_vmcs (ap_core [])))(GuestCsSelector := drop_bit 4 0x8000, GuestCsBase := 0, GuestRip := 0)"
    "vmcs_values v GuestCsBase + vmcs_values v GuestRip = 0"
    using wait_for_init_starts [OF idle got, unfolded p, OF _ ap_core_writable] by blast
  have "vmcs_values v GuestCsSelector = 0x800" by (simp add: v(2) vmcs_fields)
  with v(1,3) show ?thesis by blast
qed

end
