(* ===== verification/Exit_Isolation.thy ===== *)
theory Exit_Isolation
  imports Isolation Vcpu
begin

text \<open>
  What a VM exit can change: every operation of the exit handler stays within the machine of the virtual CPU
  it runs for. Memory changes only in frames the nested page tables of that machine map, no page table
  changes, and no other machine does.
\<close>

section \<open>Actions that stay within the machine\<close>

definition same_identity :: "Machine \<Rightarrow> Machine \<Rightarrow> bool" where
  "same_identity vm vm' \<longleftrightarrow> vm_id vm' = vm_id vm \<and> vm_cpus vm' = vm_cpus vm \<and> vm_memory vm' = vm_memory vm \<and>
    virtual_device_map vm' = virtual_device_map vm \<and> guest_space vm' = guest_space vm \<and>
    apic_access_page vm' = apic_access_page vm"

definition contained :: "'a vcpu_state_scheme \<Rightarrow> 'a vcpu_state_scheme \<Rightarrow> bool" where
  "contained s s' \<longleftrightarrow> vcpu_vm s' = vcpu_vm s \<and>
    confined (guest_space (vms s ! vcpu_vm s)) (memory s) (memory s') \<and> length (vms s') = length (vms s) \<and>
    (\<forall>w. w \<noteq> vcpu_vm s \<longrightarrow> vms s' ! w = vms s ! w) \<and> same_identity (vms s ! vcpu_vm s) (vms s' ! vcpu_vm s)"

lemma contained_refl [simp]: "contained s s"
  by (simp add: contained_def same_identity_def)

lemma contained_trans: "contained s t \<Longrightarrow> contained t u \<Longrightarrow> contained s u"
proof -
  assume st: "contained s t" and tu: "contained t u"
  then have "guest_space (vms t ! vcpu_vm t) = guest_space (vms s ! vcpu_vm s)" "vcpu_vm t = vcpu_vm s"
    by (simp_all add: contained_def same_identity_def)
  then show "contained s u"
    using st tu confined_trans [of "guest_space (vms s ! vcpu_vm s)" "memory s" "memory t" "memory u"]
    by (simp add: contained_def same_identity_def)
qed

lemma contained_own:
  assumes "vms s' = (vms s)[vcpu_vm s := vm]" "same_identity (vms s ! vcpu_vm s) vm" "vcpu_vm s' = vcpu_vm s"
    and "confined (guest_space (vms s ! vcpu_vm s)) (memory s) (memory s')"
  shows "contained s s'"
proof -
  have "same_identity (vms s ! vcpu_vm s) (vms s' ! vcpu_vm s)"
    using assms(1,2) by (cases "vcpu_vm s < length (vms s)") (simp_all add: same_identity_def list_update_beyond)
  with assms show ?thesis by (simp add: contained_def)
qed

definition contains :: "('s \<Rightarrow> 'a vcpu_state_scheme) \<Rightarrow> ('s, 'b, Error) action \<Rightarrow> bool" where
  "contains part f \<longleftrightarrow> (\<forall>x. contained (part x) (part (snd (f x))))"

named_theorems contain_intros \<open>rules for actions that stay within the machine\<close>

lemma containsD: "contains part f \<Longrightarrow> f x = (r, y) \<Longrightarrow> contained (part x) (part y)"
  unfolding contains_def by (metis snd_conv)

lemma contains_return [contain_intros]: "contains part (return_state x)"
  by (simp add: contains_def return_state_def)

lemma contains_lift [contain_intros]: "contains part (lift_state x)"
  by (simp add: contains_def lift_state_def)

lemma contains_bind_result:
  assumes "contains part f" "\<And>x y t. f x = (Ok y, t) \<Longrightarrow> contained (part t) (part (snd (g y t)))"
  shows "contains part (bind_state f g)"
  unfolding contains_def
proof
  fix x
  obtain r t where f: "f x = (r, t)" by fastforce
  show "contained (part x) (part (snd (bind_state f g x)))"
    using containsD [OF assms(1) f] assms(2) [of x] contained_trans f
    by (cases r) (auto simp: bind_state_def)
qed

lemma contains_bind [contain_intros]:
  "contains part f \<Longrightarrow> (\<And>y. contains part (g y)) \<Longrightarrow> contains part (bind_state f g)"
  by (rule contains_bind_result) (simp_all add: contains_def)

lemma contains_if [contain_intros]: "contains part f \<Longrightarrow> contains part g \<Longrightarrow> contains part (if b then f else g)"
  by simp

lemma contains_on_fst [contain_intros]: "contains (\<lambda>x. part (snd x)) (on_fst f)"
  by (simp add: contains_def)

lemma contains_on_snd [contain_intros]: "contains part f \<Longrightarrow> contains (\<lambda>x. part (snd x)) (on_snd f)"
  by (simp add: contains_def)

lemma contains_pair: "(\<And>a b. contained (part (a, b)) (part (snd (f a b)))) \<Longrightarrow> contains part (\<lambda>(a, b). f a b)"
  by (simp add: contains_def)

lemma contains_triple: "(\<And>a b c. contained (part (a, b, c)) (part (snd (f a b c)))) \<Longrightarrow> contains part (\<lambda>(a, b, c). f a b c)"
  by (simp add: contains_def)

lemma contains_at: "contains part f \<Longrightarrow> contained (part x) (part (snd (f x)))"
  by (simp add: contains_def)

lemma contains_for_each [contain_intros]:
  assumes "\<And>x. contains part (f x)"
  shows "contains part (for_each f xs)"
  by (induction xs) (auto intro!: contain_intros assms)

lemma contains_state:
  "(\<And>s. vcpu_vm (snd (f s)) = vcpu_vm s \<and> vms (snd (f s)) = vms s \<and> memory (snd (f s)) = memory s) \<Longrightarrow>
    contains (\<lambda>s. s) f"
  by (simp add: contains_def contained_def same_identity_def)

section \<open>The parts of the state\<close>

lemma machines_more:
  "machines s = (vms s, \<lparr>memory = memory s, vcpu_vm = vcpu_vm s, active_vmcs = active_vmcs s, local_apic = local_apic s,
     pending_interrupts = pending_interrupts s, \<dots> = vcpu_state.more s\<rparr>)"
  by (cases s) (simp add: machines_def)

lemma machines_parts:
  assumes "machines s' = machines s"
  shows "vms s' = vms s" "memory s' = memory s" "vcpu_vm s' = vcpu_vm s" "active_vmcs s' = active_vmcs s"
    "local_apic s' = local_apic s"
  using assms unfolding machines_more prod.inject vm_state.ext_inject vcpu_state.ext_inject by blast+

lemma contains_keeps: "keeps machines f \<Longrightarrow> contains (\<lambda>s. s) f"
  by (intro contains_state conjI; rule machines_parts [OF keeps_eq])

lemma contains_read_field [contain_intros]: "contains (\<lambda>s. s) (read_field field)"
  by (rule contains_state) (simp add: read_field_def)

lemma contains_write_field [contain_intros]: "contains (\<lambda>s. s) (write_field field val)"
  by (rule contains_state) (simp add: write_field_def split: prod.split)

lemmas contains_timers [contain_intros] =
  contains_keeps [OF keeps_cancel] contains_keeps [OF keeps_send]

lemma put_device_parts:
  "vcpu_vm (put_device v i dev s) = vcpu_vm s" "memory (put_device v i dev s) = memory s"
  by (simp_all add: put_device_def)


section \<open>Messages and interrupts\<close>

lemma contains_set_serial [contain_intros]: "contains (\<lambda>s. s) (\<lambda>s. (r, set_host_serial serial s))"
  by (auto simp: contains_def set_host_serial_def same_identity_def
      intro!: contained_own [where vm = "(vms s ! vcpu_vm s)\<lparr>host_serial := serial\<rparr>" for s])

lemma contained_inject [simp]: "contained s (inject_interrupt vector kind s)"
  by (simp add: contained_def same_identity_def inject_interrupt_def)

lemma contains_inject [contain_intros]: "contains (\<lambda>s. s) (\<lambda>s. (r, inject_interrupt vector kind s))"
  by (simp add: contains_def)

lemma contains_route [contain_intros]: "contains (\<lambda>s. s) (route_interrupt gsi)"
proof -
  have "contains (\<lambda>s. s) (bind_state (lift_state d) (\<lambda>(destination, vector, kind) s.
      if destination = this_core s then (Ok (), inject_interrupt vector kind s)
      else send_msg_core (GuestInterrupt kind vector) destination True s))" for d
    by (intro contain_intros)
       (auto simp: contains_def intro: contains_at [OF contains_timers(2)] split: prod.split)
  then show ?thesis unfolding route_interrupt_def contains_def by blast
qed

lemma contains_fire [contain_intros]: "contains (\<lambda>s. s) (fire_timer event)"
  unfolding fire_timer_def by (auto split: TimerInterruptType.split intro: contain_intros)

lemma contains_handle_msg [contain_intros]: "contains (\<lambda>s. s) (handle_msg msg)"
  unfolding handle_msg_def by (auto split: VirtualMachineMsg.split intro: contain_intros)

lemma contains_recv_all [contain_intros]: "contains (\<lambda>s. s) recv_all_msgs"
  by (rule contains_state) (simp add: recv_all_msgs_def set_queue_def split: option.split)

lemma contains_handle_ipc [contain_intros]: "contains (\<lambda>s. s) handle_ipc"
  unfolding handle_ipc_def by (intro contain_intros)

lemma contains_skip [contain_intros]: "contains (\<lambda>s. s) skip_emulated_instruction"
  unfolding skip_emulated_instruction_def by (intro contain_intros)

lemma contains_pop [contain_intros]: "contains (\<lambda>s. s) pop_pending"
  by (rule contains_state) (simp add: pop_pending_def write_field_def split: list.split prod.split)

lemma contains_deliver [contain_intros]: "contains (\<lambda>s. s) deliver_pending"
proof -
  have last: "contains (\<lambda>s. s) (\<lambda>s. write_field CpuBasedVmExecControl (f s) s)" for f
    by (simp add: contains_def contains_at [OF contains_write_field])
  show ?thesis
    unfolding contains_def
  proof
    fix s :: "'a vcpu_state_scheme"
    show "contained s (snd (deliver_pending s))"
    proof (cases "RBT.is_empty (pending_interrupts s)")
      case False
      then show ?thesis
        unfolding deliver_pending_def by (simp only: if_False) (rule contains_at, intro contain_intros last)
    qed (simp add: deliver_pending_def)
  qed
qed

section \<open>Devices\<close>

lemma contained_put_device:
  assumes "machines s1 = machines s" "confined (guest_space (vms s ! vcpu_vm s)) (memory s) m"
  shows "contained s (put_device (vcpu_vm s) i dev (s1\<lparr>memory := m\<rparr>))"
  using machines_parts [OF assms(1)] assms(2)
  by (intro contained_own [where vm = "(vms s ! vcpu_vm s)\<lparr>vm_devices := (vm_devices (vms s ! vcpu_vm s))[i := dev]\<rparr>"])
     (simp_all add: put_device_def same_identity_def)

lemma contains_dispatch [contain_intros]: "contains (\<lambda>x. snd x) (vcpu_dispatch hw ident event)"
  unfolding contains_def
proof
  fix x :: "DeviceEventResponse list \<times> 'a vcpu_state_scheme"
  obtain rs s where x: "x = (rs, s)" by fastforce
  obtain r rs' s' where d: "dispatch_event (host hw) (vcpu_vm s) ident event (active_vmcs s) (rs, s) = (r, rs', s')"
    by (metis prod_cases3)
  show "contained (snd x) (snd (snd (vcpu_dispatch hw ident event x)))"
    using dispatch_event_isolated [OF d] d contained_put_device by (auto simp: vcpu_dispatch_def x)
qed

lemma contains_outs_chunk [contain_intros]: "contains (\<lambda>x. snd x) (outs_chunk hw port chunk)"
  unfolding outs_chunk_def by (intro contain_intros)

lemma contains_ins_chunks [contain_intros]: "contains (\<lambda>x. snd x) (ins_chunks hw port bs)"
  by (induction bs) (auto intro!: contain_intros)

lemma contains_outs [contain_intros]: "contains (\<lambda>x. snd (snd x)) (emulate_outs hw port exit)"
  unfolding emulate_outs_def by (intro contains_triple contains_at contain_intros)

text \<open>Bytes go to the guest through the view of its own address space.\<close>

lemma contains_guest_write:
  "contains (\<lambda>x. snd (snd x)) (bind_state (\<lambda>(cpu, rs, s). (guest_view s, cpu, rs, s)) (\<lambda>view.
    on_snd (on_snd (\<lambda>s. case view_write_bytes ea view addr bs acc (memory s) of (r, m) \<Rightarrow> (r, s\<lparr>memory := m\<rparr>)))))"
proof (rule contains_bind_result)
  fix x y t assume "(\<lambda>(cpu, rs, s). (guest_view s, cpu, rs, s)) x = (Ok y, t)"
  then have "view_space y = guest_space (vms (snd (snd t)) ! vcpu_vm (snd (snd t)))"
    by (auto simp: guest_view_def view_from_vmcs_def and_then_Ok_iff split: prod.splits)
  then show "contained (snd (snd t)) (snd (snd (snd (on_snd (on_snd (\<lambda>s.
      case view_write_bytes ea y addr bs acc (memory s) of (r, m) \<Rightarrow> (r, s\<lparr>memory := m\<rparr>))) t))))"
    using view_write_bytes_confined [of ea y addr bs acc "memory (snd (snd t))"]
    by (auto simp: contained_def same_identity_def split: prod.split)
qed (auto simp: contains_def)

lemma bind_state_assoc: "bind_state (bind_state f g) h = bind_state f (\<lambda>x. bind_state (g x) h)"
  by (auto simp: fun_eq_iff bind_state_def split: prod.splits outcome.splits)

lemma contains_ins [contain_intros]: "contains (\<lambda>x. snd (snd x)) (emulate_ins hw port exit)"
proof -
  have wr: "contains (\<lambda>x. snd (snd x)) (bind_state (\<lambda>(cpu, rs, s). (guest_view s, cpu, rs, s)) (\<lambda>view.
    bind_state (on_snd (on_snd (\<lambda>s. case view_write_bytes ea view addr bs acc (memory s) of (r, m) \<Rightarrow> (r, s\<lparr>memory := m\<rparr>)))) (\<lambda>_.
    on_fst f)))" for ea addr bs acc f
    unfolding bind_state_assoc [symmetric] by (intro contain_intros contains_guest_write)
  show ?thesis
    unfolding emulate_ins_def Let_def by (rule contains_triple, rule contains_at, (rule wr | rule contain_intros)+)
qed

lemma contains_portio [contain_intros]: "contains (\<lambda>x. snd (snd x)) (emulate_portio hw exit)"
  unfolding emulate_portio_def Let_def by (intro contains_triple contains_at contain_intros)

section \<open>Memory-mapped I/O\<close>

lemma contains_mmio_write [contain_intros]:
  assumes "\<And>addr event. contains (\<lambda>x. snd x) (on_write addr event)"
  shows "contains (\<lambda>x. snd (snd x)) (do_mmio_write addr instr on_write)"
  unfolding do_mmio_write_def by (intro contains_triple contains_at contain_intros assms)

lemma contains_case_prod [contain_intros]: "(\<And>a b. contains part (f a b)) \<Longrightarrow> contains part (case y of (a, b) \<Rightarrow> f a b)"
  by (cases y) simp

lemma contains_vmcs: "contained s t \<Longrightarrow> contained s (t\<lparr>active_vmcs := v\<rparr>)"
  by (simp add: contained_def)

lemma contains_mmio_read [contain_intros]:
  assumes "\<And>addr event. contains (\<lambda>x. snd x) (on_read addr event)"
  shows "contains (\<lambda>x. snd (snd x)) (do_mmio_read addr instr on_read)"
proof -
  have get: "contains (\<lambda>x. snd (snd x)) (\<lambda>(cpu, rs, s). (f cpu s, cpu, rs, s))" for f
    by (rule contains_triple) simp
  have put: "contains (\<lambda>x. snd (snd x)) (\<lambda>(cpu, rs, s).
      case f cpu s of (r, v, cpu') \<Rightarrow> (r, cpu', rs, s\<lparr>active_vmcs := v\<rparr>))" for f
    by (rule contains_triple) (simp add: contains_vmcs split: prod.split)
  show ?thesis
    unfolding do_mmio_read_def Let_def
    by (rule contains_bind contains_lift contains_case_prod contains_on_snd assms get put)+
qed

lemma contains_process_memio:
  assumes "\<And>addr event. contains (\<lambda>x. snd x) (on_read addr event)" "\<And>addr event. contains (\<lambda>x. snd x) (on_write addr event)"
  shows "contains (\<lambda>x. snd (snd x)) (process_memio_op hw addr on_read on_write)"
  unfolding process_memio_op_def Let_def by (intro contains_triple contains_at contain_intros assms)

lemma contains_ept [contain_intros]: "contains (\<lambda>x. snd (snd x)) (handle_ept_violation hw exit)"
  unfolding handle_ept_violation_def on_ept_violation_def by (intro contain_intros contains_process_memio)

section \<open>The local APIC\<close>

text \<open>An action on the machine set that touches only the queues, the registers of the core and its own machine.\<close>

definition own_machine :: "nat \<Rightarrow> (('d, 'a) vmset_state_scheme, 'b, Error) action \<Rightarrow> bool" where
  "own_machine v f \<longleftrightarrow> (\<forall>s. vmset_state.more (snd (f s)) = vmset_state.more s \<and>
    (\<exists>st. vms (snd (f s)) = (vms s)[v := (vms s ! v)\<lparr>logical_apic_state := st\<rparr>]))"

lemma own_machine_keeps: "(\<And>s. vmset_state.more (snd (f s)) = vmset_state.more s \<and> vms (snd (f s)) = vms s) \<Longrightarrow> own_machine v f"
proof -
  have "xs = xs[v := (xs ! v)\<lparr>logical_apic_state := logical_apic_state (xs ! v)\<rparr>]" for xs :: "'x VirtualMachine list" by simp
  then show "(\<And>s. vmset_state.more (snd (f s)) = vmset_state.more s \<and> vms (snd (f s)) = vms s) \<Longrightarrow> own_machine v f"
    unfolding own_machine_def by metis
qed

lemma keeps_queue_send: "keeps (\<lambda>s. (vmset_state.more s, vms s)) (send_msg_core msg core notify)"
  by (auto simp: keeps_def send_msg_core_def set_queue_def send_ipi_def wrmsr_def split: option.split)

lemma keeps_each [keeps_intros]:
  assumes "\<And>x. keeps part (f x)"
  shows "keeps part (for_each f xs)"
  by (induction xs) (auto intro!: keeps_intros assms)

lemma keeps_command: "keeps (\<lambda>s. (vmset_state.more s, vms s)) (process_interrupt_command vm apic val)"
proof -
  have other: "keeps (\<lambda>s. (vmset_state.more s, vms s)) (interrupt_other_core vector core)" for vector core
    using keeps_queue_send by (auto simp: keeps_def interrupt_other_core_def)
  then have "keeps (\<lambda>s. (vmset_state.more s, vms s)) (deliver_interrupt vm apic dst_mode shorthand vector)" for dst_mode shorthand vector
    unfolding deliver_interrupt_def interrupt_logical_core_def
    by (auto intro!: keeps_intros split: DstShorthand.split option.split DstMode.split)
  then show ?thesis
    unfolding process_interrupt_command_def process_sipi_request_def
    by (auto intro!: keeps_intros keeps_queue_send split: option.split)
qed

lemma register_write_own:
  assumes "register_write v offset val (apic, s) = (r, apic', s')"
  shows "vmset_state.more s' = vmset_state.more s \<and> (\<exists>st. vms s' = (vms s)[v := (vms s ! v)\<lparr>logical_apic_state := st\<rparr>])"
proof -
  have same: "vmset_state.more s = vmset_state.more s \<and> (\<exists>st. vms s = (vms s)[v := (vms s ! v)\<lparr>logical_apic_state := st\<rparr>])"
    by (intro conjI exI [of _ "logical_apic_state (vms s ! v)"]) simp_all
  show ?thesis
  proof (cases "register_offset_try_from offset")
    case (Ok reg)
    consider (logical) "reg = Simple LogicalDestination" | (command) "reg = InterruptCommand 0" | (other) "s' = s"
      using assms Ok
      by (auto simp: register_write_def bind_state_def lift_state_def return_state_def on_fst_def
          split: ApicRegisterOffset.splits ApicRegisterSimpleOffset.splits if_splits)
    then show ?thesis
    proof cases
      case logical
      then show ?thesis
        using assms Ok same
        by (auto simp: register_write_def bind_state_def lift_state_def on_snd_def update_core_logical_destination_def
            Let_def split: option.splits)
    next
      case command
      obtain r1 s1 where c: "process_interrupt_command (vms s ! v) apic val s = (r1, s1)" by fastforce
      then have "s' = s1"
        using assms Ok command
        by (auto simp: register_write_def bind_state_def lift_state_def write_icr_low_def on_snd_def on_fst_def split: outcome.splits)
      then show ?thesis using keepsD [OF keeps_command c] same by simp
    qed (use same in simp)
  qed (use assms same in \<open>auto simp: register_write_def bind_state_def lift_state_def\<close>)
qed

lemma vmset_more:
  "vmset_state.more s = \<lparr>frequency = frequency s, tsc = tsc s, tsc_reads = tsc_reads s, timer_wheel = timer_wheel s,
     memory = memory s, vcpu_vm = vcpu_vm s, active_vmcs = active_vmcs s, local_apic = local_apic s,
     pending_interrupts = pending_interrupts s, \<dots> = vcpu_state.more s\<rparr>"
  by (cases s) simp

lemma vmset_more_parts:
  assumes "vmset_state.more s' = vmset_state.more s"
  shows "memory s' = memory s" "vcpu_vm s' = vcpu_vm s"
  using assms unfolding vmset_more time_state.ext_inject vm_state.ext_inject vcpu_state.ext_inject by blast+

lemma contains_register_write [contain_intros]:
  "contains (\<lambda>x. x) (\<lambda>s. case register_write (vcpu_vm s) offset val (local_apic s, s) of
    (r, l, s') \<Rightarrow> (f r, s'\<lparr>local_apic := l\<rparr>))"
  unfolding contains_def
proof
  fix s :: "'a vcpu_state_scheme"
  obtain r l s' where w: "register_write (vcpu_vm s) offset val (local_apic s, s) = (r, l, s')" by (metis prod_cases3)
  obtain st where "vms s' = (vms s)[vcpu_vm s := (vms s ! vcpu_vm s)\<lparr>logical_apic_state := st\<rparr>]"
    using register_write_own [OF w] by blast
  then have "contained s (s'\<lparr>local_apic := l\<rparr>)"
    using vmset_more_parts [of s' s] register_write_own [OF w]
    by (intro contained_own [where vm = "(vms s ! vcpu_vm s)\<lparr>logical_apic_state := st\<rparr>"]) (simp_all add: same_identity_def)
  then show "contained s (snd (case register_write (vcpu_vm s) offset val (local_apic s, s) of
      (r, l, s') \<Rightarrow> (f r, s'\<lparr>local_apic := l\<rparr>)))" by (simp add: w)
qed

lemma contains_apic_write: "contains (\<lambda>x. snd x) (on_apic_write addr event)"
  unfolding on_apic_write_def by (auto intro!: contain_intros split: DeviceEvent.split)

lemma contains_apic_read: "contains (\<lambda>x. snd x) (on_apic_read addr event)"
proof -
  have "contains (\<lambda>x. snd x) (case event of
      MemRead a req \<Rightarrow> if length req = 4 then return_state (MemRead a (f req)) else lift_state Panic
    | _ \<Rightarrow> lift_state (Err NotSupported))" for f
    by (auto intro: contain_intros split: DeviceEvent.split)
  then show ?thesis
    unfolding on_apic_read_def by (intro contains_pair contains_at contain_intros)
qed

lemma contains_apic [contain_intros]: "contains (\<lambda>x. snd (snd x)) (handle_apic_access hw exit)"
  unfolding handle_apic_access_def
  by (intro contain_intros contains_process_memio contains_apic_read contains_apic_write)

section \<open>Timers\<close>

lemma keeps_clock_check: "keeps machines (bind_state now (\<lambda>t. lift_state (g t)))"
  by (intro keeps_intros)

lemma keeps_elapsed [keeps_intros]: "keeps machines (elapsed timer)"
  by (simp add: keeps_def elapsed_def keeps_eq [OF keeps_clock_check])

lemma keeps_restart: "keeps machines (bind_state now (\<lambda>t. return_state (g t)))"
  by (intro keeps_intros)

lemma keeps_reset [keeps_intros]: "keeps machines (reset timer)"
  by (simp add: keeps_def reset_def return_state_def keeps_eq [OF keeps_restart])

lemma keeps_elapsed_oneshots [keeps_intros]: "keeps machines (elapsed_oneshots ts)"
  by (induction ts) (auto intro!: keeps_intros split: prod.split)

lemma keeps_reset_periodics [keeps_intros]: "keeps machines (reset_periodics ts w interrupts)"
  by (induction ts arbitrary: w interrupts) (auto intro!: keeps_intros split: prod.split)

lemma keeps_case_prod [keeps_intros]: "(\<And>a b. keeps part (f a b)) \<Longrightarrow> keeps part (case y of (a, b) \<Rightarrow> f a b)"
  by (cases y) simp

lemma contains_expire [contain_intros]: "contains (\<lambda>s. s) expire_elapsed_timers"
  unfolding expire_elapsed_timers_def by (intro contains_keeps keeps_intros)

section \<open>Responses\<close>

lemma contains_send_msg [contain_intros]: "contains (\<lambda>s. s) (send_msg msg vmid notify)"
  using contains_timers(2) by (auto simp: contains_def send_msg_def split: outcome.split option.split)

lemma contains_next_console [contain_intros]: "contains (\<lambda>s. s) (next_console hw)"
proof -
  have get: "contains (\<lambda>s. s) (\<lambda>s. if vms s = [] then (Panic, s) else (Ok (f s), s))" for f :: "run_state \<Rightarrow> u32"
    by (simp add: contains_def)
  have core: "contains (\<lambda>s. s) (\<lambda>s. (f s, s))" for f :: "run_state \<Rightarrow> CoreId res"
    by (simp add: contains_def)
  have io: "contains (\<lambda>s. s) (\<lambda>s. case map_gsi_vector store gsi vector apic (ioapic_regs s) of
      (r, io) \<Rightarrow> (f r, s\<lparr>ioapic_regs := io\<rparr>))" for store gsi vector apic and f :: "unit res \<Rightarrow> unit res"
    by (rule contains_state) (simp split: prod.split)
  show ?thesis
    unfolding contains_def
  proof
    fix s
    show "contained s (snd (next_console hw s))"
    proof (cases "host_serial (vms s ! vcpu_vm s)")
      case (Some serial)
      have serial: "contained s (set_host_serial None s)" using contains_at [OF contains_set_serial, of s] by simp
      show ?thesis
        unfolding next_console_def Some option.case
        by (rule contained_trans [OF serial], rule contains_at, (rule get core io | rule contain_intros)+)
    qed (simp add: next_console_def)
  qed
qed

lemma contains_response [contain_intros]: "contains (\<lambda>s. s) (handle_response hw response)"
proof -
  have "contains (\<lambda>s. s) (\<lambda>s :: run_state. (Ok (), if b s then s\<lparr>console := f s\<rparr> else s))" for b f
    by (rule contains_state) simp
  then show ?thesis
    unfolding handle_response_def by (auto intro!: contain_intros split: DeviceEventResponse.split)
qed

section \<open>Exits\<close>

lemma contains_keypress [contain_intros]: "contains (\<lambda>x. snd x) (handle_uart_keypress hw)"
proof -
  have go: "contains (\<lambda>x. snd x) (bind_state (vcpu_dispatch hw ident event) (\<lambda>_. return_state ()))" for ident event
    by (intro contain_intros)
  have "contained s (s\<lparr>serial_reads := n\<rparr>)" for s :: run_state and n
    by (simp add: contained_def same_identity_def)
  then have "contained s (snd (snd (bind_state (vcpu_dispatch hw ident event) (\<lambda>_. return_state ()) (rs, s\<lparr>serial_reads := n\<rparr>))))"
    for s :: run_state and n rs ident event
    using contains_at [OF go, of "(rs, s\<lparr>serial_reads := n\<rparr>)"] contained_trans by fastforce
  then show ?thesis
    unfolding handle_uart_keypress_def by (intro contains_pair) (simp split: option.split)
qed

lemma contains_interrupt_exit [contain_intros]: "contains (\<lambda>x. snd x) (handle_interrupt_exit hw vector)"
proof -
  have "contains (\<lambda>s. s) (\<lambda>s :: run_state. (Ok (), eoi s))" by (rule contains_state) (simp add: eoi_def wrmsr_def)
  then show ?thesis
    unfolding handle_interrupt_exit_def by (intro contain_intros)
qed

lemma contains_mov: "contains (\<lambda>x. snd x) (\<lambda>(cpu, s). case f cpu s of (r, v, cpu') \<Rightarrow> (r, cpu', s\<lparr>active_vmcs := v\<rparr>))"
  by (rule contains_pair) (simp add: contains_vmcs split: prod.split)

lemma contained_step: "contains (\<lambda>x. snd x) f \<Longrightarrow> contained s (snd (snd (f (cpu, s))))"
  using contains_at [of "\<lambda>x. snd x" f "(cpu, s)"] by simp

lemma contains_access: "contains (\<lambda>x. snd x) (emulate_access hw info)"
  unfolding emulate_access_def
  by (rule contains_pair)
     (auto intro!: contained_step contain_intros contains_mov split: CrAccessType.split simp del: on_snd_eq)

lemma contains_then_skip: "contains (\<lambda>x. snd (snd x)) f \<Longrightarrow> contains (\<lambda>x. snd (snd x)) (then_skip f)"
  unfolding then_skip_def by (intro contain_intros)

lemma contains_registers: "contains (\<lambda>x. snd (snd x)) (\<lambda>(cpu, rs, s). (r, f cpu s, rs, s))"
  by (rule contains_triple) simp

lemma contains_cr: "contains (\<lambda>x. snd (snd x)) (\<lambda>(cpu, rs, s). case emulate_access hw info (cpu, s) of (r, cpu', s') \<Rightarrow> (r, cpu', rs, s'))"
  using containsD [OF contains_access, of hw info] by (intro contains_triple) (fastforce split: prod.split)

lemma contains_emulate_exit [contain_intros]: "contains (\<lambda>x. snd (snd x)) (emulate_exit hw info)"
  unfolding emulate_exit_def emulate_rdmsr_def Let_def
  by (cases info)
     (auto intro!: contain_intros contains_then_skip contains_registers contains_cr)

lemma contains_vmexit_impl [contain_intros]: "contains (\<lambda>x. snd x) (handle_vmexit_impl hw exit)"
proof -
  have "contains (\<lambda>x. snd (snd x)) (\<lambda>(cpu, rs, s). case for_each (handle_response hw) rs s of (r, s') \<Rightarrow> (r, cpu, rs, s'))"
    using containsD [OF contains_for_each [OF contains_response [of hw]]]
    by (intro contains_triple) (fastforce split: prod.split)
  then have run: "contains (\<lambda>x. snd (snd x)) (bind_state (emulate_exit hw (exit_info exit)) (\<lambda>_ (cpu, rs, s).
      case for_each (handle_response hw) rs s of (r, s') \<Rightarrow> (r, cpu, rs, s')))"
    by (intro contain_intros)
  show ?thesis
    unfolding handle_vmexit_impl_def
    by (intro contains_pair) (use containsD [OF run] in \<open>fastforce split: prod.split\<close>)
qed

lemma contains_vmexit [contain_intros]: "contains (\<lambda>x. snd x) (handle_vmexit hw exit)"
  unfolding handle_vmexit_def by (intro contain_intros)

text \<open>
  C1: Guests are isolated from each other. Whatever makes a guest exit, and whether the exit is handled, fails or
  panics, the handler changes bytes of host memory only within frames that the nested page tables of the
  machine of this virtual CPU map, and changes no page table. Every other machine is as before, and the
  machine itself keeps its identity, its cores, its memory size, its address space and the map of its devices.
\<close>

theorem vmexit_isolated:
  assumes "vmexit_handler hw (cpu, s) = (r, cpu', s')"
  shows "let v = vcpu_vm s; vm = vms s ! v; vm' = vms s' ! v in
    vcpu_vm s' = v \<and> confined (guest_space vm) (memory s) (memory s') \<and>
    length (vms s') = length (vms s) \<and> (\<forall>w. w \<noteq> v \<longrightarrow> vms s' ! w = vms s ! w) \<and>
    vm_id vm' = vm_id vm \<and> vm_cpus vm' = vm_cpus vm \<and> vm_memory vm' = vm_memory vm \<and>
    guest_space vm' = guest_space vm \<and> virtual_device_map vm' = virtual_device_map vm"
proof -
  have "contained s s'"
    using assms containsD [OF contains_vmexit, of hw _ "(cpu, s)"]
    by (fastforce simp: vmexit_handler_def split: outcome.splits prod.splits)
  then show ?thesis by (simp add: contained_def same_identity_def Let_def)
qed

definition port_cpu :: GuestCpuState where
  "port_cpu = \<lparr>cr2 = 0, r15 = 0, r14 = 0, r13 = 0, r12 = 0, r11 = 0, r10 = 0, r9 = 0, r8 = 0, rbp = 0, rdi = 0, rsi = 0,
    rdx = 0x402, rcx = 0, rbx = 0, rax = 65\<rparr>"

definition console_machine :: Machine where
  "console_machine = plain_machine\<lparr>vm_id := 1, host_serial := Some 0x3f8, vm_devices := [Dev_DebugPort (debug_new 0x402)],
    virtual_device_map := snd (register_devices [Dev_DebugPort (debug_new 0x402)] device_map_default)\<rparr>"

definition port_exit :: run_state where
  "port_exit = plain_run\<lparr>vms := [plain_machine, console_machine], vcpu_vm := 1, timer_wheel := Some timer_wheel_new,
    pending_interrupts := RBT.empty, active_vmcs := quiet_vmcs\<lparr>vmcs_values := (\<lambda>field.
      if field = VmExitReason then 30 else if field = ExitQualification then 0x04020000
      else if field = VmExitInstructionLen then 1 else 0)\<rparr>\<rparr>"

theorem vmexit_isolated_witness:
  "\<exists>cpu' s'. vmexit_handler plain_hw (port_cpu, port_exit) = (Ok (), cpu', s') \<and> console s' = [65] \<and>
    vms s' ! 0 = plain_machine \<and> confined \<lparr>root = 0x5000\<rparr> (memory port_exit) (memory s')"
proof -
  let ?out = "vmexit_handler plain_hw (port_cpu, port_exit)"
  have "?out = (fst ?out, fst (snd ?out), snd (snd ?out))" by simp
  from vmexit_isolated [OF this]
  have "vms (snd (snd ?out)) ! 0 = vms port_exit ! 0"
    "confined (guest_space (vms port_exit ! 1)) (memory port_exit) (memory (snd (snd ?out)))"
    by (simp_all add: Let_def port_exit_def)
  moreover have "vms port_exit ! 0 = plain_machine" "guest_space (vms port_exit ! 1) = \<lparr>root = 0x5000\<rparr>"
    by (simp_all add: port_exit_def console_machine_def plain_machine_def)
  moreover have "fst ?out = Ok ()" "console (snd (snd ?out)) = [65]" by code_simp+
  ultimately show ?thesis by (intro exI [of _ "fst (snd ?out)"] exI [of _ "snd (snd ?out)"]) (simp add: prod_eq_iff)
qed

end
