(* ===== verification/Guest_Access.thy ===== *)
theory Guest_Access
  imports Exit_Isolation
begin

text \<open>
  What a guest sees of the emulation of its instructions (\<open>src/mythril/src/emulate\<close>): the result of
  reading a port, and accesses to its local APIC through memory.
\<close>

unbundle bit_operations_syntax

section \<open>Reading a port\<close>

lemma last_bytes_zero: "unat n \<le> 4 \<Longrightarrow> last_bytes n [0, 0, 0, 0] = Ok (replicate (unat n) 0)"
proof -
  assume "unat n \<le> 4"
  then have "unat n \<in> {0, 1, 2, 3, 4}" by auto
  then show ?thesis by (auto simp: last_bytes_def numeral_eq_Suc)
qed

lemma from_le_bytes_zeros: "from_le_bytes (bs @ replicate k 0) = from_le_bytes bs"
proof (induction bs)
  case Nil
  show ?case by (induction k) simp_all
qed simp

lemma from_be_bytes_zeros: "from_be_bytes (replicate k 0 @ bs) = from_be_bytes bs"
  by (simp add: from_be_bytes_def from_le_bytes_zeros)

lemma from_le_bytes_high: "8 * length bs \<le> i \<Longrightarrow> \<not> bit (from_le_bytes bs :: 'a::len word) i"
proof (induction bs arbitrary: i)
  case (Cons b bs)
  have "\<not> bit b i" using Cons(2) bit_imp_le_length [of b i] by auto
  moreover have "8 * length bs \<le> i - 8" "8 \<le> i" using Cons(2) by auto
  ultimately show ?case using Cons(1) [of "i - 8"] by (auto simp: bit_simps)
qed simp

text \<open>
  C39: What \<open>in\<close> leaves in the accumulator. When the device answers an access of 1, 2 or 4 bytes with a
  request of that width, the low bits are exactly the value of the device, and only the accumulator changes. The bits above
  are not kept: each is cleared when the bit as many places below it was set before.
\<close>

theorem port_in_result:
  assumes "\<not> io_string exit" "io_input exit" "unat (io_size exit) \<in> {1, 2, 4}"
    and "read_request_try_from (replicate (unat (io_size exit)) 0) = Ok request"
    and "vcpu_dispatch hw (AtPort (io_port exit)) (PortRead (io_port exit) request) (rs, s) = (Ok (PortRead port reply), rs', s')"
    and "read_len reply = unat (io_size exit)"
  shows "\<exists>x. emulate_portio hw exit (cpu, rs, s) = (Ok (), cpu\<lparr>rax := x\<rparr>, rs', s') \<and>
    (let n = 8 * unat (io_size exit) in
      (\<forall>i < n. bit x i \<longleftrightarrow> bit (from_be_bytes (read_as_slice reply) :: u32) i) \<and>
      (\<forall>i \<ge> n. bit x i \<longleftrightarrow> bit (rax cpu) i \<and> \<not> bit (rax cpu) (i - n)))"
proof -
  let ?n = "8 * unat (io_size exit)" and ?val = "from_be_bytes (read_as_slice reply) :: u32"
  have sz: "unat (io_size exit) \<le> 4" using assms(3) by auto
  have n: "unat (io_size exit * 8) = ?n" using sz by (simp add: unat_word_ariths)
  have high: "\<not> bit ?val i" if "?n \<le> i" for i
    using assms(6) that by (simp add: read_len_def from_be_bytes_def from_le_bytes_high)
  have len: "bit (rax cpu) i \<Longrightarrow> i < 64 \<and> i - ?n < 64" for i using bit_imp_le_length [of "rax cpu" i] by auto
  show ?thesis
    using assms(1,2,4,5) sz n high
    by (auto simp: emulate_portio_def Let_def bind_state_def lift_state_def last_bytes_zero on_snd_def on_fst_def
        from_be_bytes_zeros bit_simps dest: len intro!: exI)
qed

definition in_byte :: IoInstructionInformation where
  "in_byte = \<lparr>io_size = 1, io_input = True, io_string = False, io_rep = False, io_immediate = False, io_port = 0x402\<rparr>"

theorem port_in_result_witness:
  "\<exists>x s'. emulate_portio plain_hw in_byte (port_cpu\<lparr>rax := 0x2ff\<rparr>, [], port_exit) = (Ok (), port_cpu\<lparr>rax := x\<rparr>, [], s') \<and>
    (\<forall>i < 8. bit x i \<longleftrightarrow> bit (0xe9 :: u32) i) \<and> \<not> bit x 9 \<and> bit (0x2ff :: u64) 9"
proof -
  let ?out = "vcpu_dispatch plain_hw (AtPort 0x402) (PortRead 0x402 (ReadOneByte 0)) ([], port_exit)"
  have "fst ?out = Ok (PortRead 0x402 (ReadOneByte 0xe9))" "fst (snd ?out) = []" by code_simp+
  then have d: "vcpu_dispatch plain_hw (AtPort (io_port in_byte)) (PortRead (io_port in_byte) (ReadOneByte 0)) ([], port_exit) =
      (Ok (PortRead 0x402 (ReadOneByte 0xe9)), [], snd (snd ?out))"
    by (simp add: in_byte_def prod_eq_iff)
  have io: "\<not> io_string in_byte" "io_input in_byte" "unat (io_size in_byte) \<in> {1, 2, 4}" "unat (io_size in_byte) = 1"
    "read_request_try_from (replicate (unat (io_size in_byte)) 0) = Ok (ReadOneByte 0)"
    by (simp_all add: in_byte_def read_request_try_from_def)
  obtain x where x: "emulate_portio plain_hw in_byte (port_cpu\<lparr>rax := 0x2ff\<rparr>, [], port_exit) =
      (Ok (), port_cpu\<lparr>rax := 0x2ff\<rparr>\<lparr>rax := x\<rparr>, [], snd (snd ?out))"
    "\<forall>i < 8. bit x i \<longleftrightarrow> bit (from_be_bytes [0xe9] :: u32) i"
    "\<forall>i \<ge> 8. bit x i \<longleftrightarrow> bit (0x2ff :: u64) i \<and> \<not> bit (0x2ff :: u64) (i - 8)"
    using port_in_result [OF io(1-3) io(5) d, of "port_cpu\<lparr>rax := 0x2ff\<rparr>"] io(4)
    by (auto simp: Let_def read_len_def)
  have nine: "from_be_bytes [0xe9] = (0xe9 :: u32)" by (simp add: from_be_bytes_def)
  have bits: "bit (0x2ff :: u64) 9" "bit (0x2ff :: u64) 1" by simp_all
  have "\<not> bit x 9" using x(3) [rule_format, of 9] bits by simp
  moreover have "emulate_portio plain_hw in_byte (port_cpu\<lparr>rax := 0x2ff\<rparr>, [], port_exit) = (Ok (), port_cpu\<lparr>rax := x\<rparr>, [], snd (snd ?out))"
    using x(1) by simp
  ultimately show ?thesis using x(2) bits unfolding nine by blast
qed

section \<open>Accesses to the local APIC\<close>

text \<open>The instruction the guest exited at.\<close>

definition fetch :: "processor \<Rightarrow> 'a vcpu_state_scheme \<Rightarrow> Instruction res" where
  "fetch hw s =
    (let field = vmcs_values (active_vmcs s); ip = field GuestRip in
     and_then (guest_virt_addr_new ip (active_vmcs s)) (\<lambda>ip_addr.
     and_then (guest_view s) (\<lambda>view.
     and_then (view_read_bytes (entry_address (host hw)) view ip_addr (field VmExitInstructionLen) (Read 0) (memory s)) (\<lambda>bytes.
     Ok (decode hw (if field GuestIa32Efer AND 0x100 \<noteq> 0 then 64 else 32) bytes ip)))))"

lemma process_memio_fetched:
  assumes "fetch hw s = Ok instr"
  shows "process_memio_op hw addr on_read on_write (cpu, rs, s) =
    (if op0_kind instr = OpMemory \<or> op0_kind instr = OpMemory64 then do_mmio_write addr instr on_write
     else if op1_kind instr = OpMemory \<or> op1_kind instr = OpMemory64 then do_mmio_read addr instr on_read
     else lift_state (Err InvalidValue)) (cpu, rs, s)"
  using assms
  by (auto simp: fetch_def process_memio_op_def Let_def and_then_Ok_iff bind_state_def lift_state_def on_snd_def
      read_field_def vmcs_read_def)

lemma apic_address:
  "address_to_apic_offset (GUEST_LOCAL_APIC_ADDR + ucast (offset :: u16) * 4) = (if offset < 0x400 then Ok offset else Panic)"
proof -
  have o: "unat offset < 65536" using unsigned_less [of offset, where 'a = nat] by simp
  then have u: "unat (ucast offset * 4 :: u64) = unat offset * 4"
    by (simp add: unat_word_ariths unsigned_ucast_eq take_bit_eq_mod)
  have a: "unat (GUEST_LOCAL_APIC_ADDR + ucast offset * 4) = 0xfee00000 + unat offset * 4"
    using o by (simp only: unat_word_ariths(1) u GUEST_LOCAL_APIC_ADDR_def) simp
  have "unat (ucast offset * 4 div 4 :: u64) = unat offset" by (simp add: unat_div u)
  then have "ucast (ucast offset * 4 div 4 :: u64) = offset"
    using o by (simp add: word_unat_eq_iff unsigned_ucast_eq take_bit_eq_mod)
  moreover have "GUEST_LOCAL_APIC_ADDR \<le> GUEST_LOCAL_APIC_ADDR + ucast offset * 4"
    using a by (simp add: word_le_nat_alt GUEST_LOCAL_APIC_ADDR_def)
  moreover have "GUEST_LOCAL_APIC_ADDR + ucast offset * 4 < GUEST_LOCAL_APIC_ADDR + of_nat BASE_PAGE_SIZE \<longleftrightarrow> offset < 0x400"
    using a by (simp add: word_less_nat_alt GUEST_LOCAL_APIC_ADDR_def BASE_PAGE_SIZE_def)
  ultimately show ?thesis by (simp add: address_to_apic_offset_def)
qed

text \<open>Moves of 32 bits from and to memory.\<close>

definition loads :: "Instruction \<Rightarrow> MovCrRegister \<Rightarrow> bool" where
  "loads instr reg \<longleftrightarrow> op0_kind instr = OpRegister \<and> op1_kind instr = OpMemory \<and> op_register instr 0 = Gpr reg W32"

definition stores :: "Instruction \<Rightarrow> MovCrRegister \<Rightarrow> bool" where
  "stores instr reg \<longleftrightarrow> op0_kind instr = OpMemory \<and> op1_kind instr = OpRegister \<and> op_register instr 1 = Gpr reg W32"

lemma mov_cr_write_read:
  assumes "reg \<noteq> MovRsp"
  shows "\<exists>cpu'. mov_cr_write reg val (vmcs, cpu) = (Ok (), vmcs, cpu') \<and> mov_cr_read reg vmcs cpu' = Ok val"
  using assms by (cases reg) (simp_all add: mov_cr_write_def mov_cr_read_def)

lemma swapped_word: "from_le_bytes (be_bytes 4 (val :: u32)) = (ucast (swap_bytes 4 val) :: u64)"
proof -
  have "(ucast (from_le_bytes bs :: u32) :: u64) = from_le_bytes bs" if "length bs \<le> 4" for bs
  proof (rule bit_word_eqI)
    fix n
    have "\<not> bit (from_le_bytes bs :: u64) n" if "32 \<le> n" using from_le_bytes_high [of bs n] that \<open>length bs \<le> 4\<close> by auto
    moreover have "bit (from_le_bytes bs :: u64) n = bit (from_le_bytes bs :: u32) n" if "n < 32"
      using that by (induction bs arbitrary: n) (auto simp: bit_simps)
    ultimately show "bit (ucast (from_le_bytes bs :: u32) :: u64) n = bit (from_le_bytes bs :: u64) n"
      by (cases "n < 32") (auto simp: bit_simps dest: bit_imp_le_length)
  qed
  then show ?thesis by (simp add: swap_bytes_def)
qed

lemma le_bytes_low:
  "k + 8 * n \<le> 32 \<Longrightarrow> le_bytes n (drop_bit k (ucast (w :: u64) :: u32)) = le_bytes n (drop_bit k w)"
proof (induction n arbitrary: k)
  case (Suc n)
  have "ucast (drop_bit k (ucast w :: u32)) = (ucast (drop_bit k w) :: u8)"
    using Suc(2) by (intro bit_word_eqI) (auto simp: bit_simps)
  with Suc(1) [of "k + 8"] Suc(2) show ?case by (simp add: add.commute)
qed simp

lemma low_word: "from_be_bytes (be_bytes 4 (w :: u64)) = (ucast w :: u32)"
proof -
  have "take_bit 32 (ucast w :: u32) = ucast w" by (intro bit_word_eqI) (simp add: bit_simps)
  then show ?thesis
    using le_bytes_low [of 0 4 w] from_be_bytes_be_bytes [of 4 "ucast w :: u32"] by (simp add: be_bytes_def)
qed

text \<open>
  C40: Accesses of 32 bits to the local APIC. When the guest exited at a move, a load puts the value of the register at
  the accessed offset into the low half of the destination, with its bytes reversed, so that the number of the
  core appears in the top byte; the high half is kept. A store passes the low half of its source to the register.
  An offset of \<open>0x400\<close> or more, which the page has, panics.
\<close>

theorem apic_access_32bit:
  assumes "fetch hw s = Ok instr" "apic_offset exit = Some offset" "reg \<notin> {MovRsp, MovRbp}"
    and "mov_cr_read reg (active_vmcs s) cpu = Ok old"
  shows "(loads instr reg \<longrightarrow>
      (if offset < 0x400 then
         (case register_read offset s of
            Ok val \<Rightarrow> \<exists>cpu'. handle_apic_access hw exit (cpu, rs, s) = (Ok (), cpu', rs, s) \<and>
              mov_cr_read reg (active_vmcs s) cpu' = Ok ((old AND NOT (mask 32)) OR ucast (swap_bytes 4 val))
          | Err e \<Rightarrow> handle_apic_access hw exit (cpu, rs, s) = (Err e, cpu, rs, s)
          | _ \<Rightarrow> False)
       else handle_apic_access hw exit (cpu, rs, s) = (Panic, cpu, rs, s))) \<and>
    (stores instr reg \<longrightarrow>
      handle_apic_access hw exit (cpu, rs, s) =
        (if offset < 0x400 then
           (case register_write (vcpu_vm s) offset (ucast old) (local_apic s, s) of
              (r, l, s') \<Rightarrow> (r, cpu, rs, s'\<lparr>local_apic := l\<rparr>))
         else (Panic, cpu, rs, s)))"
proof -
  let ?addr = "GUEST_LOCAL_APIC_ADDR + ucast offset * 4"
  have run: "handle_apic_access hw exit (cpu, rs, s) = process_memio_op hw ?addr on_apic_read on_apic_write (cpu, rs, s)"
    using assms(2) by (simp add: handle_apic_access_def bind_state_def lift_state_def)
  have ret: "register_read offset s \<noteq> Panic" "register_read offset s \<noteq> Undefined"
    by (auto simp: register_read_def register_offset_try_from_def split: option.splits)
  have "(case register_read offset s of
          Ok val \<Rightarrow> \<exists>cpu'. handle_apic_access hw exit (cpu, rs, s) = (Ok (), cpu', rs, s) \<and>
            mov_cr_read reg (active_vmcs s) cpu' = Ok ((old AND NOT (mask 32)) OR ucast (swap_bytes 4 val))
        | Err e \<Rightarrow> handle_apic_access hw exit (cpu, rs, s) = (Err e, cpu, rs, s)
        | _ \<Rightarrow> False)" if "loads instr reg" "offset < 0x400"
  proof (cases "register_read offset s")
    case (Ok val)
    obtain cpu' where "mov_cr_write reg ((old AND NOT (mask 32)) OR ucast (swap_bytes 4 val)) (active_vmcs s, cpu) = (Ok (), active_vmcs s, cpu')"
      "mov_cr_read reg (active_vmcs s) cpu' = Ok ((old AND NOT (mask 32)) OR ucast (swap_bytes 4 val))"
      using mov_cr_write_read assms(3) by blast
    with that Ok assms show ?thesis
      by (auto simp: run process_memio_fetched loads_def do_mmio_read_def mmio_destination_def bind_state_def lift_state_def
          on_snd_def on_apic_read_def apic_address return_state_def swapped_word)
  next
    case (Err e)
    with that assms show ?thesis
      by (auto simp: run process_memio_fetched loads_def do_mmio_read_def mmio_destination_def bind_state_def lift_state_def
          on_snd_def on_apic_read_def apic_address)
  qed (use ret in simp_all)
  moreover have "handle_apic_access hw exit (cpu, rs, s) = (Panic, cpu, rs, s)"
    if "loads instr reg \<or> stores instr reg" "\<not> offset < 0x400"
    using that assms
    by (auto simp: run process_memio_fetched loads_def stores_def do_mmio_read_def do_mmio_write_def mmio_destination_def
        mmio_data_def read_register_value_def bind_state_def lift_state_def on_snd_def on_apic_read_def on_apic_write_def apic_address)
  moreover have "handle_apic_access hw exit (cpu, rs, s) =
      (case register_write (vcpu_vm s) offset (ucast old) (local_apic s, s) of (r, l, s') \<Rightarrow> (r, cpu, rs, s'\<lparr>local_apic := l\<rparr>))"
    if "stores instr reg" "offset < 0x400"
  proof -
    obtain r l s' where "register_write (vcpu_vm s) offset (ucast old) (local_apic s, s) = (r, l, s')" by (metis prod_cases3)
    then show ?thesis
      using that assms low_word [of old]
      by (cases r) (auto simp: run process_memio_fetched stores_def do_mmio_write_def mmio_data_def read_register_value_def
          bind_state_def lift_state_def on_snd_def on_apic_write_def apic_address return_state_def)
  qed
  ultimately show ?thesis by simp
qed

definition load_eax :: processor where
  "load_eax = plain_hw\<lparr>decode := (\<lambda>mode bytes ip. \<lparr>op0_kind = OpRegister, op1_kind = OpMemory, op_register = (\<lambda>i. Gpr MovRax W32),
    immediate8 = 0, immediate16 = 0, immediate32 = 0, immediate64 = 0\<rparr>)\<rparr>"

definition apic_run :: run_state where
  "apic_run = plain_run\<lparr>this_core := 3, memory := two_pages, vms := [plain_machine\<lparr>guest_space := first_space\<rparr>],
    active_vmcs := quiet_vmcs\<lparr>vmcs_values := (\<lambda>field.
      if field = GuestRip then 0x5ffe else if field = VmExitInstructionLen then 4 else 0)\<rparr>\<rparr>"

theorem apic_access_32bit_witness:
  "\<exists>cpu'. handle_apic_access load_eax \<lparr>apic_offset = Some 0x20, apic_kind = LinearRead, async_instr_exec = False\<rparr>
      (port_cpu, [], apic_run) = (Ok (), cpu', [], apic_run) \<and> rax cpu' = 0x03000000"
proof -
  let ?exit = "\<lparr>apic_offset = Some 0x20, apic_kind = LinearRead, async_instr_exec = False\<rparr>"
  have bytes: "\<exists>bs. read_bytes id first_space 0 (NoPaging 0x5ffe) 4 (Read 0) two_pages = Ok bs"
    using read_bytes_guest_bytes [OF two_pages_ok(1), of "0x5ffe" 4 id 0 "Read 0"] two_pages_range(5) [OF refl]
    by (simp add: BASE_PAGE_SIZE_def)
  let ?instr = "decode load_eax 32 [] 0"
  have f: "fetch load_eax apic_run = Ok ?instr"
    using bytes
    by (auto simp: fetch_def Let_def apic_run_def load_eax_def plain_hw_def guest_virt_addr_new_def vmcs_read_def vmcs_fields
        guest_view_def view_from_vmcs_def view_read_bytes_def and_then_Ok_iff plain_run_def quiet_vcpu_def vcpu_state.defs)
  have off: "apic_offset ?exit = Some 0x20" and reg: "MovRax \<notin> {MovRsp, MovRbp}" by simp_all
  have old: "mov_cr_read MovRax (active_vmcs apic_run) port_cpu = Ok 65" by (simp add: mov_cr_read_def port_cpu_def)
  have "register_read 0x20 apic_run = Ok 3" by code_simp
  moreover have "loads ?instr MovRax" by (simp add: loads_def load_eax_def)
  ultimately obtain cpu' where cpu': "handle_apic_access load_eax ?exit (port_cpu, [], apic_run) = (Ok (), cpu', [], apic_run)"
    "mov_cr_read MovRax (active_vmcs apic_run) cpu' = Ok ((65 AND NOT (mask 32)) OR ucast (swap_bytes 4 (3 :: u32)))"
    using apic_access_32bit [OF f off reg old, of "[]"] by auto
  have "(65 AND NOT (mask 32)) OR ucast (swap_bytes 4 (3 :: u32)) = (0x03000000 :: u64)" by code_simp
  then have "rax cpu' = 0x03000000" using cpu'(2) by (simp add: mov_cr_read_def)
  with cpu'(1) show ?thesis by blast
qed

end
