(* ===== verification/Table_Loader.thy ===== *)
theory Table_Loader
  imports Vm Madt "HOL-Library.List_Lexorder"
begin

text \<open>
  How a guest gets its ACPI tables: the commands for the table loader of the firmware
  (\<open>acpi/seabios.rs\<close>) and the builders of the root tables (\<open>RSDTBuilder\<close> of \<open>acpi/rsdt.rs\<close>,
  \<open>RSDPBuilder\<close> of \<open>acpi/rsdp.rs\<close>), which put the tables into files of the firmware configuration device.
\<close>

section \<open>Commands\<close>

definition str_bytes :: "string \<Rightarrow> u8 list" where
  "str_bytes s = map of_char s"

definition ROMFILE_FILENAME_SIZE :: nat where "ROMFILE_FILENAME_SIZE = 56"

datatype AllocZone = High | Fseg

primrec alloc_zone_code :: "AllocZone \<Rightarrow> u8" where
  "alloc_zone_code High = 0x01"
| "alloc_zone_code Fseg = 0x02"

text \<open>\<open>AddPointer\<close> and \<open>WritePointer\<close> name the file to patch first, then the file pointed to.\<close>

datatype TableLoaderCommand =
    Allocate "u8 list" u32 AllocZone
  | AddPointer "u8 list" "u8 list" u32 u8
  | AddChecksum "u8 list" u32 u32 u32
  | WritePointer "u8 list" "u8 list" u32 u32 u8

definition command_bytes :: "TableLoaderCommand \<Rightarrow> u8 list res" where
  "command_bytes cmd =
    (let bytes = replicate 128 0; short = (\<lambda>name :: u8 list. length name < ROMFILE_FILENAME_SIZE) in
     case cmd of
       Allocate file align zone \<Rightarrow>
         if \<not> short file then Err NotSupported
         else Ok ((splice 60 (le_bytes 4 align) (splice 4 file (splice 0 (le_bytes 4 (1 :: u32)) bytes)))[64 := alloc_zone_code zone])
     | AddPointer dst src offset sz \<Rightarrow>
         if \<not> short src \<or> \<not> short dst then Err NotSupported
         else Ok ((splice 116 (le_bytes 4 offset) (splice 60 src (splice 4 dst (splice 0 (le_bytes 4 (2 :: u32)) bytes))))[120 := sz])
     | AddChecksum file offset first len \<Rightarrow>
         if \<not> short file then Err NotSupported
         else Ok (splice 68 (le_bytes 4 len) (splice 64 (le_bytes 4 first) (splice 60 (le_bytes 4 offset)
           (splice 4 file (splice 0 (le_bytes 4 (3 :: u32)) bytes)))))
     | WritePointer dst src dst_offset src_offset sz \<Rightarrow>
         if \<not> short src \<or> \<not> short dst then Err NotSupported
         else Ok ((splice 120 (le_bytes 4 src_offset) (splice 116 (le_bytes 4 dst_offset) (splice 60 src (splice 4 dst
           (splice 0 (le_bytes 4 (4 :: u32)) bytes)))))[124 := sz]))"

text \<open>The commands so far, in an array with room for 2048 bytes.\<close>

definition TABLE_LOADER_SIZE :: nat where "TABLE_LOADER_SIZE = 2048"

definition add_command :: "TableLoaderCommand \<Rightarrow> (u8 list, unit, Error) action" where
  "add_command cmd buffer =
    bind_state (lift_state (and_then (command_bytes cmd) (try_extend TABLE_LOADER_SIZE buffer))) (\<lambda>buffer _. (Ok (), buffer)) buffer"

definition loader_name :: "u8 list" where "loader_name = str_bytes ''etc/table-loader''"

section \<open>The root tables\<close>

text \<open>\<open>str::from_utf8\<close>\<close>

definition utf8_tail :: "u8 \<Rightarrow> bool" where
  "utf8_tail b \<longleftrightarrow> 0x80 \<le> b \<and> b \<le> 0xbf"

fun utf8 :: "u8 list \<Rightarrow> bool" where
  "utf8 [] \<longleftrightarrow> True"
| "utf8 (a # bs) \<longleftrightarrow>
    (if a \<le> 0x7f then utf8 bs
     else case bs of
       [] \<Rightarrow> False
     | b # cs \<Rightarrow>
         if 0xc2 \<le> a \<and> a \<le> 0xdf then utf8_tail b \<and> utf8 cs
         else case cs of
           [] \<Rightarrow> False
         | c # ds \<Rightarrow>
             if 0xe0 \<le> a \<and> a \<le> 0xef then
               (if a = 0xe0 then 0xa0 \<le> b else 0x80 \<le> b) \<and> (if a = 0xed then b \<le> 0x9f else b \<le> 0xbf) \<and>
               utf8_tail c \<and> utf8 ds
             else case ds of
               [] \<Rightarrow> False
             | d # es \<Rightarrow>
                 0xf0 \<le> a \<and> a \<le> 0xf4 \<and> (if a = 0xf0 then 0x90 \<le> b else 0x80 \<le> b) \<and>
                 (if a = 0xf4 then b \<le> 0x8f else b \<le> 0xbf) \<and> utf8_tail c \<and> utf8_tail d \<and> utf8 es)"

text \<open>The tables by signature, each with the buffer it was encoded into and its length.\<close>

type_synonym RSDTBuilder = "(u8 list, u8 list \<times> nat) RBT.rbt"

definition add_sdt ::
  "u8 list \<Rightarrow> u8 \<Rightarrow> u32 \<Rightarrow> (u8 list \<Rightarrow> u8 list res) \<Rightarrow> nat \<Rightarrow> RSDTBuilder \<Rightarrow> RSDTBuilder res" where
  "add_sdt signature revision creator_revision encode_table cap sdts =
    and_then (encode_sdt signature revision creator_revision encode_table cap []) (\<lambda>(buffer, n).
      if RBT.lookup sdts signature = None then Ok (RBT.insert signature (buffer, n) sdts)
      else if utf8 signature then Err InvalidValue else Panic)"

definition rsdp_name :: "u8 list" where "rsdp_name = str_bytes ''etc/mythril/rsdp''"
definition xsdt_name :: "u8 list" where "xsdt_name = str_bytes ''etc/mythril/xsdt''"
definition table_name :: "u8 list \<Rightarrow> u8 list" where "table_name signature = str_bytes ''etc/mythril/'' @ signature"

definition XSDT_SIGNATURE :: "u8 list" where "XSDT_SIGNATURE = str_bytes ''XSDT''"

text \<open>The body of the loop of \<open>RSDTBuilder::build\<close>.\<close>

definition build_entry :: "nat \<times> u8 list \<times> u8 list \<times> nat \<Rightarrow> (QemuFwCfgBuilder \<times> u8 list, unit, Error) action" where
  "build_entry = (\<lambda>(i, signature, sdt, n).
    bind_state (lift_state (if utf8 signature then Ok (table_name signature) else Err InvalidValue)) (\<lambda>name.
    bind_state (on_snd (add_command (Allocate name 8 Fseg))) (\<lambda>_.
    bind_state (on_snd (add_command (AddPointer xsdt_name name (of_nat (i * 8 + SDT_HEADER)) 8))) (\<lambda>_.
    bind_state (lift_state (slice_range sdt 0 n)) (\<lambda>data.
    on_fst (add_file name data))))))"

definition rsdt_build :: "RSDTBuilder \<Rightarrow> (QemuFwCfgBuilder \<times> u8 list, unit, Error) action" where
  "rsdt_build sdts =
    (let xsdt_table_length = length (RBT.entries sdts) * 8; xsdt_length = xsdt_table_length + SDT_HEADER in
     bind_state (lift_state (write_sdt_header XSDT_SIGNATURE 0 0 xsdt_length (replicate 4096 0))) (\<lambda>xsdt.
     bind_state (lift_state (slice_range xsdt 0 xsdt_length)) (\<lambda>xsdt.
     bind_state (on_fst (add_file xsdt_name xsdt)) (\<lambda>_.
     bind_state (on_snd (add_command (Allocate xsdt_name 8 Fseg))) (\<lambda>_.
     bind_state (on_snd (add_command (AddPointer rsdp_name xsdt_name 24 8))) (\<lambda>_.
     bind_state (for_each build_entry (List.enumerate 0 (RBT.entries sdts))) (\<lambda>_.
     on_snd (add_command (AddChecksum xsdt_name 9 (of_nat SDT_HEADER) (of_nat xsdt_table_length))))))))))"

definition rsdp_buffer :: "u8 list" where
  "rsdp_buffer =
    (let buffer = (splice 0 RSDP_SIGNATURE (replicate RSDP_V2_SIZE 0))[15 := 2];
         buffer = splice 20 (le_bytes 4 (of_nat RSDP_V2_SIZE :: u32)) buffer;
         buffer = splice 24 (le_bytes 8 (0 :: u64)) buffer;
         buffer = splice 16 (le_bytes 4 (0 :: u32)) buffer;
         buffer = buffer[8 := calc_checksum (slice 0 RSDP_V1_SIZE buffer)]
     in buffer[32 := calc_checksum (slice 0 RSDP_V2_SIZE buffer)])"

definition rsdp_build :: "RSDTBuilder \<Rightarrow> (QemuFwCfgBuilder, unit, Error) action" where
  "rsdp_build sdts b =
    (case
       bind_state (on_fst (add_file rsdp_name rsdp_buffer)) (\<lambda>_.
       bind_state (on_snd (add_command (Allocate rsdp_name 0x10 Fseg))) (\<lambda>_.
       bind_state (rsdt_build sdts) (\<lambda>_.
       bind_state (on_snd (add_command (AddChecksum rsdp_name 32 24 8))) (\<lambda>_.
       (\<lambda>(b, loader). case add_file loader_name loader b of (r, b') \<Rightarrow> (r, b', loader)))))) (b, [])
     of (r, b', _) \<Rightarrow> (r, b'))"

section \<open>What is put into the firmware configuration\<close>

abbreviation encoding :: "TableLoaderCommand \<Rightarrow> u8 list" where
  "encoding cmd \<equiv> (case command_bytes cmd of Ok bytes \<Rightarrow> bytes | _ \<Rightarrow> [])"

lemma add_command_Ok:
  "add_command cmd buffer = (Ok u, buffer') \<Longrightarrow> (\<exists>bytes. command_bytes cmd = Ok bytes) \<and> buffer' = buffer @ encoding cmd"
  by (auto simp: add_command_def bind_state_def lift_state_def try_extend_def and_then_Ok_iff split: outcome.splits if_splits)

text \<open>The files and the commands an unfinished build has added.\<close>

definition has_built ::
  "(u8 list \<times> u8 list) list \<Rightarrow> TableLoaderCommand list \<Rightarrow> QemuFwCfgBuilder \<times> u8 list \<Rightarrow> bool" where
  "has_built fs cmds s \<longleftrightarrow> holds_files fs (fst s) \<and> snd s = concat (map encoding cmds) \<and>
    (\<forall>cmd \<in> set cmds. \<exists>bytes. command_bytes cmd = Ok bytes)"

lemma has_built_file:
  "has_built fs cmds s \<Longrightarrow> on_fst (add_file name data) s = (Ok u, s') \<Longrightarrow> has_built (fs @ [(name, data)]) cmds s'"
  by (cases s) (auto simp: has_built_def on_fst_def intro: add_file_holds split: prod.splits)

lemma has_built_command:
  "has_built fs cmds s \<Longrightarrow> on_snd (add_command cmd) s = (Ok u, s') \<Longrightarrow> has_built fs (cmds @ [cmd]) s'"
  by (cases s) (auto simp: has_built_def on_snd_def dest!: add_command_Ok split: prod.splits)

definition table_file :: "u8 list \<times> u8 list \<times> nat \<Rightarrow> u8 list \<times> u8 list" where
  "table_file = (\<lambda>(signature, sdt, n). (table_name signature, take n sdt))"

definition table_commands :: "nat \<times> u8 list \<times> u8 list \<times> nat \<Rightarrow> TableLoaderCommand list" where
  "table_commands = (\<lambda>(i, signature, _).
    [Allocate (table_name signature) 8 Fseg, AddPointer xsdt_name (table_name signature) (of_nat (i * 8 + SDT_HEADER)) 8])"

lemma has_built_entry:
  assumes "has_built fs cmds s" "build_entry e s = (Ok u, s')"
  shows "has_built (fs @ [table_file (snd e)]) (cmds @ table_commands e) s'"
proof -
  obtain i signature sdt n where e: "e = (i, signature, sdt, n)" by (cases e)
  let ?a = "Allocate (table_name signature) 8 Fseg"
  let ?p = "AddPointer xsdt_name (table_name signature) (of_nat (i * 8 + SDT_HEADER)) 8"
  obtain t1 t2 where t: "on_snd (add_command ?a) s = (Ok (), t1)" "on_snd (add_command ?p) t1 = (Ok (), t2)"
    "on_fst (add_file (table_name signature) (take n sdt)) t2 = (Ok u, s')"
    using assms(2) by (auto simp: e build_entry_def bind_lift bind_state_Ok_iff slice_range_def slice_def split: if_splits)
  show ?thesis
    using has_built_file [OF has_built_command [OF has_built_command [OF assms(1) t(1)] t(2)] t(3)]
    by (simp add: e table_file_def table_commands_def)
qed

lemma has_built_entries:
  assumes "has_built fs cmds s" "for_each build_entry (List.enumerate k es) s = (Ok u, s')"
  shows "has_built (fs @ map table_file es) (cmds @ concat (map table_commands (List.enumerate k es))) s'"
  using assms
proof (induction es arbitrary: k fs cmds s)
  case (Cons e es)
  then obtain t where t: "build_entry (k, e) s = (Ok (), t)" "for_each build_entry (List.enumerate (Suc k) es) t = (Ok u, s')"
    by (auto simp: bind_state_Ok_iff)
  show ?case using Cons(1) [OF has_built_entry [OF Cons(2) t(1)] t(2)] by simp
qed (auto simp: return_state_def)

text \<open>The root table before the firmware puts the addresses of \<open>n\<close> tables into it.\<close>

definition empty_xsdt :: "nat \<Rightarrow> u8 list" where
  "empty_xsdt n = (let len = n * 8 + SDT_HEADER in
    sdt_bytes XSDT_SIGNATURE len 0 (calc_checksum (sdt_bytes XSDT_SIGNATURE len 0 0 0 (replicate (4096 - SDT_HEADER) 0))) 0
      (replicate (n * 8) 0))"

definition xsdt_commands :: "(u8 list \<times> u8 list \<times> nat) list \<Rightarrow> TableLoaderCommand list" where
  "xsdt_commands es =
    [Allocate xsdt_name 8 Fseg, AddPointer rsdp_name xsdt_name 24 8] @ concat (map table_commands (List.enumerate 0 es)) @
    [AddChecksum xsdt_name 9 (of_nat SDT_HEADER) (of_nat (length es * 8))]"

definition boot_commands :: "(u8 list \<times> u8 list \<times> nat) list \<Rightarrow> TableLoaderCommand list" where
  "boot_commands es = Allocate rsdp_name 0x10 Fseg # xsdt_commands es @ [AddChecksum rsdp_name 32 24 8]"

definition boot_files :: "(u8 list \<times> u8 list \<times> nat) list \<Rightarrow> (u8 list \<times> u8 list) list" where
  "boot_files es = [(rsdp_name, rsdp_buffer), (xsdt_name, empty_xsdt (length es))] @ map table_file es @
    [(loader_name, concat (map encoding (boot_commands es)))]"

lemma take_sdt_bytes:
  assumes "length signature = 4"
  shows "take (k + SDT_HEADER) (sdt_bytes signature n revision c crev body) = sdt_bytes signature n revision c crev (take k body)"
proof -
  have split: "sdt_bytes signature n revision c crev x =
      (signature @ le_bytes 4 (of_nat n :: u32) @ [revision, c] @ replicate 22 0 @ le_bytes 4 crev) @ x" for x
    by (simp add: sdt_bytes_def)
  show ?thesis unfolding split take_append using assms by (simp add: SDT_HEADER_def)
qed

lemma lift_state_Ok: "lift_state r s = (Ok x, s') \<longleftrightarrow> r = Ok x \<and> s' = s"
  by (auto simp: lift_state_def)

lemma xsdt_image:
  assumes "write_sdt_header XSDT_SIGNATURE 0 0 (n * 8 + SDT_HEADER) (replicate 4096 0) = Ok x"
    and "slice_range x 0 (n * 8 + SDT_HEADER) = Ok y"
  shows "n \<le> 507 \<and> y = empty_xsdt n"
proof -
  have sig: "length XSDT_SIGNATURE = 4" by (simp add: XSDT_SIGNATURE_def str_bytes_def)
  have n: "n \<le> 507" using assms(1) by (simp add: write_sdt_header_def SDT_HEADER_def split: if_splits)
  have "replicate 4096 (0 :: u8) = replicate SDT_HEADER 0 @ replicate (4096 - SDT_HEADER) 0"
    by (simp add: SDT_HEADER_def flip: replicate_add)
  with assms(1) write_sdt_header_eq [OF sig, of "n * 8 + SDT_HEADER" "replicate (4096 - SDT_HEADER) 0" 0 0] n
  have "x = sdt_bytes XSDT_SIGNATURE (n * 8 + SDT_HEADER) 0
      (calc_checksum (sdt_bytes XSDT_SIGNATURE (n * 8 + SDT_HEADER) 0 0 0 (replicate (4096 - SDT_HEADER) 0))) 0
      (replicate (4096 - SDT_HEADER) 0)"
    by (simp add: SDT_HEADER_def)
  moreover have "n * 8 \<le> 4096 - SDT_HEADER" using n by (simp add: SDT_HEADER_def)
  ultimately show ?thesis
    using assms(2) n sig
    by (auto simp: empty_xsdt_def Let_def slice_range_def slice_def take_sdt_bytes min_def split: if_splits)
qed

lemma rsdt_build_Ok:
  assumes "has_built fs cmds s" "rsdt_build sdts s = (Ok u, s')"
  shows "length (RBT.entries sdts) \<le> 507 \<and>
    has_built (fs @ (xsdt_name, empty_xsdt (length (RBT.entries sdts))) # map table_file (RBT.entries sdts))
      (cmds @ xsdt_commands (RBT.entries sdts)) s'"
proof -
  let ?es = "RBT.entries sdts"
  obtain x y t1 t2 t3 t4 u1 u2 u3 u4 where x: "write_sdt_header XSDT_SIGNATURE 0 0 (length ?es * 8 + SDT_HEADER) (replicate 4096 0) = Ok x"
      "(slice_range x 0 (length ?es * 8 + SDT_HEADER) :: u8 list res) = Ok y"
    and t: "on_fst (add_file xsdt_name y) s = (Ok u1, t1)" "on_snd (add_command (Allocate xsdt_name 8 Fseg)) t1 = (Ok u2, t2)"
      "on_snd (add_command (AddPointer rsdp_name xsdt_name 24 8)) t2 = (Ok u3, t3)"
      "for_each build_entry (List.enumerate 0 ?es) t3 = (Ok u4, t4)"
      "on_snd (add_command (AddChecksum xsdt_name 9 (of_nat SDT_HEADER) (of_nat (length ?es * 8)))) t4 = (Ok u, s')"
    using assms(2) unfolding rsdt_build_def Let_def bind_state_Ok_iff lift_state_Ok by blast
  note built = has_built_command [OF has_built_entries [OF has_built_command [OF has_built_command
    [OF has_built_file [OF assms(1) t(1)] t(2)] t(3)] t(4)] t(5)]
  show ?thesis using built xsdt_image [OF x] by (simp add: xsdt_commands_def)
qed

lemma rsdp_build_Ok:
  assumes "holds_files fs b" "rsdp_build sdts b = (Ok u, b')"
  shows "length (RBT.entries sdts) \<le> 507 \<and> holds_files (fs @ boot_files (RBT.entries sdts)) b' \<and>
    (\<forall>cmd \<in> set (boot_commands (RBT.entries sdts)). \<exists>bytes. command_bytes cmd = Ok bytes)"
proof -
  have start: "has_built fs [] (b, [])" using assms(1) by (simp add: has_built_def)
  obtain l where "bind_state (on_fst (add_file rsdp_name rsdp_buffer)) (\<lambda>_.
       bind_state (on_snd (add_command (Allocate rsdp_name 0x10 Fseg))) (\<lambda>_.
       bind_state (rsdt_build sdts) (\<lambda>_.
       bind_state (on_snd (add_command (AddChecksum rsdp_name 32 24 8))) (\<lambda>_.
       (\<lambda>(b, loader). case add_file loader_name loader b of (r, b') \<Rightarrow> (r, b', loader)))))) (b, []) = (Ok u, b', l)"
    using assms(2) unfolding rsdp_build_def by (auto split: prod.splits)
  then obtain t1 t2 t3 t4 u1 u2 u3 u4 where t: "on_fst (add_file rsdp_name rsdp_buffer) (b, []) = (Ok u1, t1)"
      "on_snd (add_command (Allocate rsdp_name 0x10 Fseg)) t1 = (Ok u2, t2)" "rsdt_build sdts t2 = (Ok u3, t3)"
      "on_snd (add_command (AddChecksum rsdp_name 32 24 8)) t3 = (Ok u4, t4)"
      "(\<lambda>(b, loader). case add_file loader_name loader b of (r, b') \<Rightarrow> (r, b', loader)) t4 = (Ok u, b', l)"
    unfolding bind_state_Ok_iff by blast
  have added: "add_file loader_name (snd t4) (fst t4) = (Ok (), b')" using t(5) by (auto split: prod.splits)
  note built = rsdt_build_Ok [OF has_built_command [OF has_built_file [OF start t(1)] t(2)] t(3)]
  have "has_built (fs @ [(rsdp_name, rsdp_buffer), (xsdt_name, empty_xsdt (length (RBT.entries sdts)))] @
      map table_file (RBT.entries sdts)) (boot_commands (RBT.entries sdts)) t4"
    using has_built_command [OF conjunct2 [OF built] t(4)] by (simp add: boot_commands_def)
  then have all: "holds_files (fs @ [(rsdp_name, rsdp_buffer), (xsdt_name, empty_xsdt (length (RBT.entries sdts)))] @
      map table_file (RBT.entries sdts)) (fst t4)" "snd t4 = concat (map encoding (boot_commands (RBT.entries sdts)))"
    "\<forall>cmd \<in> set (boot_commands (RBT.entries sdts)). \<exists>bytes. command_bytes cmd = Ok bytes"
    by (simp_all add: has_built_def)
  show ?thesis using add_file_holds [OF all(1) added] all(2,3) conjunct1 [OF built] by (simp add: boot_files_def)
qed

section \<open>What the firmware makes of it\<close>

text \<open>
  The firmware is not part of the sources; \<open>acpi/seabios.rs\<close> documents what it does with a command.
  \<open>fw\<close> runs a command on the tables placed so far, by file name. A file is placed once, at the address
  \<open>place\<close> gives; a pointer can be added, and a checksum updated, in a table that has been placed.
\<close>

definition table_loader_ok ::
  "(u8 list \<Rightarrow> u64) \<Rightarrow> (u8 list \<rightharpoonup> u8 list) \<Rightarrow>
    (TableLoaderCommand \<Rightarrow> (u8 list \<rightharpoonup> u8 list) \<Rightarrow> u8 list \<rightharpoonup> u8 list) \<Rightarrow> bool" where
  "table_loader_ok place files fw \<longleftrightarrow>
    (\<forall>m f align zone data. m f = None \<longrightarrow> files f = Some data \<longrightarrow> fw (Allocate f align zone) m = m(f \<mapsto> data)) \<and>
    (\<forall>m dst src offset data. m dst = Some data \<longrightarrow> m src \<noteq> None \<longrightarrow> unat offset + 8 \<le> length data \<longrightarrow>
      fw (AddPointer dst src offset 8) m =
        m(dst \<mapsto> splice (unat offset) (le_bytes 8 (from_le_bytes (slice (unat offset) (unat offset + 8) data) + place src)) data)) \<and>
    (\<forall>m f offset first len data. m f = Some data \<longrightarrow> unat offset < length data \<longrightarrow> unat first + unat len \<le> length data \<longrightarrow>
      fw (AddChecksum f offset first len) m =
        m(f \<mapsto> data[unat offset := data ! unat offset + calc_checksum (slice (unat first) (unat first + unat len) data)]))"

lemma table_loader_okD:
  assumes "table_loader_ok place files fw"
  shows "m f = None \<Longrightarrow> files f = Some data \<Longrightarrow> fw (Allocate f align zone) m = m(f \<mapsto> data)"
    and "m dst = Some data \<Longrightarrow> m src \<noteq> None \<Longrightarrow> unat offset + 8 \<le> length data \<Longrightarrow>
      fw (AddPointer dst src offset 8) m =
        m(dst \<mapsto> splice (unat offset) (le_bytes 8 (from_le_bytes (slice (unat offset) (unat offset + 8) data) + place src)) data)"
    and "m f = Some data \<Longrightarrow> unat offset < length data \<Longrightarrow> unat first + unat len \<le> length data \<Longrightarrow>
      fw (AddChecksum f offset first len) m =
        m(f \<mapsto> data[unat offset := data ! unat offset + calc_checksum (slice (unat first) (unat first + unat len) data)])"
  using assms by (simp_all only: table_loader_ok_def simp_thms not_False_eq_True)

lemma from_le_bytes_replicate: "from_le_bytes (replicate n 0) = 0"
  by (induction n) simp_all

text \<open>A pointer is added to eight bytes that are 0.\<close>

lemma splice_pointer:
  assumes "length x = k" "i = k"
  shows "splice i (le_bytes 8 (from_le_bytes (slice i (i + 8) (x @ replicate 8 0 @ y)) + p)) (x @ replicate 8 0 @ y) =
    x @ le_bytes 8 (p :: u64) @ y"
  using assms by (simp add: splice_def slice_def from_le_bytes_replicate del: replicate_Suc)

lemma table_names:
  "table_name s = table_name t \<longleftrightarrow> s = t" "rsdp_name = table_name (str_bytes ''rsdp'')" "xsdt_name = table_name (str_bytes ''xsdt'')"
  "rsdp_name \<noteq> xsdt_name" "loader_name \<noteq> table_name s"
  by (simp_all add: table_name_def rsdp_name_def xsdt_name_def loader_name_def str_bytes_def)

lemma run_entries:
  assumes fw: "table_loader_ok place files fw"
    and "length x = SDT_HEADER + k * 8" "m xsdt_name = Some (x @ replicate (length es * 8) 0)" "k + length es \<le> 507"
    and "\<forall>e \<in> set es. files (table_name (fst e)) = Some (snd (table_file e)) \<and> m (table_name (fst e)) = None"
    and "distinct (map fst es)"
  shows "fold fw (concat (map table_commands (List.enumerate k es))) m =
    (m ++ map_of (map table_file es))(xsdt_name \<mapsto> x @ concat (map (\<lambda>e. le_bytes 8 (place (table_name (fst e)))) es))"
  using assms(2-)
proof (induction es arbitrary: k x m)
  case Nil
  then show ?case by (simp add: fun_upd_idem)
next
  case (Cons e es)
  obtain signature sdt n where e: "e = (signature, sdt, n)" by (cases e)
  let ?t = "table_name signature" and ?p = "le_bytes 8 (place (table_name signature))"
  let ?m = "m(?t \<mapsto> take n sdt, xsdt_name \<mapsto> (x @ ?p) @ replicate (length es * 8) 0)"
  have t: "m ?t = None" "files ?t = Some (take n sdt)" "?t \<noteq> xsdt_name"
    using Cons.prems(2,4) by (auto simp: e table_file_def)
  have off: "unat (of_nat (k * 8 + SDT_HEADER) :: u32) = SDT_HEADER + k * 8"
    using Cons.prems(3) by (simp only: unat_of_nat SDT_HEADER_def) simp
  have "fw (AddPointer xsdt_name ?t (of_nat (k * 8 + SDT_HEADER)) 8) (m(?t \<mapsto> take n sdt)) = ?m"
    using table_loader_okD(2) [OF fw, of "m(?t \<mapsto> take n sdt)" xsdt_name _ ?t "of_nat (k * 8 + SDT_HEADER)"]
      splice_pointer [OF Cons.prems(1) refl, of "replicate (length es * 8) 0" "place ?t"] Cons.prems(1,2) t(3)
    by (simp add: replicate_add off del: of_nat_add of_nat_mult)
  then have step: "fold fw (concat (map table_commands (List.enumerate k (e # es)))) m =
      fold fw (concat (map table_commands (List.enumerate (Suc k) es))) ?m"
    using table_loader_okD(1) [OF fw, of m ?t "take n sdt"] t(1,2) by (simp add: e table_commands_def)
  have run: "fold fw (concat (map table_commands (List.enumerate (Suc k) es))) ?m =
      (?m ++ map_of (map table_file es))(xsdt_name \<mapsto> (x @ ?p) @ concat (map (\<lambda>e. le_bytes 8 (place (table_name (fst e)))) es))"
    using Cons.prems by (intro Cons.IH) (force simp: e table_names)+
  have "map_of (map table_file es) ?t = None"
    using Cons.prems(5) by (force simp: map_of_eq_None_iff e table_file_def table_names)
  then have "(?m ++ map_of (map table_file es))(xsdt_name \<mapsto> y) = (m ++ map_of (map table_file (e # es)))(xsdt_name \<mapsto> y)" for y
    using t(3) by (auto simp: e table_file_def map_add_def fun_eq_iff split: option.splits)
  note moved = this
  show ?case unfolding step run moved by (simp only: append_assoc list.map concat.simps e fst_conv)
qed

definition rsdp_with :: "u64 \<Rightarrow> u8 \<Rightarrow> u8 list" where
  "rsdp_with p c = RSDP_SIGNATURE @ [223, 0, 0, 0, 0, 0, 0, 2, 0, 0, 0, 0, 36, 0, 0, 0] @ le_bytes 8 p @ [c, 0, 0, 0]"

lemma rsdp_buffer_with: "rsdp_buffer = rsdp_with 0 220"
  by code_simp

lemma byte_sum_simps [simp]:
  "byte_sum [] = 0" "byte_sum (b # bs) = unat b + byte_sum bs" "byte_sum (bs @ cs) = byte_sum bs + byte_sum cs"
  "byte_sum (replicate n 0) = 0"
  by (simp_all add: byte_sum_def sum_list_replicate)

text \<open>The address of the root table and the change of the checksum leave a valid root pointer.\<close>

lemma rsdp_with_valid: "rsdp_from_bytes (rsdp_with p (220 + calc_checksum (le_bytes 8 p))) = Ok (RSDP_V2 (replicate 6 0) p)"
proof -
  let ?c = "220 + calc_checksum (le_bytes 8 p)" and ?h = "RSDP_SIGNATURE @ [223, 0, 0, 0, 0, 0, 0, 2, 0, 0, 0, 0, 36, 0, 0, 0]"
  have len: "length RSDP_SIGNATURE = 8" by (simp add: RSDP_SIGNATURE_def)
  have parts: "slice 9 15 (rsdp_with p ?c) = replicate 6 0" "rsdp_with p ?c ! 15 = 2" "slice 24 32 (rsdp_with p ?c) = le_bytes 8 p"
    "slice 0 20 (rsdp_with p ?c) = take 20 ?h" "length (rsdp_with p ?c) = 36"
    by (simp_all add: rsdp_with_def slice_def RSDP_SIGNATURE_def numeral_eq_Suc)
  have "256 dvd byte_sum (take 20 ?h)" by code_simp
  moreover have "(of_nat (byte_sum (rsdp_with p ?c)) :: u8) = 0"
    by (simp add: rsdp_with_def calc_checksum_eq RSDP_SIGNATURE_def)
  then have "256 dvd byte_sum (rsdp_with p ?c)" by (simp add: word_of_nat_eq_0_iff)
  ultimately show ?thesis
    by (simp add: rsdp_from_bytes_def verify_rsdp_checksum_def slice_range_def index_at_def read_le_def parts
        RSDP_V1_SIZE_def RSDP_V2_SIZE_def verify_checksum_Ok [THEN iffD2] from_le_bytes_le_bytes take_bit_word_eq_self
        slice_def [of 0 36])
qed

text \<open>The root table with the addresses of the tables.\<close>

definition xsdt_with :: "u8 list \<Rightarrow> u8 \<Rightarrow> u8 list" where
  "xsdt_with ps c = sdt_bytes XSDT_SIGNATURE (SDT_HEADER + length ps) 0 c 0 ps"

lemma xsdt_with_valid:
  assumes "length ps = n * 8" "c = empty_xsdt n ! 9 + calc_checksum ps"
  shows "256 dvd byte_sum (xsdt_with ps c)"
proof -
  have sum: "byte_sum (sdt_bytes XSDT_SIGNATURE len 0 d 0 body) = byte_sum (sdt_bytes XSDT_SIGNATURE len 0 0 0 []) + unat d + byte_sum body"
    for len d body by (simp add: sdt_bytes_def)
  have "empty_xsdt n ! 9 = calc_checksum (sdt_bytes XSDT_SIGNATURE (SDT_HEADER + length ps) 0 0 0 (replicate (4096 - SDT_HEADER) 0))"
    using assms(1) sdt_bytes_store(2) [of XSDT_SIGNATURE]
    by (simp add: empty_xsdt_def Let_def add.commute XSDT_SIGNATURE_def str_bytes_def)
  then have "(of_nat (byte_sum (xsdt_with ps c)) :: u8) = 0"
    using assms(2) by (simp add: xsdt_with_def sum [of _ _ ps] sum [of _ _ "replicate _ _"] calc_checksum_eq)
  then show ?thesis by (simp add: word_of_nat_eq_0_iff)
qed

lemma le_bytes_0: "le_bytes n 0 = replicate n 0"
  by (induction n) simp_all

lemma rsdp_with_pointer:
  "splice 24 (le_bytes 8 (from_le_bytes (slice 24 32 (rsdp_with 0 c)) + p)) (rsdp_with 0 c) = rsdp_with p c"
  using splice_pointer [of "RSDP_SIGNATURE @ [223, 0, 0, 0, 0, 0, 0, 2, 0, 0, 0, 0, 36, 0, 0, 0]" 24 24 "[c, 0, 0, 0]" p]
  by (simp add: rsdp_with_def le_bytes_0 RSDP_SIGNATURE_def)

lemma rsdp_with_checksum:
  "length (rsdp_with p c) = 36" "rsdp_with p c ! 32 = c" "(rsdp_with p c)[32 := d] = rsdp_with p d" "slice 24 32 (rsdp_with p c) = le_bytes 8 p"
proof -
  have "rsdp_with p x = (RSDP_SIGNATURE @ [223, 0, 0, 0, 0, 0, 0, 2, 0, 0, 0, 0, 36, 0, 0, 0] @ le_bytes 8 p) @ x # [0, 0, 0]" for x
    by (simp add: rsdp_with_def)
  then show "length (rsdp_with p c) = 36" "rsdp_with p c ! 32 = c" "(rsdp_with p c)[32 := d] = rsdp_with p d"
    "slice 24 32 (rsdp_with p c) = le_bytes 8 p"
    by (simp_all add: nth_append list_update_append slice_def RSDP_SIGNATURE_def del: append_assoc)
qed

lemma xsdt_with_checksum:
  assumes "length ps = n * 8"
  shows "9 < length (xsdt_with ps c)" "xsdt_with ps c ! 9 = c" "(xsdt_with ps c)[9 := d] = xsdt_with ps d"
    "length (xsdt_with ps c) = SDT_HEADER + n * 8" "slice SDT_HEADER (SDT_HEADER + n * 8) (xsdt_with ps c) = ps"
proof -
  have sig: "length XSDT_SIGNATURE = 4" by (simp add: XSDT_SIGNATURE_def str_bytes_def)
  show "9 < length (xsdt_with ps c)" "xsdt_with ps c ! 9 = c" "(xsdt_with ps c)[9 := d] = xsdt_with ps d"
    "length (xsdt_with ps c) = SDT_HEADER + n * 8" "slice SDT_HEADER (SDT_HEADER + n * 8) (xsdt_with ps c) = ps"
    using assms sdt_bytes_store [OF sig] sig
    by (simp_all add: xsdt_with_def) (simp_all add: sdt_bytes_def slice_def SDT_HEADER_def)
qed

lemma run_commands:
  assumes fw: "table_loader_ok place files fw" and es: "length es \<le> 507" "distinct (map fst es)"
    and files: "\<forall>f \<in> set (boot_files es). files (fst f) = Some (snd f)"
    and names: "\<forall>e \<in> set es. fst e \<noteq> str_bytes ''rsdp'' \<and> fst e \<noteq> str_bytes ''xsdt''"
  defines "ps \<equiv> concat (map (\<lambda>e. le_bytes 8 (place (table_name (fst e)))) es)"
  shows "fold fw (boot_commands es) Map.empty = map_of (map table_file es)
    ++ [xsdt_name \<mapsto> xsdt_with ps (empty_xsdt (length es) ! 9 + calc_checksum ps),
        rsdp_name \<mapsto> rsdp_with (place xsdt_name) (220 + calc_checksum (le_bytes 8 (place xsdt_name)))]"
proof -
  let ?n = "length es" and ?p = "place xsdt_name" and ?c = "empty_xsdt (length es) ! 9" and ?t = "map_of (map table_file es)"
  let ?m1 = "[rsdp_name \<mapsto> rsdp_with ?p 220, xsdt_name \<mapsto> empty_xsdt ?n]"
  let ?h = "sdt_bytes XSDT_SIGNATURE (SDT_HEADER + length ps) 0 ?c 0 []"
  let ?m2 = "(?m1 ++ ?t)(xsdt_name \<mapsto> xsdt_with ps ?c)"
  have ps: "length ps = ?n * 8" by (simp add: ps_def length_concat comp_def sum_list_triv)
  have sig: "length XSDT_SIGNATURE = 4" by (simp add: XSDT_SIGNATURE_def str_bytes_def)
  have x: "empty_xsdt ?n = ?h @ replicate (?n * 8) 0"
    using ps by (simp add: empty_xsdt_def Let_def sdt_bytes_def nth_append sig add.commute)
  have 1: "fw (Allocate rsdp_name 0x10 Fseg) Map.empty = [rsdp_name \<mapsto> rsdp_buffer]"
    "fw (Allocate xsdt_name 8 Fseg) [rsdp_name \<mapsto> rsdp_buffer] = [rsdp_name \<mapsto> rsdp_buffer, xsdt_name \<mapsto> empty_xsdt ?n]"
    using files table_names(4) by (auto intro!: table_loader_okD(1) [OF fw] simp: boot_files_def)
  have 2: "fw (AddPointer rsdp_name xsdt_name 24 8) [rsdp_name \<mapsto> rsdp_buffer, xsdt_name \<mapsto> empty_xsdt ?n] = ?m1"
    using table_loader_okD(2) [OF fw, of "[rsdp_name \<mapsto> rsdp_buffer, xsdt_name \<mapsto> empty_xsdt ?n]" rsdp_name rsdp_buffer xsdt_name 24]
    by (simp add: table_names(4) fun_upd_twist rsdp_buffer_with rsdp_with_pointer rsdp_with_checksum(1))
  have 3: "fold fw (concat (map table_commands (List.enumerate 0 es))) ?m1 = ?m2"
  proof -
    have "\<forall>e \<in> set es. files (table_name (fst e)) = Some (snd (table_file e)) \<and> ?m1 (table_name (fst e)) = None"
      using files names by (fastforce simp: boot_files_def table_names table_file_def)
    then show ?thesis
      using run_entries [OF fw, of ?h 0 ?m1 es] es x sig
      by (simp add: xsdt_with_def ps_def sdt_bytes_def SDT_HEADER_def)
  qed
  have 4: "fw (AddChecksum xsdt_name 9 (of_nat SDT_HEADER) (of_nat (?n * 8))) ?m2 = (?m1 ++ ?t)(xsdt_name \<mapsto> xsdt_with ps (?c + calc_checksum ps))"
  proof -
    have "unat (of_nat SDT_HEADER :: u32) = SDT_HEADER" "unat (of_nat (?n * 8) :: u32) = ?n * 8"
      using es(1) by (simp_all only: unat_of_nat SDT_HEADER_def) simp_all
    then show ?thesis
      using table_loader_okD(3) [OF fw, of ?m2 xsdt_name "xsdt_with ps ?c" 9 "of_nat SDT_HEADER" "of_nat (?n * 8)"] xsdt_with_checksum [OF ps]
      by (simp del: of_nat_mult)
  qed
  have none: "?t rsdp_name = None" "?t xsdt_name = None"
    using names by (auto simp: map_of_eq_None_iff table_file_def table_names)
  let ?m3 = "(?m1 ++ ?t)(xsdt_name \<mapsto> xsdt_with ps (?c + calc_checksum ps))"
  have "fw (AddChecksum rsdp_name 32 24 8) ?m3 = ?m3(rsdp_name \<mapsto> rsdp_with ?p (220 + calc_checksum (le_bytes 8 ?p)))"
    using table_loader_okD(3) [OF fw, of ?m3 rsdp_name "rsdp_with ?p 220" 32 24 8] none table_names(4)
    by (simp add: map_add_def rsdp_with_checksum)
  moreover have "?m3(rsdp_name \<mapsto> y) = ?t ++ [xsdt_name \<mapsto> xsdt_with ps (?c + calc_checksum ps), rsdp_name \<mapsto> y]" for y
    using none table_names(4) by (auto simp: fun_eq_iff map_add_def split: option.splits)
  ultimately show ?thesis unfolding boot_commands_def xsdt_commands_def by (simp add: 1 2 3 4 del: of_nat_mult)
qed

section \<open>The build succeeds\<close>

lemma length_command_bytes: "command_bytes cmd = Ok bytes \<Longrightarrow> length bytes = 128"
  by (cases cmd) (auto simp: command_bytes_def Let_def ROMFILE_FILENAME_SIZE_def split: if_splits)

text \<open>Room for 16 commands, and for all the files of a guest.\<close>

lemma command_fits:
  assumes "has_built fs cmds s" "length cmds < 16" "command_bytes cmd = Ok bytes"
  shows "\<exists>s'. on_snd (add_command cmd) s = (Ok (), s')"
proof -
  have "length (concat (map encoding cmds)) = 128 * length cmds" if "\<forall>cmd \<in> set cmds. \<exists>bytes. command_bytes cmd = Ok bytes"
    using that by (induction cmds) (auto simp: length_command_bytes)
  then have "length (snd s) = 128 * length cmds" using assms(1) by (simp add: has_built_def)
  then show ?thesis
    using assms(2) length_command_bytes [OF assms(3)]
    by (cases s) (simp add: on_snd_def add_command_def bind_state_def lift_state_def try_extend_def TABLE_LOADER_SIZE_def assms(3))
qed

lemma file_fits:
  assumes "has_built fs cmds s" "length fs < 0x7fe0" "length name \<le> FW_CFG_MAX_FILE_NAME"
  shows "\<exists>s'. on_fst (add_file name data) s = (Ok (), s')"
proof -
  have "holds_files fs (fst s)" using assms(1) by (simp add: has_built_def)
  from add_file_room [OF this assms(3,2), of data] show ?thesis by (cases s) (auto simp: on_fst_def)
qed

fun table_ok :: "u8 list \<times> u8 list \<times> nat \<Rightarrow> bool" where
  "table_ok (signature, sdt, n) \<longleftrightarrow>
    length signature = 4 \<and> utf8 signature \<and> n \<le> length sdt \<and> signature \<noteq> str_bytes ''rsdp'' \<and> signature \<noteq> str_bytes ''xsdt''"

lemma entry_fits:
  assumes "has_built fs cmds s" "table_ok e" "length cmds + 2 \<le> 16" "length fs < 0x7fe0"
  shows "\<exists>s'. build_entry (i, e) s = (Ok (), s')"
proof -
  obtain signature sdt n where e: "e = (signature, sdt, n)" by (cases e)
  let ?t = "table_name signature"
  let ?a = "Allocate ?t 8 Fseg" and ?p = "AddPointer xsdt_name ?t (of_nat (i * 8 + SDT_HEADER)) 8"
  have len: "length ?t = 16" "length xsdt_name = 16" using assms(2) by (simp_all add: e table_name_def xsdt_name_def str_bytes_def)
  obtain x y where xy: "command_bytes ?a = Ok x" "command_bytes ?p = Ok y"
    using len by (simp add: command_bytes_def Let_def ROMFILE_FILENAME_SIZE_def)
  obtain s1 where s1: "on_snd (add_command ?a) s = (Ok (), s1)" using command_fits [OF assms(1) _ xy(1)] assms(3) by auto
  note b1 = has_built_command [OF assms(1) s1]
  obtain s2 where s2: "on_snd (add_command ?p) s1 = (Ok (), s2)" using command_fits [OF b1 _ xy(2)] assms(3) by auto
  obtain s3 where "on_fst (add_file ?t (take n sdt)) s2 = (Ok (), s3)"
    using file_fits [OF has_built_command [OF b1 s2] assms(4), of ?t "take n sdt"] len by (auto simp: FW_CFG_MAX_FILE_NAME_def)
  then show ?thesis
    using assms(2) s1 s2 by (simp add: e build_entry_def bind_lift bind_state_Ok slice_range_def slice_def)
qed

lemma entries_fit:
  assumes "has_built fs cmds s" "list_all table_ok es" "length cmds + 2 * length es \<le> 16" "length fs + length es \<le> 0x7fe0"
  shows "\<exists>s'. for_each build_entry (List.enumerate k es) s = (Ok (), s')"
  using assms
proof (induction es arbitrary: k fs cmds s)
  case (Cons e es)
  obtain t where t: "build_entry (k, e) s = (Ok (), t)" using entry_fits [OF Cons.prems(1), of e k] Cons.prems(2-) by auto
  have "length (table_commands (k, e)) = 2" by (simp add: table_commands_def split: prod.split)
  then show ?case
    using Cons.IH [OF has_built_entry [OF Cons.prems(1) t], of "Suc k"] Cons.prems(2-) by (simp add: bind_state_def t)
qed (simp add: return_state_def)

lemma table_commands_length:
  "length (concat (map table_commands (List.enumerate k es))) = 2 * length es"
  by (induction es arbitrary: k) (auto simp: table_commands_def)

lemma rsdt_build_fits:
  assumes "has_built fs cmds s" "list_all table_ok (RBT.entries sdts)" "length cmds + 2 * length (RBT.entries sdts) + 3 \<le> 16"
    and "length fs + length (RBT.entries sdts) < 0x7fe0"
  shows "\<exists>s'. rsdt_build sdts s = (Ok (), s')"
proof -
  let ?es = "RBT.entries sdts" and ?len = "length (RBT.entries sdts) * 8 + SDT_HEADER"
  let ?sum = "AddChecksum xsdt_name 9 (of_nat SDT_HEADER) (of_nat (length (RBT.entries sdts) * 8))"
  have sig: "length XSDT_SIGNATURE = 4" by (simp add: XSDT_SIGNATURE_def str_bytes_def)
  have n: "length ?es \<le> 6" using assms(3) by simp
  have "replicate 4096 (0 :: u8) = replicate SDT_HEADER 0 @ replicate (4096 - SDT_HEADER) 0"
    by (simp add: SDT_HEADER_def flip: replicate_add)
  with write_sdt_header_eq [OF sig, of ?len "replicate (4096 - SDT_HEADER) 0" 0 0] n
  obtain x where x: "write_sdt_header XSDT_SIGNATURE 0 0 ?len (replicate 4096 0) = Ok x" and "4096 \<le> length x"
    by (simp add: SDT_HEADER_def sdt_bytes_def sig)
  then have y: "slice_range x 0 ?len = (Ok (take ?len x) :: u8 list res)" using n by (simp add: slice_range_def slice_def SDT_HEADER_def)
  have names: "length xsdt_name = 16" "length rsdp_name = 16" by (simp_all add: xsdt_name_def rsdp_name_def str_bytes_def)
  obtain a b c where cmds: "command_bytes (Allocate xsdt_name 8 Fseg) = Ok a" "command_bytes (AddPointer rsdp_name xsdt_name 24 8) = Ok b"
    "command_bytes ?sum = Ok c"
    by (simp add: command_bytes_def Let_def ROMFILE_FILENAME_SIZE_def names)
  obtain s1 where s1: "on_fst (add_file xsdt_name (take ?len x)) s = (Ok (), s1)"
    using file_fits [OF assms(1), of xsdt_name "take ?len x"] assms(4) names by (auto simp: FW_CFG_MAX_FILE_NAME_def)
  note b1 = has_built_file [OF assms(1) s1]
  obtain s2 where s2: "on_snd (add_command (Allocate xsdt_name 8 Fseg)) s1 = (Ok (), s2)" using command_fits [OF b1 _ cmds(1)] assms(3) by auto
  note b2 = has_built_command [OF b1 s2]
  obtain s3 where s3: "on_snd (add_command (AddPointer rsdp_name xsdt_name 24 8)) s2 = (Ok (), s3)"
    using command_fits [OF b2 _ cmds(2)] assms(3) by auto
  note b3 = has_built_command [OF b2 s3]
  obtain s4 where s4: "for_each build_entry (List.enumerate 0 ?es) s3 = (Ok (), s4)"
    using entries_fit [OF b3 assms(2), of 0] assms(3,4) by auto
  obtain s5 where "on_snd (add_command ?sum) s4 = (Ok (), s5)"
    using command_fits [OF has_built_entries [OF b3 s4] _ cmds(3)] assms(3) by (auto simp: table_commands_length)
  then show ?thesis by (simp add: rsdt_build_def Let_def bind_lift x y bind_state_Ok s1 s2 s3 s4)
qed

lemma rsdp_build_fits:
  assumes "holds_files fs b" "list_all table_ok (RBT.entries sdts)" "length (RBT.entries sdts) \<le> 5" "length fs \<le> 0x7f00"
  shows "\<exists>b'. rsdp_build sdts b = (Ok (), b')"
proof -
  have b0: "has_built fs [] (b, [])" using assms(1) by (simp add: has_built_def)
  have names: "length rsdp_name = 16" "length loader_name = 16" by (simp_all add: loader_name_def rsdp_name_def str_bytes_def)
  obtain x y where cmds: "command_bytes (Allocate rsdp_name 0x10 Fseg) = Ok x" "command_bytes (AddChecksum rsdp_name 32 24 8) = Ok y"
    by (simp add: command_bytes_def Let_def ROMFILE_FILENAME_SIZE_def names)
  obtain s1 where s1: "on_fst (add_file rsdp_name rsdp_buffer) (b, [] :: u8 list) = (Ok (), s1)"
    using file_fits [OF b0, of rsdp_name rsdp_buffer] assms(4) names by (auto simp: FW_CFG_MAX_FILE_NAME_def)
  note b1 = has_built_file [OF b0 s1]
  obtain s2 where s2: "on_snd (add_command (Allocate rsdp_name 0x10 Fseg)) s1 = (Ok (), s2)" using command_fits [OF b1 _ cmds(1)] by auto
  note b2 = has_built_command [OF b1 s2]
  obtain s3 where s3: "rsdt_build sdts s2 = (Ok (), s3)" using rsdt_build_fits [OF b2 assms(2)] assms(3,4) by auto
  note b3 = conjunct2 [OF rsdt_build_Ok [OF b2 s3]]
  have "length ([] @ [Allocate rsdp_name 0x10 Fseg] @ xsdt_commands (RBT.entries sdts)) < 16"
    using assms(3) by (simp add: xsdt_commands_def table_commands_length)
  then obtain s4 where s4: "on_snd (add_command (AddChecksum rsdp_name 32 24 8)) s3 = (Ok (), s4)" using command_fits [OF b3 _ cmds(2)] by auto
  obtain c l where s4': "s4 = (c, l)" by (cases s4)
  have "holds_files (fs @ [(rsdp_name, rsdp_buffer)] @ (xsdt_name, empty_xsdt (length (RBT.entries sdts))) # map table_file (RBT.entries sdts)) c"
    using has_built_command [OF b3 s4] by (simp add: has_built_def s4')
  from add_file_room [OF this, of loader_name l] assms(3,4) names
  obtain b' where "add_file loader_name l c = (Ok (), b')" by (auto simp: FW_CFG_MAX_FILE_NAME_def)
  then show ?thesis by (simp add: rsdp_build_def bind_state_Ok s1 s2 s3 s4 s4')
qed


lemma pointers_addresses: "pointers 8 (concat (map (le_bytes 8) as)) 0 = (as :: u64 list)"
proof -
  have len: "length (concat (map (le_bytes 8) as)) = length as * 8" by (simp add: length_concat comp_def sum_list_triv)
  have "slice (k * 8) (k * 8 + 8) (concat (map (le_bytes 8) as)) = le_bytes 8 (as ! k)" if "k < length as" for k
    using that concat_blocks [of as "le_bytes 8" 8 k] by (simp add: slice_def mult.commute)
  then show ?thesis
    by (intro nth_equalityI) (simp_all add: pointers_def len from_le_bytes_le_bytes take_bit_word_eq_self)
qed

lemma commands_found:
  fixes place :: "u8 list \<Rightarrow> u64"
  assumes fw: "table_loader_ok place files fw" and es: "length es \<le> 507" "distinct (map fst es)" "list_all table_ok es"
    and files: "\<forall>f \<in> set (boot_files es). files (fst f) = Some (snd f)"
  defines "m \<equiv> fold fw (boot_commands es) Map.empty" and "ptr \<equiv> RSDP_V2 (replicate 6 0) (place xsdt_name)"
  shows "\<exists>rsdp. m rsdp_name = Some rsdp \<and> rsdp_from_bytes rsdp = Ok ptr"
    and "\<exists>xsdt. m xsdt_name = Some xsdt \<and> (\<forall>mem. phys_bytes mem (place xsdt_name) (length xsdt) = xsdt \<longrightarrow>
      (\<exists>rsdt. rsdp_rsdt mem ptr = Ok rsdt \<and> table_pointers rsdt = map (\<lambda>e. place (table_name (fst e))) es))"
    and "\<forall>(signature, sdt, n) \<in> set es. m (table_name signature) = Some (take n sdt)"
proof -
  define ps where "ps = concat (map (\<lambda>e. le_bytes 8 (place (table_name (fst e)))) es)"
  have names: "\<forall>e \<in> set es. fst e \<noteq> str_bytes ''rsdp'' \<and> fst e \<noteq> str_bytes ''xsdt''"
    using es(3) by (force simp: list_all_iff)
  note m = run_commands [OF fw es(1,2) files names, folded m_def ps_def]
  let ?c = "empty_xsdt (length es) ! 9 + calc_checksum ps"
  have len: "length ps = length es * 8" by (simp add: ps_def length_concat comp_def sum_list_triv)
  have sig: "length XSDT_SIGNATURE = 4" by (simp add: XSDT_SIGNATURE_def str_bytes_def)
  show "\<exists>rsdp. m rsdp_name = Some rsdp \<and> rsdp_from_bytes rsdp = Ok ptr"
    by (simp add: m ptr_def rsdp_with_valid)
  have "rsdp_rsdt mem ptr = Ok (XSDT \<lparr>sdt_signature = XSDT_SIGNATURE, sdt_length = of_nat (36 + length ps), sdt_revision = 0, sdt_table = ps\<rparr>)"
    if "phys_bytes mem (place xsdt_name) (length (xsdt_with ps ?c)) = xsdt_with ps ?c" for mem
  proof -
    have x: "xsdt_with ps ?c = sdt_bytes XSDT_SIGNATURE (36 + length ps) 0 ?c 0 ps" "length (xsdt_with ps ?c) = 36 + length ps"
      using xsdt_with_checksum(4) [OF len] len by (simp_all add: xsdt_with_def SDT_HEADER_def)
    have "sdt_new mem (place xsdt_name) =
        Ok \<lparr>sdt_signature = XSDT_SIGNATURE, sdt_length = of_nat (36 + length ps), sdt_revision = 0, sdt_table = ps\<rparr>"
      using that xsdt_with_valid [OF len refl] es(1) len unfolding x(2) unfolding x(1)
      by (intro sdt_new_bytes [OF sig]) simp_all
    then show ?thesis by (simp add: ptr_def new_xsdt_def)
  qed
  moreover have "pointers 8 ps 0 = map (\<lambda>e. place (table_name (fst e))) es"
    using pointers_addresses [of "map (\<lambda>e. place (table_name (fst e))) es"] by (simp add: ps_def comp_def)
  ultimately show "\<exists>xsdt. m xsdt_name = Some xsdt \<and> (\<forall>mem. phys_bytes mem (place xsdt_name) (length xsdt) = xsdt \<longrightarrow>
      (\<exists>rsdt. rsdp_rsdt mem ptr = Ok rsdt \<and> table_pointers rsdt = map (\<lambda>e. place (table_name (fst e))) es))"
    using table_names(4) by (auto simp: m)
  have "distinct (map fst (map table_file es))"
    using es(2) by (simp add: distinct_map inj_on_def table_file_def table_names split_beta)
  then have "map_of (map table_file es) (table_name signature) = Some (take n sdt)" if "(signature, sdt, n) \<in> set es" for signature sdt n
    using that by (intro map_of_is_SomeI) (auto simp: table_file_def image_iff intro!: bexI)
  moreover have "table_name signature \<noteq> rsdp_name \<and> table_name signature \<noteq> xsdt_name" if "(signature, sdt, n) \<in> set es" for signature sdt n
    using bspec [OF names that] by (simp add: table_names(1-3))
  ultimately show "\<forall>(signature, sdt, n) \<in> set es. m (table_name signature) = Some (take n sdt)"
    by (auto simp: m map_add_def)
qed

lemma boot_files_read:
  assumes "\<forall>f \<in> set fs. take 4 (fst f) \<noteq> str_bytes ''etc/''" "list_all table_ok es" "distinct (map fst es)"
  shows "\<forall>f \<in> set (boot_files es). map_of (fs @ boot_files es) (fst f) = Some (snd f)"
proof
  fix f assume f: "f \<in> set (boot_files es)"
  have "take 4 (fst f) = str_bytes ''etc/''"
    using f by (auto simp: boot_files_def table_file_def table_names(2,3) table_name_def loader_name_def str_bytes_def)
  with assms(1) have none: "map_of fs (fst f) = None" by (force simp: map_of_eq_None_iff)
  have "distinct (map fst (map table_file es))"
    using assms(3) by (simp add: distinct_map inj_on_def table_file_def table_names split_beta)
  moreover have taken: "table_name s \<in> fst ` table_file ` set es \<longleftrightarrow> s \<in> fst ` set es" "loader_name \<notin> fst ` table_file ` set es" for s
    using table_names(5) by (force simp: table_file_def table_names(1))+
  have "str_bytes ''rsdp'' \<notin> fst ` set es" "str_bytes ''xsdt'' \<notin> fst ` set es"
    using assms(2) by (auto simp: list_all_iff)
  then have "rsdp_name \<notin> fst ` table_file ` set es" "xsdt_name \<notin> fst ` table_file ` set es"
    unfolding table_names(2,3) taken(1) by blast+
  moreover have "rsdp_name \<noteq> xsdt_name" "rsdp_name \<noteq> loader_name" "xsdt_name \<noteq> loader_name"
    using table_names(4) table_names(5) [THEN not_sym] unfolding table_names(2,3) by blast+
  ultimately have "distinct (map fst (boot_files es))" using taken(2) by (simp add: boot_files_def image_image)
  then have "map_of (boot_files es) (fst f) = Some (snd f)" using f by (intro map_of_is_SomeI) simp_all
  with none show "map_of (fs @ boot_files es) (fst f) = Some (snd f)" by (simp add: map_add_def)
qed


lemma builder_new_holds: "holds_files [] builder_new"
  by (auto simp: word_le_nat_alt holds_files_def builder_new_def add_i32_def add_bytes_def FILE_FIRST_def FW_CFG_ID_def SIGNATURE_def
      split: if_splits)

fun run_command ::
  "(u8 list \<Rightarrow> u64) \<Rightarrow> (u8 list \<rightharpoonup> u8 list) \<Rightarrow> TableLoaderCommand \<Rightarrow> (u8 list \<rightharpoonup> u8 list) \<Rightarrow> u8 list \<rightharpoonup> u8 list" where
  "run_command place files (Allocate f align zone) m = m(f := files f)"
| "run_command place files (AddPointer dst src offset sz) m =
    m(dst := map_option (\<lambda>data. splice (unat offset)
      (le_bytes 8 (from_le_bytes (slice (unat offset) (unat offset + 8) data) + place src)) data) (m dst))"
| "run_command place files (AddChecksum f offset first len) m =
    m(f := map_option (\<lambda>data. data[unat offset := data ! unat offset +
      calc_checksum (slice (unat first) (unat first + unat len) data)]) (m f))"
| "run_command place files (WritePointer dst src dst_offset src_offset sz) m = m"

definition small_sdts :: RSDTBuilder where
  "small_sdts = RBT.insert MADT_SIGNATURE (replicate 1024 0, 44) RBT.empty"


end
