(* ===== verification/Linux_Boot.thy ===== *)
theory Linux_Boot
  imports Table_Loader
begin

unbundle bit_operations_syntax

text \<open>
  How a guest gets its kernel (\<open>linux.rs\<close>): the set-up header of a Linux image is filled in the way a boot
  loader does, and the parts of the image, the command line and the initial file system become items of the
  firmware configuration device; and how \<open>build_vm\<close> (\<open>kmain.rs\<close>) puts the configuration of a guest together.
\<close>

section \<open>Loading a kernel\<close>

definition HEADER_MAGIC_VALUE :: u32 where "HEADER_MAGIC_VALUE = 0x53726448"
definition OLD_CMD_LINE_MAGIC_VALUE :: u16 where "OLD_CMD_LINE_MAGIC_VALUE = 0xa33f"

text \<open>\<open>LittleEndian::read_*\<close> and \<open>write_*\<close> at an offset within an image of at least 8192 bytes.\<close>

definition field_at :: "nat \<Rightarrow> nat \<Rightarrow> u8 list \<Rightarrow> 'a::len word" where
  "field_at i n img = from_le_bytes (slice i (i + n) img)"

definition put_field :: "nat \<Rightarrow> nat \<Rightarrow> 'a::len word \<Rightarrow> u8 list \<Rightarrow> u8 list" where
  "put_field i n w img = splice i (le_bytes n w) img"

text \<open>\<open>(real_addr, cmdline_addr, prot_addr)\<close>; an \<open>i32\<close> is the word with the same bits.\<close>

definition boot_addresses :: "u16 \<Rightarrow> u8 \<Rightarrow> nat \<Rightarrow> u32 \<times> u32 \<times> u32" where
  "boot_addresses protocol load_flags cmdline_len =
    (if protocol < 0x200 \<or> load_flags AND 1 = 0 then (0x90000, 0x9a000 - of_nat cmdline_len, 0x10000)
     else if protocol < 0x202 then (0x90000, 0x9a000 - of_nat cmdline_len, 0x100000)
     else (0x10000, 0x20000, 0x100000))"

definition initrd_limit :: "u16 \<Rightarrow> u8 list \<Rightarrow> u64 \<Rightarrow> u32" where
  "initrd_limit protocol img mem =
    (let initrd_max =
       (if 0x20c \<le> protocol \<and> (field_at 0x236 2 img :: u16) AND 2 \<noteq> 0 then 0xffffffff
        else if 0x203 \<le> protocol then field_at 0x22c 4 img
        else 0x37ffffff)
     in if mem < 4 * 1024 \<and> push_bit 20 mem \<le> ucast initrd_max then ucast (push_bit 20 mem) - 1 else initrd_max)"

text \<open>The command line, the type of the loader and the heap in the header of the kernel.\<close>

definition loader_header :: "u16 \<Rightarrow> u32 \<Rightarrow> u32 \<Rightarrow> u8 list \<Rightarrow> u8 list" where
  "loader_header protocol cmdline_addr real_addr img =
    (let img =
       (if 0x202 \<le> protocol then put_field 0x228 4 cmdline_addr img
        else put_field 0x22 2 (ucast (cmdline_addr - real_addr) :: u16) (put_field 0x20 2 OLD_CMD_LINE_MAGIC_VALUE img));
         img = (if 0x200 \<le> protocol then img[0x210 := 0xb0] else img)
     in if 0x201 \<le> protocol
        then put_field 0x224 2 (ucast (cmdline_addr - real_addr - 0x200) :: u16) (img[0x211 := img ! 0x211 OR 0x80])
        else img)"

text \<open>The size of the set-up part; the number of its sectors is an \<open>u8\<close>, and 0 stands for 4.\<close>

definition setup_size :: "u8 list \<Rightarrow> nat" where
  "setup_size img = unat (if img ! 0x1f1 = 0 then 4 + 1 else img ! 0x1f1 + 1) * 512"

definition load_kernel :: "u8 list \<Rightarrow> u8 list \<Rightarrow> u8 list \<Rightarrow> u64 \<Rightarrow> (QemuFwCfgBuilder, unit, Error) action" where
  "load_kernel img initramfs cmdline mem b =
    (if length img < 8192 then (Err InvalidValue, b)
     else if field_at 0x202 4 img \<noteq> HEADER_MAGIC_VALUE then (Err InvalidValue, b)
     else
       let protocol = field_at 0x206 2 img;
           (real_addr, cmdline_addr, prot_addr) = boot_addresses protocol (img ! 0x211) (length cmdline);
           initrd_max = initrd_limit protocol img mem;
           b = add_i32 0x13 cmdline_addr b;
           b = add_bytes 0x15 cmdline b;
           b = add_i32 0x14 (of_nat (length cmdline)) b;
           img = loader_header protocol cmdline_addr real_addr img
       in if protocol < 0x200 then (Err InvalidValue, b)
          else if initrd_max < of_nat (length initramfs) then (Err InvalidValue, b)
          else
            let initrd_addr = (initrd_max - of_nat (length initramfs)) AND NOT 4095;
                b = add_i32 0x0a initrd_addr b;
                b = add_i32 0x0b (of_nat (length initramfs)) b;
                b = add_bytes 0x12 initramfs b;
                img = put_field 0x218 4 initrd_addr img;
                img = put_field 0x21c 4 (of_nat (length initramfs) :: u32) img;
                n = setup_size img
            in if length img < n then (Err InvalidValue, b)
               else
                 let b = add_i32 0x07 prot_addr b;
                     b = add_i32 0x08 (of_nat (length img) - of_nat n) b;
                     b = add_bytes 0x11 (drop n img) b;
                     b = add_i32 0x16 real_addr b;
                     b = add_i32 0x17 (of_nat n) b
                 in (Ok (), add_bytes 0x18 (take n img) b))"

definition load_linux ::
  "string \<Rightarrow> string \<Rightarrow> u8 list \<Rightarrow> u64 \<Rightarrow> BootModule list \<Rightarrow> host_mem \<Rightarrow> (QemuFwCfgBuilder, unit, Error) action" where
  "load_linux kernel_name initramfs_name cmdline mem modules m b =
    (case find_module kernel_name modules of
       None \<Rightarrow> (Err InvalidValue, b)
     | Some img \<Rightarrow>
         (case find_module initramfs_name modules of
            None \<Rightarrow> (Err InvalidValue, b)
          | Some initramfs \<Rightarrow> load_kernel (module_data img m) (module_data initramfs m) cmdline mem b))"

section \<open>The machine of a guest\<close>

record UserVmConfig =
  user_memory :: u64
  user_kernel :: string
  user_initramfs :: string
  user_cmdline :: string
  user_cpus :: "CoreId list"

text \<open>\<open>expect\<close> and \<open>unwrap\<close> of the result of an operation.\<close>

definition unwrap_state :: "('s, 'a, 'e) action \<Rightarrow> ('s, 'a, 'e) action" where
  "unwrap_state f s = (case f s of (r, s') \<Rightarrow> (unwrap_ok r, s'))"

text \<open>The tables and the firmware configuration of \<open>build_vm\<close>; \<open>rom\<close> is the option ROM \<open>linuxboot_dma.bin\<close>.\<close>

definition guest_sdts :: "CoreId list \<Rightarrow> RSDTBuilder res" where
  "guest_sdts cpus =
    and_then (guest_madt cpus) (\<lambda>madt.
    unwrap_ok (add_sdt MADT_SIGNATURE MADT_REVISION 0 (madt_encode_table madt 1024) 1024 RBT.empty))"

definition guest_fw_cfg :: "u8 list \<Rightarrow> UserVmConfig \<Rightarrow> BootModule list \<Rightarrow> host_mem \<Rightarrow> QemuFwCfg res" where
  "guest_fw_cfg rom cfg modules m =
    and_then (guest_sdts (user_cpus cfg)) (\<lambda>sdts.
    case
      bind_state (unwrap_state (add_file (str_bytes ''genroms/linuxboot_dma.bin'') rom)) (\<lambda>_.
      bind_state (unwrap_state (add_file (str_bytes ''bootorder'')
        (str_bytes ''/rom@genroms/linuxboot_dma.bin'' @ [10] @ str_bytes ''HALT''))) (\<lambda>_.
      bind_state (unwrap_state (rsdp_build sdts)) (\<lambda>_.
      unwrap_state (load_linux (user_kernel cfg) (user_initramfs cfg) (str_bytes (user_cmdline cfg)) (user_memory cfg) modules m))))
      builder_new
    of (r, b) \<Rightarrow> and_then r (\<lambda>_. Ok (build b)))"

definition build_vm ::
  "platform \<Rightarrow> u8 list \<Rightarrow> u32 \<Rightarrow> UserVmConfig \<Rightarrow> BootModule list \<Rightarrow> bool \<Rightarrow> (host_mem, Machine, Error) action" where
  "build_vm p rom i cfg modules add_uart m =
    bind_state (lift_state (unwrap_ok (config_new (user_cpus cfg) (user_memory cfg) (if add_uart then Some 0x3f8 else None)))) (\<lambda>config.
    bind_state (lift_state (guest_fw_cfg rom cfg modules m)) (\<lambda>fw.
    unwrap_state (vm_new p i (config\<lparr>cfg_virtual_devices := dynamic_devices fw\<rparr>)
      modules))) m"

section \<open>What is loaded\<close>

lemma unwrap_state_Ok: "unwrap_state f s = (Ok x, t) \<longleftrightarrow> f s = (Ok x, t)"
proof -
  obtain r s' where "f s = (r, s')" by fastforce
  then show ?thesis by (cases r) (auto simp: unwrap_state_def)
qed

lemma build_vm_devices:
  assumes "build_vm p rom i cfg modules add_uart m = (Ok vm, m')"
  shows "\<exists>fw. guest_fw_cfg rom cfg modules m = Ok fw \<and> vm_devices vm = guest_devices (user_memory cfg) fw"
proof -
  have unwrap: "unwrap_ok r = Ok x \<longleftrightarrow> r = Ok x" for r :: "VirtualMachineConfig res" and x by (cases r) auto
  show ?thesis
    using assms
    by (auto simp: build_vm_def bind_state_Ok_iff lift_state_def unwrap_state_Ok unwrap vm_new_def return_state_def
        config_new_def guest_devices_def split: if_splits)
qed

lemma drop_splice: "i + length ys \<le> k \<Longrightarrow> i + length ys \<le> length xs \<Longrightarrow> drop k (splice i ys xs) = drop k xs"
  by (simp add: splice_def)

lemma put_field_frame:
  assumes "i + n \<le> length img"
  shows "length (put_field i n w img) = length img" "i + n \<le> k \<Longrightarrow> drop k (put_field i n w img) = drop k img"
    "slice i (i + n) (put_field i n w img) = le_bytes n w"
    "j + l \<le> i \<or> i + n \<le> j \<Longrightarrow> j + l \<le> length img \<Longrightarrow> slice j (j + l) (put_field i n w img) = slice j (j + l) img"
    "j < i \<or> i + n \<le> j \<Longrightarrow> j < length img \<Longrightarrow> put_field i n w img ! j = img ! j"
  using assms slice_splice_same [of i "le_bytes n w" img]
  by (auto simp: put_field_def drop_splice nth_splice slice_splice_disjoint)

lemma loader_header_frame:
  assumes "8192 \<le> length img"
  shows "length (loader_header protocol c r img) = length img" "drop 0x22c (loader_header protocol c r img) = drop 0x22c img"
    "loader_header protocol c r img ! 0x1f1 = img ! 0x1f1"
  using assms by (simp_all add: loader_header_def Let_def put_field_frame)

text \<open>The header the kernel starts with when the initial file system is at an address.\<close>

definition final_image :: "u8 list \<Rightarrow> nat \<Rightarrow> u32 \<Rightarrow> nat \<Rightarrow> u8 list" where
  "final_image img cmdline_len addr initrd_len =
    (let protocol = field_at 0x206 2 img; (r, c, _) = boot_addresses protocol (img ! 0x211) cmdline_len in
     put_field 0x21c 4 (of_nat initrd_len :: u32) (put_field 0x218 4 addr (loader_header protocol c r img)))"

lemma final_image_frame:
  assumes "8192 \<le> length img"
  shows "length (final_image img n a k) = length img" "drop 0x22c (final_image img n a k) = drop 0x22c img"
    "slice 0x218 0x21c (final_image img n a k) = le_bytes 4 a" "slice 0x21c 0x220 (final_image img n a k) = le_bytes 4 (of_nat k :: u32)"
    "setup_size (final_image img n a k) = setup_size img"
  using assms
  by (simp_all add: final_image_def Let_def split_beta loader_header_frame put_field_frame setup_size_def
      put_field_frame(3) [of "0x218" 4, simplified] put_field_frame(3) [of "0x21c" 4, simplified]
      put_field_frame(4) [of "0x21c" 4 _ "0x218" 4, simplified])

lemma initrd_below:
  assumes "n < 2 ^ 32" "of_nat n \<le> (limit :: u32)"
  shows "4096 dvd unat ((limit - of_nat n) AND NOT 4095)" "unat ((limit - of_nat n) AND NOT 4095) + n \<le> unat limit"
proof -
  let ?d = "limit - of_nat n"
  have d: "unat ?d + n = unat limit" using assms by (simp add: unat_sub unat_of_nat word_le_nat_alt)
  have "?d AND NOT 4095 = ?d AND NOT (mask 12)" by (simp add: mask_eq_exp_minus_1)
  also have "\<dots> = push_bit 12 (drop_bit 12 ?d)"
    by (rule bit_word_eqI) (auto simp: bit_simps)
  finally have split: "?d AND NOT 4095 = push_bit 12 (drop_bit 12 ?d)" .
  have "take_bit 32 (unat ?d) = unat ?d" using unat_bound [of ?d] by (simp add: take_bit_nat_eq_self)
  then have "unat (?d AND NOT 4095) = take_bit 32 (unat ?d div 4096 * 4096)"
    by (simp only: split unsigned_push_bit_eq unsigned_drop_bit_eq) (simp add: push_bit_eq_mult drop_bit_eq_div)
  moreover have "unat ?d div 4096 * 4096 < 2 ^ 32"
    using unat_bound [of ?d] by (intro le_less_trans [OF div_times_less_eq_dividend]) simp
  ultimately have "unat (?d AND NOT 4095) = unat ?d div 4096 * 4096" by (simp add: take_bit_nat_eq_self)
  then show "4096 dvd unat (?d AND NOT 4095)" "unat (?d AND NOT 4095) + n \<le> unat limit" using d div_times_less_eq_dividend [of "unat ?d" 4096] by simp_all
qed

lemma initrd_limit_memory:
  assumes "0 < mem" "mem < 4096"
  shows "unat (initrd_limit protocol img mem) < unat mem * 2 ^ 20"
proof -
  have m: "unat (push_bit 20 mem) = unat mem * 2 ^ 20" "unat mem * 2 ^ 20 < 2 ^ 32" "0 < unat mem"
    using assms by (simp_all add: push_bit_eq_mult unat_word_ariths word_less_nat_alt)
  define l :: u32 where "l = (if 0x20c \<le> protocol \<and> (field_at 0x236 2 img :: u16) AND 2 \<noteq> 0 then 0xffffffff
    else if 0x203 \<le> protocol then field_at 0x22c 4 img else 0x37ffffff)"
  have limit: "initrd_limit protocol img mem = (if push_bit 20 mem \<le> ucast l then ucast (push_bit 20 mem) - 1 else l)"
    using assms(2) by (simp add: initrd_limit_def l_def Let_def)
  have u: "unat (ucast (push_bit 20 mem) :: u32) = unat mem * 2 ^ 20" using m(1,2) by (simp add: unsigned_ucast_eq take_bit_nat_eq_self)
  show ?thesis
  proof (cases "push_bit 20 mem \<le> ucast l")
    case True
    have "unat (ucast (push_bit 20 mem) - 1 :: u32) = unat mem * 2 ^ 20 - 1"
      using m(3) by (subst unat_sub) (simp_all add: u word_le_nat_alt)
    with True m(3) show ?thesis by (simp add: limit)
  next
    case False
    have "unat l < 2 ^ 64" using unat_bound [of l] by simp
    then have "unat (ucast l :: u64) = unat l" by (simp add: unsigned_ucast_eq take_bit_nat_eq_self)
    with False show ?thesis using m(1) by (simp add: limit word_le_nat_alt)
  qed
qed

text \<open>The items of a kernel that has been loaded, by selector; the files of the builder stay.\<close>

lemma load_kernel_items:
  assumes "load_kernel img initrd cmdline mem b = (Ok u, b')"
  defines "limit \<equiv> initrd_limit (field_at 0x206 2 img) img mem" and "item \<equiv> RBT.lookup (builder_data b')"
  defines "a \<equiv> (limit - of_nat (length initrd)) AND NOT 4095"
  defines "final \<equiv> final_image img (length cmdline) a (length initrd)"
  shows "8192 \<le> length img" "of_nat (length initrd) \<le> limit" "setup_size img \<le> length img"
    "item 0x15 = Some cmdline" "item 0x14 = Some (le_bytes 4 (of_nat (length cmdline) :: u32))"
    "item 0x12 = Some initrd" "item 0x0a = Some (le_bytes 4 a)" "item 0x0b = Some (le_bytes 4 (of_nat (length initrd) :: u32))"
    "item 0x18 = Some (take (setup_size img) final)" "item 0x17 = Some (le_bytes 4 (of_nat (setup_size img) :: u32))"
    "item 0x11 = Some (drop (setup_size img) final)"
    "item 0x08 = Some (le_bytes 4 (of_nat (length img) - of_nat (setup_size img) :: u32))"
proof -
  obtain r c p where adr: "boot_addresses (field_at 0x206 2 img) (img ! 0x211) (length cmdline) = (r, c, p)" by (metis prod_cases3)
  have final: "put_field 0x21c 4 (of_nat (length initrd) :: u32) (put_field 0x218 4 a (loader_header (field_at 0x206 2 img) c r img)) = final"
    by (simp add: final_def final_image_def Let_def adr)
  have fold: "(initrd_limit (field_at 0x206 2 img) img mem - of_nat (length initrd)) AND NOT 4095 = a" by (simp add: a_def limit_def)
  have eq: "\<not> length img < 8192" "\<not> limit < of_nat (length initrd)" "\<not> length final < setup_size final"
    "b' = add_bytes 0x18 (take (setup_size final) final) (add_i32 0x17 (of_nat (setup_size final)) (add_i32 0x16 r
      (add_bytes 0x11 (drop (setup_size final) final) (add_i32 0x08 (of_nat (length final) - of_nat (setup_size final)) (add_i32 0x07 p
      (add_bytes 0x12 initrd (add_i32 0x0b (of_nat (length initrd)) (add_i32 0x0a a
      (add_i32 0x14 (of_nat (length cmdline)) (add_bytes 0x15 cmdline (add_i32 0x13 c b)))))))))))"
    using assms(1) unfolding load_kernel_def Let_def adr prod.case fold final limit_def by (auto split: if_splits)
  then show img: "8192 \<le> length img" and "of_nat (length initrd) \<le> limit" by simp_all
  have "length final = length img" "setup_size final = setup_size img" using final_image_frame [OF img] by (simp_all add: final_def)
  with eq show "setup_size img \<le> length img"
    "item 0x15 = Some cmdline" "item 0x14 = Some (le_bytes 4 (of_nat (length cmdline) :: u32))"
    "item 0x12 = Some initrd" "item 0x0a = Some (le_bytes 4 a)" "item 0x0b = Some (le_bytes 4 (of_nat (length initrd) :: u32))"
    "item 0x18 = Some (take (setup_size img) final)" "item 0x17 = Some (le_bytes 4 (of_nat (setup_size img) :: u32))"
    "item 0x11 = Some (drop (setup_size img) final)"
    "item 0x08 = Some (le_bytes 4 (of_nat (length img) - of_nat (setup_size img) :: u32))"
    by (simp_all add: item_def add_i32_def add_bytes_def)
qed

lemma load_kernel_parts:
  assumes "load_kernel img initrd cmdline mem b = (Ok u, b')"
  defines "a \<equiv> (initrd_limit (field_at 0x206 2 img) img mem - of_nat (length initrd)) AND NOT 4095"
    and "item \<equiv> RBT.lookup (builder_data b')"
  shows "\<exists>front rest. item 0x18 = Some front \<and> item 0x17 = Some (le_bytes 4 (of_nat (length front) :: u32)) \<and>
    length front = setup_size img \<and> item 0x11 = Some rest \<and>
    item 0x08 = Some (le_bytes 4 (of_nat (length rest) :: u32)) \<and>
    front @ rest = final_image img (length cmdline) a (length initrd)"
proof -
  let ?final = "final_image img (length cmdline) a (length initrd)"
  note items = load_kernel_items [OF assms(1), folded a_def item_def]
  have "length ?final = length img" by (rule final_image_frame(1) [OF items(1)])
  then show ?thesis
    using items(3,9-12)
    by (intro exI [of _ "take (setup_size img) ?final"] exI [of _ "drop (setup_size img) ?final"]) (simp add: of_nat_diff)
qed

lemma load_kernel_result:
  "fst (load_kernel img initrd cmdline mem b) =
    (if 8192 \<le> length img \<and> field_at 0x202 4 img = HEADER_MAGIC_VALUE \<and> 0x200 \<le> (field_at 0x206 2 img :: u16) \<and>
        of_nat (length initrd) \<le> initrd_limit (field_at 0x206 2 img) img mem \<and> setup_size img \<le> length img
     then Ok () else Err InvalidValue)"
proof (cases "8192 \<le> length img")
  case True
  obtain r c p where adr: "boot_addresses (field_at 0x206 2 img) (img ! 0x211) (length cmdline) = (r, c, p)" by (metis prod_cases3)
  have final: "put_field 0x21c 4 (of_nat (length initrd) :: u32) (put_field 0x218 4 a (loader_header (field_at 0x206 2 img) c r img)) =
      final_image img (length cmdline) a (length initrd)" for a
    by (simp add: final_image_def Let_def adr)
  show ?thesis
    using True unfolding load_kernel_def Let_def adr prod.case final
    by (auto simp: final_image_frame not_less not_le)
qed (simp add: load_kernel_def)


definition small_kernel :: "u8 list" where
  "small_kernel = put_field 0x206 2 (0x202 :: u16) (put_field 0x202 4 HEADER_MAGIC_VALUE (replicate 8192 0))"

definition kernel_memory :: host_mem where
  "kernel_memory = empty_mem\<lparr>ram := (\<lambda>x. if unat x < 8192 then small_kernel ! unat x else 0x70)\<rparr>"

definition kernel_modules :: "BootModule list" where
  "kernel_modules = [\<lparr>mod_identifier = Some ''kernel'', mod_address = 0, mod_size = 8192\<rparr>,
    \<lparr>mod_identifier = Some ''initramfs'', mod_address = 8192, mod_size = 5000\<rparr>]"

lemma small_kernel_fields:
  "length small_kernel = 8192" "field_at 0x202 4 small_kernel = HEADER_MAGIC_VALUE"
  "field_at 0x206 2 small_kernel = (0x202 :: u16)" "setup_size small_kernel = 2560"
proof -
  define zeros :: "u8 list" where "zeros = replicate 8192 0"
  have z: "length zeros = 8192" "zeros ! 0x1f1 = 0" unfolding zeros_def by (simp_all)
  have small_kernel: "small_kernel = put_field 0x206 2 (0x202 :: u16) (put_field 0x202 4 HEADER_MAGIC_VALUE zeros)"
    by (simp only: small_kernel_def zeros_def)
  show "length small_kernel = 8192" "field_at 0x202 4 small_kernel = HEADER_MAGIC_VALUE"
    "field_at 0x206 2 small_kernel = (0x202 :: u16)" "setup_size small_kernel = 2560"
    by (simp_all add: small_kernel z field_at_def put_field_frame setup_size_def from_le_bytes_le_bytes take_bit_word_eq_self
        put_field_frame(3) [of "0x206" 2, simplified] put_field_frame(3) [of "0x202" 4, simplified]
        put_field_frame(4) [of "0x206" 2 _ "0x202" 4, simplified])
qed


end
