(* ===== verification/Spec2Isabelle.thy ===== *)
theory Spec2Isabelle
  imports Guest_Image Guest_Access Linux_Boot
begin

text \<open>
  A verification of mythril, a hypervisor for x86-64 with Intel VT-x. Paths below are relative to
  \<open>src/mythril/src\<close>.

  \<^bold>\<open>The program.\<close> The boot code calibrates the clock (\<open>tsc.rs\<close>, \<open>time.rs\<close>), reads the ACPI tables of the host
  (\<open>acpi/\<close>), sets up the I/O APICs (\<open>ioapic.rs\<close>) and builds a machine for each guest of the configuration
  (\<open>kmain.rs\<close>, \<open>linux.rs\<close>, \<open>vm.rs\<close>): its nested page tables (\<open>memory.rs\<close>), its virtual devices (\<open>virtdev/\<close>) and
  its cores. Each core then runs one virtual CPU (\<open>vcpu.rs\<close>, \<open>vmcs.rs\<close>, \<open>vmx.rs\<close>). When the guest exits
  (\<open>vmexit.rs\<close>), the handler emulates an instruction (\<open>emulate/\<close>), dispatches an event to a device or forwards an
  interrupt of the host; it carries out the responses of the device, fires elapsed timers (\<open>time.rs\<close>), takes the
  messages of the other cores (\<open>vm.rs\<close>) and injects a pending interrupt.

  \<^bold>\<open>How code is modelled.\<close> An operation is a function with the name of the source. One that changes state
  takes the state and returns it with the result, an \<open>action\<close>; the states are records that extend each other
  (\<open>vmset_state\<close> for the machines and the messages, \<open>time_state\<close> for the clock and the timers of the core,
  \<open>vm_state\<close> for host memory, \<open>vcpu_state\<close> for the virtual CPU, \<open>run_state\<close> for the host devices an exit uses).
  A result is an \<open>outcome\<close>: \<open>Ok\<close>, an error of the crate, \<open>Panic\<close> or \<open>Undefined\<close>, which is a pointer that leads
  nowhere. Integers are words of the width of the source; arithmetic wraps, as in a release build, and a slice
  or index out of range panics. Messages of errors and log output are left out.

  \<^bold>\<open>The theories.\<close>
  \<^item> \<open>Prelude\<close>: outcomes and actions, byte encodings, checked slices, bounded vectors, and the collections of
    simplification rules the other theories use.
  \<^item> \<open>Errors\<close> (\<open>error.rs\<close>): the error type; the locale \<open>primitive_enum\<close> is the conversion of numbers to enumerations
    that the crate \<open>num_enum\<close> derives, interpreted for every enumeration that is converted.
  \<^item> \<open>Vmcs\<close> (\<open>vmcs.rs\<close>): fields, reads, writes, and writes with the fixed bits the processor demands.
  \<^item> \<open>Memory\<close>, \<open>Address_Space\<close>, \<open>Guest_Bytes\<close> (\<open>memory.rs\<close>): nested page tables in an explicit store, mapping,
    translation, and access to bytes. The tables refine a map from guest pages to frames (the locale
    \<open>guest_mapping\<close>): a mapped page is found and nothing else changes (C2), how mapping can fail (C3), the flags
    of a mapped page (C6). For a guest with paging off, reads and writes of a range are exact (C7, C8).
  \<^item> \<open>Virtdev\<close>, \<open>Emulated_Device\<close> (\<open>virtdev/mod.rs\<close>): requests, events, regions and the device map, whose
    contract is the locale \<open>device_registry\<close> (C9, C11); the locale \<open>emulated_device\<close> is the trait
    \<open>EmulatedDevice\<close> with the laws every device keeps.
  \<^item> \<open>Apic\<close> (\<open>apic.rs\<close>, \<open>interrupt/mod.rs\<close>, \<open>percore.rs\<close>), \<open>Messages\<close> (the queues of \<open>vm.rs\<close>; the locale \<open>mailbox\<close>
    over any sequence of sends and receives gives C12) and \<open>Lapic\<close> (\<open>virtdev/lapic.rs\<close>, C13 to C15).
  \<^item> \<open>Time\<close> (\<open>time.rs\<close>, \<open>tsc.rs\<close>, the timer of \<open>apic.rs\<close>): the timer wheel over an explicit clock (C16 to C20).
  \<^item> \<open>Chipset\<close>, \<open>Serial\<close>, \<open>Pci\<close>, \<open>Pit\<close>, \<open>Fw_Cfg\<close>: the devices under \<open>virtdev/\<close> (C21 to C26, C28, C29).
  \<^item> \<open>Acpi\<close>, \<open>Madt\<close>, \<open>Ioapic\<close> (\<open>acpi/\<close>, \<open>ioapic.rs\<close>): reading and writing tables (the locale \<open>sdt_builder\<close>), and
    the I/O APICs of the host (C30 to C35).
  \<^item> \<open>Vm\<close>, \<open>Guest_Image\<close> (\<open>vm.rs\<close>): the devices of a machine, the dispatch of events, the set of machines (C36)
    and the memory a guest starts with (C10).
  \<^item> \<open>Table_Loader\<close>, \<open>Linux_Boot\<close> (\<open>acpi/seabios.rs\<close>, the builders of \<open>acpi/rsdt.rs\<close> and \<open>acpi/rsdp.rs\<close>,
    \<open>linux.rs\<close>, \<open>build_vm\<close> of \<open>kmain.rs\<close>): the tables (C27) and the kernel (C37) a guest gets through the
    firmware configuration device.
  \<^item> \<open>Vmexit\<close>, \<open>Emulate\<close>, \<open>Vcpu\<close> (\<open>vmexit.rs\<close>, \<open>emulate/\<close>, \<open>vcpu.rs\<close>, \<open>vmx.rs\<close>): decoding of exits, emulation,
    set-up and running of a virtual CPU (C4, C5, C38); \<open>Guest_Access\<close>: what a guest sees of it (C39, C40).
  \<^item> \<open>Isolation\<close>, \<open>Exit_Isolation\<close>: what an event and a VM exit can change, up to the whole exit handler (C1).

  \<^bold>\<open>Parameters and what is assumed of them.\<close> The records \<open>platform\<close>, \<open>processor\<close> and \<open>host_values\<close> hold what is
  not code of the repository: the allocator, the firmware image, the instruction decoder, \<open>cpuid\<close>, the flags
  after VMX instructions, the places of the stack and of the descriptor tables. Of the allocator the theorems assume
  \<open>allocator_ok\<close>: a block is aligned, not null and not handed out before. It may run out, and then the
  code panics; C3 and C10 say that it panics in no other case. C27 assumes \<open>table_loader_ok\<close>, the behaviour that
  the documentation in \<open>acpi/seabios.rs\<close> gives for the loader of the firmware. The crates' containers are
  modelled by their documented behaviour: \<open>ArrayVec\<close> and \<open>ArrayDeque\<close> as lists with a bound, \<open>BTreeMap\<close> and
  \<open>ManagedMap\<close> as search trees in the order of the keys, \<open>bitflags\<close> as words. What the hardware
  gives (the time stamp counter, the ports and registers it reads) is a sequence of values in the state.

  \<^bold>\<open>Loops.\<close> Nothing runs on fuel. Bounded loops are recursive functions with a termination proof. Loops that
  wait for something (\<open>wait_until\<close>, \<open>wait_counter\<close>, \<open>wait_for_init\<close>, \<open>wait_cores_ready\<close>) and the iteration over the
  structures of a MADT are partial functions whose value \<open>None\<close> is a loop that does not end; C19, C32, C38
  and \<open>wait_counter_ends\<close> say when they end.

  \<^bold>\<open>Limits.\<close> Cores are interleaved at the granularity of operations: locks are not modelled, and each operation
  is atomic. Page tables and bytes are separate maps of the store; a frame that is a page table and is mapped
  into a guest is outside the model. A VMCS field holds the value that was written: truncation to the width of a
  field and the access to the high half of a 64-bit field are not modelled. Not modelled at all are the boot entry
  and the assembly (\<open>main.rs\<close>, \<open>ap.rs\<close>, the \<open>.S\<close> files), the boot information that crates parse
  (\<open>multiboot.rs\<close>, \<open>multiboot2.rs\<close>, \<open>config.rs\<close> beyond its data), the host's interrupt descriptor table, the logger,
  locks, the wrapper of the allocator, the physical keyboard, which nothing uses, and the tables FADT and HPET, which
  only tests parse.
\<close>

end
